(* ===== verification/Prelude.thy ===== *)
theory Prelude
  imports Main "HOL-Library.Word"
begin

unbundle bit_operations_syntax

text \<open>
  The vocabulary every component shares: fixed-width integers and byte strings, the C memory
  idioms the sources use (\<open>memcpy\<close> into a caller's buffer, a cursor moving over a payload),
  results that carry a status, and the two views in which codecs are specified: a byte
  string lying at an offset of a payload (\<open>seg\<close>) and a write that appends to the used part
  of a bounded buffer (\<open>appends\<close>).

  Sizes (\<open>size_t\<close>) are natural numbers; the source is compiled for 64-bit targets, so
  \<open>SIZE_MAX\<close> is \<open>2 ^ 64 - 1\<close>.  A pointer to bytes is an option: \<open>None\<close> is the null
  pointer, \<open>Some bs\<close> the bytes it reaches.
\<close>

type_synonym u8 = "8 word"
type_synonym u16 = "16 word"
type_synonym u32 = "32 word"
type_synonym u64 = "64 word"
type_synonym bytes = "8 word list"
type_synonym ptr = "8 word list option"

definition SIZE_MAX :: nat where
  "SIZE_MAX = 2 ^ 64 - 1"

named_theorems seg_reads \<open>reading a value whose encoding lies at the cursor\<close>
named_theorems appends_intro \<open>writes that append a known byte string\<close>
named_theorems byte_lengths \<open>lengths of encodings\<close>


section \<open>Results with a status\<close>

text \<open>
  \<open>and_then r f\<close> is the source's \<open>if (status != OK) return status;\<close> between two steps.
\<close>

definition and_then :: "'e + 'a \<Rightarrow> ('a \<Rightarrow> 'e + 'b) \<Rightarrow> 'e + 'b" where
  "and_then r f = (case r of Inl e \<Rightarrow> Inl e | Inr a \<Rightarrow> f a)"

lemma and_then_simps [simp]:
  "and_then (Inl e) f = Inl e"
  "and_then (Inr a) f = f a"
  by (simp_all add: and_then_def)

lemma and_then_eq_Inr:
  "and_then r f = Inr b \<longleftrightarrow> (\<exists>a. r = Inr a \<and> f a = Inr b)"
  by (cases r) auto

lemma and_then_eq_Inl:
  "and_then r f = Inl e \<longleftrightarrow> r = Inl e \<or> (\<exists>a. r = Inr a \<and> f a = Inl e)"
  by (cases r) auto

text \<open>\<open>ensures P r\<close>: if \<open>r\<close> is a success, its value satisfies \<open>P\<close>.\<close>

definition ensures :: "('a \<Rightarrow> bool) \<Rightarrow> 'e + 'a \<Rightarrow> bool" where
  "ensures P r = (case r of Inl _ \<Rightarrow> True | Inr a \<Rightarrow> P a)"

lemma ensures_simps [simp]: "ensures P (Inl e)" "ensures P (Inr a) \<longleftrightarrow> P a"
  by (simp_all add: ensures_def)

lemma ensures_D: "ensures P r \<Longrightarrow> r = Inr a \<Longrightarrow> P a"
  by simp

lemma ensures_if: "(c \<Longrightarrow> ensures P r) \<Longrightarrow> (\<not> c \<Longrightarrow> ensures P s) \<Longrightarrow> ensures P (if c then r else s)"
  by simp

lemma ensures_and_then: "ensures Q r \<Longrightarrow> (\<And>a. Q a \<Longrightarrow> ensures P (f a)) \<Longrightarrow> ensures P (and_then r f)"
  by (cases r) simp_all

lemma ensures_any: "(\<And>a b. ensures P (f a b)) \<Longrightarrow> ensures P (and_then r (\<lambda>(a, b). f a b))"
  by (cases r) auto


section \<open>Lists as memory\<close>

text \<open>\<open>memcpy buf off xs\<close> overwrites \<open>buf\<close> with \<open>xs\<close> from \<open>off\<close> on.\<close>

definition memcpy :: "'a list \<Rightarrow> nat \<Rightarrow> 'a list \<Rightarrow> 'a list" where
  "memcpy buf off xs = take off buf @ xs @ drop (off + length xs) buf"

lemma length_memcpy [simp]: "off + length xs \<le> length buf \<Longrightarrow> length (memcpy buf off xs) = length buf"
  by (simp add: memcpy_def)

lemma memcpy_Nil [simp]: "memcpy buf off [] = buf"
  by (simp add: memcpy_def)

lemma take_memcpy: "off \<le> length buf \<Longrightarrow> take (off + length xs) (memcpy buf off xs) = take off buf @ xs"
  by (simp add: memcpy_def)

lemma memcpy_memcpy:
  "off + length xs \<le> length buf \<Longrightarrow>
   memcpy (memcpy buf off xs) (off + length xs) ys = memcpy buf off (xs @ ys)"
  by (simp add: memcpy_def ac_simps)

lemma list_update_is_memcpy: "i < length buf \<Longrightarrow> buf[i := x] = memcpy buf i [x]"
  by (simp add: memcpy_def upd_conv_take_nth_drop)

text \<open>A counting loop that writes one cell per round is one \<open>memcpy\<close>.\<close>

lemma fold_update_is_memcpy:
  "off + n \<le> length buf \<Longrightarrow>
   fold (\<lambda>i b. b[off + i := f i]) [0..<n] buf = memcpy buf off (map f [0..<n])"
proof (induction n)
  case (Suc n)
  then have "fold (\<lambda>i b. b[off + i := f i]) [0..<Suc n] buf
             = (memcpy buf off (map f [0..<n]))[off + n := f n]" by simp
  also have "\<dots> = memcpy (memcpy buf off (map f [0..<n])) (off + length (map f [0..<n])) [f n]"
    using Suc.prems by (simp add: list_update_is_memcpy)
  also have "\<dots> = memcpy buf off (map f [0..<n] @ [f n])"
    using Suc.prems by (intro memcpy_memcpy) simp
  finally show ?case by simp
qed simp


section \<open>A byte string at an offset\<close>

text \<open>
  \<open>seg d off xs off'\<close>: the bytes \<open>xs\<close> lie in \<open>d\<close> from \<open>off\<close> up to \<open>off'\<close>.  A payload
  that is a concatenation of encodings is a chain of such segments (\<open>seg_append\<close>), so a
  decoder is followed field by field without offset arithmetic.
\<close>

definition seg :: "'a list \<Rightarrow> nat \<Rightarrow> 'a list \<Rightarrow> nat \<Rightarrow> bool" where
  "seg d off xs off' \<longleftrightarrow> (\<exists>pre post. d = pre @ xs @ post \<and> off = length pre \<and> off' = length pre + length xs)"

lemma seg_whole: "seg d 0 d (length d)"
  by (auto simp: seg_def)

lemma segI: "d = pre @ xs @ post \<Longrightarrow> off = length pre \<Longrightarrow> off' = length pre + length xs \<Longrightarrow> seg d off xs off'"
  by (auto simp: seg_def)

lemma seg_iff: "seg d off xs off' \<longleftrightarrow> off' = off + length xs \<and> off' \<le> length d \<and> take (length xs) (drop off d) = xs"
proof
  assume "off' = off + length xs \<and> off' \<le> length d \<and> take (length xs) (drop off d) = xs"
  then have "d = take off d @ xs @ drop off' d" and "off = length (take off d)"
    and "off' = length (take off d) + length xs"
    by (auto simp: min_def) (metis append_take_drop_id drop_drop add.commute)
  then show "seg d off xs off'" by (rule segI)
qed (auto simp: seg_def)

lemma seg_append: "seg d off (xs @ ys) off'' \<longleftrightarrow> (\<exists>off'. seg d off xs off' \<and> seg d off' ys off'')"
proof
  assume "seg d off (xs @ ys) off''"
  then obtain pre post where d: "d = pre @ (xs @ ys) @ post" and "off = length pre"
    "off'' = length pre + length (xs @ ys)" by (auto simp: seg_def)
  then have "seg d off xs (off + length xs)" and "seg d (off + length xs) ys off''"
    by (simp_all add: seg_iff)
  then show "\<exists>off'. seg d off xs off' \<and> seg d off' ys off''" by blast
next
  assume "\<exists>off'. seg d off xs off' \<and> seg d off' ys off''"
  then have xs: "take (length xs) (drop off d) = xs"
    and ys: "take (length ys) (drop (off + length xs) d) = ys"
    and off'': "off'' = off + length xs + length ys" "off'' \<le> length d"
    by (auto simp: seg_iff)
  have "take (length xs + length ys) (drop off d) = xs @ ys"
    using xs ys by (simp add: take_add add.commute)
  with off'' show "seg d off (xs @ ys) off''" by (simp add: seg_iff)
qed

lemma seg_Nil [simp]: "seg d off [] off' \<longleftrightarrow> off' = off \<and> off \<le> length d"
  by (auto simp: seg_iff)

lemma seg_Cons: "seg d off (x # xs) off'' \<longleftrightarrow> off < length d \<and> d ! off = x \<and> seg d (Suc off) xs off''"
proof -
  have "seg d off [x] off' \<longleftrightarrow> off' = Suc off \<and> off < length d \<and> d ! off = x" for off'
    by (auto simp: seg_iff Cons_nth_drop_Suc [symmetric])
  then show ?thesis using seg_append [of d off "[x]" xs off''] by auto
qed

lemma seg_end: "seg d off xs off' \<Longrightarrow> off' = off + length xs"
  by (simp add: seg_iff)

lemma seg_le: "seg d off xs off' \<Longrightarrow> off + length xs \<le> length d"
  by (simp add: seg_iff)

lemma seg_take_drop: "seg d off xs off' \<Longrightarrow> take (length xs) (drop off d) = xs"
  by (simp add: seg_iff)

lemma seg_rest: "off \<le> length d \<Longrightarrow> seg d off xs (length d) \<longleftrightarrow> drop off d = xs"
  by (auto simp: seg_iff)

lemma seg_nth: "seg d off xs off' \<Longrightarrow> i < length xs \<Longrightarrow> d ! (off + i) = xs ! i"
  by (auto simp: seg_def nth_append)

lemma seg_of_take_drop: "off + n \<le> length d \<Longrightarrow> seg d off (take n (drop off d)) (off + n)"
  by (auto simp: seg_iff)


section \<open>Little-endian integers\<close>

text \<open>
  \<open>le_bytes n v\<close> are the \<open>n\<close> low bytes of \<open>v\<close>, least significant first, and
  \<open>le_value\<close> the number a byte string of at most eight bytes spells.
\<close>

primrec le_bytes :: "nat \<Rightarrow> u64 \<Rightarrow> bytes" where
  "le_bytes 0 v = []"
| "le_bytes (Suc n) v = ucast v # le_bytes n (drop_bit 8 v)"

primrec le_value :: "bytes \<Rightarrow> u64" where
  "le_value [] = 0"
| "le_value (b # bs) = ucast b OR push_bit 8 (le_value bs)"

lemma length_le_bytes [simp, byte_lengths]: "length (le_bytes n v) = n"
  by (induction n arbitrary: v) simp_all

lemma le_bytes_conv_map: "le_bytes n v = map (\<lambda>i. ucast (drop_bit (8 * i) v)) [0..<n]"
  by (induction n arbitrary: v) (simp_all add: map_upt_Suc add.commute del: upt_Suc)

lemma le_value_le_bytes: "le_value (le_bytes n v) = take_bit (8 * n) v"
proof (induction n arbitrary: v)
  case (Suc n)
  show ?case
    by (rule bit_word_eqI) (auto simp: Suc.IH bit_simps)
qed simp

lemma not_bit_u8: "8 \<le> k \<Longrightarrow> \<not> bit (b :: u8) k"
  using bit_imp_le_length [of b k] by auto

lemma bit_le_value:
  "bit (le_value bs) k \<longleftrightarrow> k < 64 \<and> k div 8 < length bs \<and> bit (bs ! (k div 8)) (k mod 8)"
proof (induction bs arbitrary: k)
  case (Cons b bs)
  show ?case
  proof (cases "k < 8")
    case False
    then obtain j where "k = j + 8" by (metis add.commute le_iff_add not_less)
    moreover have "(j + 8) div 8 = Suc (j div 8)" by simp
    ultimately show ?thesis using Cons.IH [of j] by (auto simp: bit_simps not_bit_u8)
  qed (auto simp: bit_simps)
qed simp

lemma le_bytes_le_value: "length bs \<le> 8 \<Longrightarrow> le_bytes (length bs) (le_value bs) = bs"
proof (induction bs)
  case (Cons b bs)
  have "(ucast (le_value (b # bs)) :: u8) = b"
    by (rule bit_word_eqI) (auto simp: bit_simps)
  moreover have "drop_bit 8 (le_value (b # bs)) = le_value bs"
    using Cons.prems by (intro bit_word_eqI) (auto simp: bit_simps bit_le_value not_bit_u8)
  ultimately show ?case using Cons by simp
qed simp

lemma take_bit_ucast_id:
  assumes "LENGTH('a) \<le> 8 * n"
  shows "take_bit (8 * n) (ucast (x :: 'a::len word) :: u64) = ucast x"
proof (rule bit_word_eqI)
  fix k
  have "bit x k \<Longrightarrow> k < 8 * n" using bit_imp_le_length [of x k] assms by linarith
  then show "bit (take_bit (8 * n) (ucast x :: u64)) k = bit (ucast x :: u64) k"
    by (auto simp: bit_simps)
qed

lemma take_bit_le_value: "take_bit (8 * length bs) (le_value bs) = le_value bs"
  by (rule bit_word_eqI) (auto simp: bit_take_bit_iff bit_le_value)

text \<open>Conversions between widths keep a value that fits.\<close>

lemma unat_ucast_fits: "unat (x :: 'a::len word) < 2 ^ LENGTH('b) \<Longrightarrow> unat (ucast x :: 'b::len word) = unat x"
  by (simp add: unsigned_ucast_eq take_bit_nat_eq_self)

lemma unat_ucast_up:
  assumes "LENGTH('a) \<le> LENGTH('b)"
  shows "unat (ucast (x :: 'a::len word) :: 'b::len word) = unat x"
proof (rule unat_ucast_fits)
  have "unat x < 2 ^ LENGTH('a)" by (rule unsigned_less)
  also have "\<dots> \<le> (2 :: nat) ^ LENGTH('b)" using assms by simp
  finally show "unat x < 2 ^ LENGTH('b)" .
qed

lemma ucast_ucast_fits:
  "unat (x :: 'a::len word) < 2 ^ LENGTH('b) \<Longrightarrow> LENGTH('b) \<le> LENGTH('a) \<Longrightarrow>
   ucast (ucast x :: 'b::len word) = x"
  by (simp add: word_unat_eq_iff unat_ucast_up unat_ucast_fits)

text \<open>Bit \<open>i\<close> of a bitmap of \<open>n\<close> bits lies in one of its \<open>(n + 7) div 8\<close> bytes.\<close>

lemma bitmap_index: "i < n \<Longrightarrow> i div 8 < (n + 7) div (8 :: nat)"
proof -
  assume "i < n"
  then have "(i + 8) div 8 \<le> (n + 7) div (8 :: nat)" by (intro div_le_mono) simp
  then show ?thesis by simp
qed

end
