(* ===== verification/Wire_Codec.thy ===== *)
theory Wire_Codec
  imports Prelude
begin

unbundle bit_operations_syntax

text \<open>
  The primitive codec of the MySQL client/server protocol, \<open>src/mysql/wire/codec.c\<close>:
  little-endian integers of 2, 3, 4 and 8 bytes, length-encoded integers and length-encoded
  byte strings.  A reader takes the payload and the cursor and returns the value with the
  advanced cursor, or the status that stopped it; a writer takes the buffer, the size it may
  use and the cursor, and returns its status, the buffer (also when it fails part-way, since
  the code writes in place) and the cursor.

  The result pointers of the C functions (\<open>offset\<close>, \<open>out\<close>, \<open>value\<close>, \<open>is_null\<close>) are results
  of the model, so the guards that reject a null result pointer have no counterpart; the
  guards on the data pointer do.

  Two interfaces are stated here.  \<open>wire_codec\<close> is what a decoder relies on: a value whose
  encoding lies at the cursor is read back, and the cursor never leaves the payload.
  \<open>wire_sink\<close> is what a message builder relies on: a write appends the encoding when it fits
  and fails with LIMIT when it does not.
\<close>

section \<open>Data\<close>

datatype mysql_wire_status =
    MYSQL_WIRE_STATUS_OK
  | MYSQL_WIRE_STATUS_NEED_MORE
  | MYSQL_WIRE_STATUS_INVALID
  | MYSQL_WIRE_STATUS_LIMIT
  | MYSQL_WIRE_STATUS_SEQUENCE

record mysql_wire_bytes =
  wb_data :: ptr
  wb_length :: nat
  wb_is_null :: bool

type_synonym 'a wire_read = "mysql_wire_status + ('a \<times> nat)"
type_synonym wire_write = "mysql_wire_status \<times> ptr \<times> nat"

text \<open>A non-null view of the bytes \<open>bs\<close>, and the all-zero struct.\<close>

definition wire_bytes :: "bytes \<Rightarrow> mysql_wire_bytes" where
  "wire_bytes bs = \<lparr>wb_data = Some bs, wb_length = length bs, wb_is_null = False\<rparr>"

definition wire_bytes_zero :: mysql_wire_bytes where
  "wire_bytes_zero = \<lparr>wb_data = None, wb_length = 0, wb_is_null = False\<rparr>"

definition wire_bytes_null :: mysql_wire_bytes where
  "wire_bytes_null = \<lparr>wb_data = None, wb_length = 0, wb_is_null = True\<rparr>"


section \<open>Operations\<close>

definition mysql_wire_read_le :: "ptr \<Rightarrow> nat \<Rightarrow> nat \<Rightarrow> u64 wire_read" where
  "mysql_wire_read_le data offset width =
     (case data of None \<Rightarrow> Inl MYSQL_WIRE_STATUS_INVALID
      | Some d \<Rightarrow>
        let sz = length d; cursor = offset in
        if width = 0 \<or> width > 8 then Inl MYSQL_WIRE_STATUS_INVALID
        else if cursor > sz \<or> sz - cursor < width then Inl MYSQL_WIRE_STATUS_NEED_MORE
        else Inr (fold (\<lambda>i value. value OR push_bit (8 * i) (ucast (d ! (cursor + i)))) [0..<width] 0,
                  cursor + width))"

definition mysql_wire_write_le :: "ptr \<Rightarrow> nat \<Rightarrow> nat \<Rightarrow> nat \<Rightarrow> u64 \<Rightarrow> wire_write" where
  "mysql_wire_write_le data sz offset width value =
     (case data of None \<Rightarrow> (MYSQL_WIRE_STATUS_INVALID, None, offset)
      | Some d \<Rightarrow>
        let cursor = offset in
        if width = 0 \<or> width > 8 then (MYSQL_WIRE_STATUS_INVALID, data, offset)
        else if cursor > sz \<or> sz - cursor < width then (MYSQL_WIRE_STATUS_LIMIT, data, offset)
        else (MYSQL_WIRE_STATUS_OK,
              Some (fold (\<lambda>i d. d[cursor + i := ucast (drop_bit (8 * i) value)]) [0..<width] d),
              cursor + width))"

definition mysql_wire_read_u16_le :: "ptr \<Rightarrow> nat \<Rightarrow> u16 wire_read" where
  "mysql_wire_read_u16_le data offset =
     and_then (mysql_wire_read_le data offset 2) (\<lambda>(value, cursor). Inr (ucast value, cursor))"

definition mysql_wire_read_u24_le :: "ptr \<Rightarrow> nat \<Rightarrow> u32 wire_read" where
  "mysql_wire_read_u24_le data offset =
     and_then (mysql_wire_read_le data offset 3) (\<lambda>(value, cursor). Inr (ucast value, cursor))"

definition mysql_wire_read_u32_le :: "ptr \<Rightarrow> nat \<Rightarrow> u32 wire_read" where
  "mysql_wire_read_u32_le data offset =
     and_then (mysql_wire_read_le data offset 4) (\<lambda>(value, cursor). Inr (ucast value, cursor))"

definition mysql_wire_read_u64_le :: "ptr \<Rightarrow> nat \<Rightarrow> u64 wire_read" where
  "mysql_wire_read_u64_le data offset = mysql_wire_read_le data offset 8"

definition mysql_wire_write_u16_le :: "ptr \<Rightarrow> nat \<Rightarrow> nat \<Rightarrow> u16 \<Rightarrow> wire_write" where
  "mysql_wire_write_u16_le data sz offset value = mysql_wire_write_le data sz offset 2 (ucast value)"

definition mysql_wire_write_u24_le :: "ptr \<Rightarrow> nat \<Rightarrow> nat \<Rightarrow> u32 \<Rightarrow> wire_write" where
  "mysql_wire_write_u24_le data sz offset value =
     (if value > 0x00ffffff then (MYSQL_WIRE_STATUS_LIMIT, data, offset)
      else mysql_wire_write_le data sz offset 3 (ucast value))"

definition mysql_wire_write_u32_le :: "ptr \<Rightarrow> nat \<Rightarrow> nat \<Rightarrow> u32 \<Rightarrow> wire_write" where
  "mysql_wire_write_u32_le data sz offset value = mysql_wire_write_le data sz offset 4 (ucast value)"

definition mysql_wire_write_u64_le :: "ptr \<Rightarrow> nat \<Rightarrow> nat \<Rightarrow> u64 \<Rightarrow> wire_write" where
  "mysql_wire_write_u64_le data sz offset value = mysql_wire_write_le data sz offset 8 value"

text \<open>The value and the null flag of a length-encoded integer.\<close>

definition mysql_wire_read_lenenc_uint :: "ptr \<Rightarrow> nat \<Rightarrow> (u64 \<times> bool) wire_read" where
  "mysql_wire_read_lenenc_uint data offset =
     (case data of None \<Rightarrow> Inl MYSQL_WIRE_STATUS_INVALID
      | Some d \<Rightarrow>
        if offset \<ge> length d then Inl MYSQL_WIRE_STATUS_NEED_MORE
        else
          let first = d ! offset; cursor = offset + 1 in
          if first \<le> 0xfa then Inr ((ucast first, False), cursor)
          else if first = 0xfb then Inr ((0, True), cursor)
          else if first = 0xfc then
            and_then (mysql_wire_read_u16_le data cursor) (\<lambda>(v16, cursor). Inr ((ucast v16, False), cursor))
          else if first = 0xfd then
            and_then (mysql_wire_read_u24_le data cursor) (\<lambda>(v24, cursor). Inr ((ucast v24, False), cursor))
          else if first = 0xfe then
            and_then (mysql_wire_read_u64_le data cursor) (\<lambda>(decoded, cursor). Inr ((decoded, False), cursor))
          else Inl MYSQL_WIRE_STATUS_INVALID)"

text \<open>On a 64-bit target the check \<open>length > SIZE_MAX\<close> is compiled out.\<close>

definition mysql_wire_read_lenenc_bytes :: "ptr \<Rightarrow> nat \<Rightarrow> mysql_wire_bytes wire_read" where
  "mysql_wire_read_lenenc_bytes data offset =
     (case data of None \<Rightarrow> Inl MYSQL_WIRE_STATUS_INVALID
      | Some d \<Rightarrow>
        and_then (mysql_wire_read_lenenc_uint data offset) (\<lambda>((len, is_null), cursor).
          if is_null then Inr (wire_bytes_null, cursor)
          else if cursor > length d \<or> length d - cursor < unat len then Inl MYSQL_WIRE_STATUS_NEED_MORE
          else Inr (\<lparr>wb_data = Some (take (unat len) (drop cursor d)), wb_length = unat len,
                     wb_is_null = False\<rparr>, cursor + unat len)))"

text \<open>
  The first byte is stored before the rest is known to fit: on LIMIT the buffer may hold the
  marker, but the caller's cursor has not moved.
\<close>

definition mysql_wire_write_lenenc_uint :: "ptr \<Rightarrow> nat \<Rightarrow> nat \<Rightarrow> u64 \<Rightarrow> wire_write" where
  "mysql_wire_write_lenenc_uint data sz offset value =
     (case data of None \<Rightarrow> (MYSQL_WIRE_STATUS_INVALID, None, offset)
      | Some d \<Rightarrow>
        if offset \<ge> sz then (MYSQL_WIRE_STATUS_LIMIT, data, offset)
        else if value \<le> 250 then
          (MYSQL_WIRE_STATUS_OK, Some (d[offset := ucast value]), offset + 1)
        else
          let marked = (\<lambda>m. Some (d[offset := m]));
              (status, data', cursor) =
                (if value < push_bit 16 1 then
                   mysql_wire_write_u16_le (marked 0xfc) sz (offset + 1) (ucast value)
                 else if value < push_bit 24 1 then
                   mysql_wire_write_u24_le (marked 0xfd) sz (offset + 1) (ucast value)
                 else mysql_wire_write_u64_le (marked 0xfe) sz (offset + 1) value)
          in if status \<noteq> MYSQL_WIRE_STATUS_OK then (MYSQL_WIRE_STATUS_LIMIT, data', offset)
             else (MYSQL_WIRE_STATUS_OK, data', cursor))"

definition mysql_wire_write_lenenc_null :: "ptr \<Rightarrow> nat \<Rightarrow> nat \<Rightarrow> wire_write" where
  "mysql_wire_write_lenenc_null data sz offset =
     (case data of None \<Rightarrow> (MYSQL_WIRE_STATUS_INVALID, None, offset)
      | Some d \<Rightarrow>
        if offset \<ge> sz then (MYSQL_WIRE_STATUS_LIMIT, data, offset)
        else (MYSQL_WIRE_STATUS_OK, Some (d[offset := 0xfb]), offset + 1))"


section \<open>Interfaces\<close>

locale wire_codec =
  fixes enc :: "'a \<Rightarrow> bytes"
    and dec :: "ptr \<Rightarrow> nat \<Rightarrow> 'a wire_read"
    and ok :: "'a \<Rightarrow> bool"
  assumes dec_seg: "ok x \<Longrightarrow> seg d off (enc x) off' \<Longrightarrow> dec (Some d) off = Inr (x, off')"
    and dec_bounds: "dec (Some d) off = Inr (x, off') \<Longrightarrow> off < off' \<and> off' \<le> length d"
begin

text \<open>An encoding is recognised wherever it lies, and encodings are self-delimiting.\<close>

lemma dec_append: "ok x \<Longrightarrow> dec (Some (pre @ enc x @ post)) (length pre) = Inr (x, length pre + length (enc x))"
  by (intro dec_seg segI) auto

lemma enc_prefix_free:
  assumes "ok x" and "ok y" and "enc x @ r = enc y @ s"
  shows "x = y \<and> r = s"
proof -
  have "dec (Some (enc x @ r)) 0 = Inr (x, length (enc x))"
    using dec_append [of x "[]" r] assms(1) by simp
  moreover have "dec (Some (enc y @ s)) 0 = Inr (y, length (enc y))"
    using dec_append [of y "[]" s] assms(2) by simp
  ultimately show ?thesis using assms(3) by simp
qed

lemma enc_nonempty: "ok x \<Longrightarrow> enc x \<noteq> []"
  using dec_append [of x "[]" "[]"] dec_bounds [of "enc x" 0 x "length (enc x)"] by auto

end

text \<open>Sequencing of writes: a failed status stops the builder.\<close>

definition write_then :: "wire_write \<Rightarrow> (ptr \<Rightarrow> nat \<Rightarrow> wire_write) \<Rightarrow> wire_write" where
  "write_then r f =
     (case r of (status, out, off) \<Rightarrow>
        if status = MYSQL_WIRE_STATUS_OK then f out off else (status, out, off))"

text \<open>
  \<open>appends cap f xs\<close>: on a buffer of at least \<open>cap\<close> bytes, the write \<open>f\<close> puts \<open>xs\<close> at the
  cursor when the capacity allows it, and otherwise stops with LIMIT, leaving the length of
  the buffer and the bytes before the cursor alone.
\<close>

definition appends :: "nat \<Rightarrow> (ptr \<Rightarrow> nat \<Rightarrow> wire_write) \<Rightarrow> bytes \<Rightarrow> bool" where
  "appends cap f xs \<longleftrightarrow>
     (\<forall>out off. cap \<le> length out \<longrightarrow> off \<le> cap \<longrightarrow>
        (if off + length xs \<le> cap
         then f (Some out) off = (MYSQL_WIRE_STATUS_OK, Some (memcpy out off xs), off + length xs)
         else \<exists>out' off'. f (Some out) off = (MYSQL_WIRE_STATUS_LIMIT, Some out', off') \<and>
                length out' = length out \<and> take off out' = take off out))"

lemma appends_fits:
  "appends cap f xs \<Longrightarrow> cap \<le> length out \<Longrightarrow> off + length xs \<le> cap \<Longrightarrow>
   f (Some out) off = (MYSQL_WIRE_STATUS_OK, Some (memcpy out off xs), off + length xs)"
  by (simp add: appends_def)

lemma appends_limit:
  "appends cap f xs \<Longrightarrow> cap \<le> length out \<Longrightarrow> off \<le> cap \<Longrightarrow> cap < off + length xs \<Longrightarrow>
   fst (f (Some out) off) = MYSQL_WIRE_STATUS_LIMIT"
  unfolding appends_def by (metis fst_conv not_less)

lemma appends_then [appends_intro]:
  assumes f: "appends cap f xs" and g: "appends cap g ys"
  shows "appends cap (\<lambda>out off. write_then (f out off) g) (xs @ ys)"
  unfolding appends_def
proof (intro allI impI)
  fix out :: bytes and off
  assume cap: "cap \<le> length out" and off: "off \<le> cap"
  show "if off + length (xs @ ys) \<le> cap
        then write_then (f (Some out) off) g =
               (MYSQL_WIRE_STATUS_OK, Some (memcpy out off (xs @ ys)), off + length (xs @ ys))
        else \<exists>out' off'. write_then (f (Some out) off) g = (MYSQL_WIRE_STATUS_LIMIT, Some out', off') \<and>
               length out' = length out \<and> take off out' = take off out"
  proof (cases "off + length xs \<le> cap")
    case False
    then obtain out' off' where "f (Some out) off = (MYSQL_WIRE_STATUS_LIMIT, Some out', off')"
      "length out' = length out" "take off out' = take off out"
      using f cap off unfolding appends_def by metis
    with False show ?thesis by (simp add: write_then_def)
  next
    case True
    let ?out = "memcpy out off xs" and ?off = "off + length xs"
    have step: "write_then (f (Some out) off) g = g (Some ?out) ?off"
      using appends_fits [OF f cap] True by (simp add: write_then_def)
    have len: "length ?out = length out" using True cap by simp
    show ?thesis
    proof (cases "off + length (xs @ ys) \<le> cap")
      case fits: True
      then have "g (Some ?out) ?off = (MYSQL_WIRE_STATUS_OK, Some (memcpy ?out ?off ys), ?off + length ys)"
        using cap len by (intro appends_fits [OF g]) auto
      moreover have "memcpy ?out ?off ys = memcpy out off (xs @ ys)"
        using True cap by (intro memcpy_memcpy) simp
      ultimately show ?thesis using fits step by (simp add: add.assoc)
    next
      case False
      then have "\<not> ?off + length ys \<le> cap" by simp
      then obtain out' off' where r: "g (Some ?out) ?off = (MYSQL_WIRE_STATUS_LIMIT, Some out', off')"
        "length out' = length ?out" "take ?off out' = take ?off ?out"
        using g cap len True unfolding appends_def by metis
      have "take off out' = take off (take ?off out')" by (simp add: min_def)
      also have "\<dots> = take off out"
        using r(3) True cap off by (simp add: take_memcpy)
      finally show ?thesis using False step r len by simp
    qed
  qed
qed

locale wire_sink =
  fixes put :: "ptr \<Rightarrow> nat \<Rightarrow> nat \<Rightarrow> 'a \<Rightarrow> wire_write"
    and enc :: "'a \<Rightarrow> bytes"
  assumes put_appends: "appends sz (\<lambda>data offset. put data sz offset x) (enc x)"
begin

text \<open>What a write leaves in the used part of the buffer.\<close>

lemma put_ok:
  assumes "sz \<le> length out" and "off + length (enc x) \<le> sz"
  shows "\<exists>out'. put (Some out) sz off x = (MYSQL_WIRE_STATUS_OK, Some out', off + length (enc x)) \<and>
           length out' = length out \<and> take (off + length (enc x)) out' = take off out @ enc x"
  using appends_fits [OF put_appends assms] assms by (auto simp: take_memcpy)

lemma put_status:
  "sz \<le> length out \<Longrightarrow> off \<le> sz \<Longrightarrow>
   fst (put (Some out) sz off x) =
     (if off + length (enc x) \<le> sz then MYSQL_WIRE_STATUS_OK else MYSQL_WIRE_STATUS_LIMIT)"
  using appends_fits [OF put_appends, of sz out off x] appends_limit [OF put_appends, of sz out off x]
  by auto

end


section \<open>Little-endian integers\<close>

lemma bit_read_loop:
  "bit (fold (\<lambda>i value. value OR push_bit (8 * i) (ucast (d ! (cursor + i) :: u8))) [0..<n] (0 :: u64)) k \<longleftrightarrow>
   k < 64 \<and> k div 8 < n \<and> bit (d ! (cursor + k div 8)) (k mod 8)"
proof (induction n)
  case (Suc n)
  have "bit (push_bit (8 * n) (ucast (d ! (cursor + n)) :: u64)) k \<longleftrightarrow>
        k < 64 \<and> k div 8 = n \<and> bit (d ! (cursor + k div 8)) (k mod 8)" (is "?l \<longleftrightarrow> ?r")
  proof (cases "8 * n \<le> k \<and> k < 8 * n + 8")
    case True
    then have n: "k div 8 = n" by auto
    then have "k - 8 * n = k mod 8" by (simp add: minus_mult_div_eq_mod [symmetric])
    note n this
    with True show ?thesis by (auto simp: bit_push_bit_iff bit_simps)
  next
    case False
    then have "k div 8 \<noteq> n" by auto
    moreover have "\<not> (8 * n \<le> k \<and> bit (d ! (cursor + n)) (k - 8 * n))"
      using False not_bit_u8 [of "k - 8 * n"] by auto
    ultimately show ?thesis by (auto simp: bit_push_bit_iff bit_simps)
  qed
  then show ?case using Suc by (auto simp: bit_or_iff less_Suc_eq)
qed simp

lemma mysql_wire_read_le_value:
  assumes "0 < width" and "width \<le> 8" and "off + width \<le> length d"
  shows "mysql_wire_read_le (Some d) off width = Inr (le_value (take width (drop off d)), off + width)"
proof -
  have "fold (\<lambda>i value. value OR push_bit (8 * i) (ucast (d ! (off + i)))) [0..<width] 0 =
        le_value (take width (drop off d))"
    by (rule bit_word_eqI) (use assms(3) in \<open>auto simp: bit_read_loop bit_le_value\<close>)
  then show ?thesis using assms by (simp add: mysql_wire_read_le_def)
qed

lemma mysql_wire_read_le_bounds:
  "mysql_wire_read_le (Some d) off width = Inr (v, off') \<Longrightarrow> off' = off + width \<and> 0 < width \<and> off' \<le> length d"
  by (auto simp: mysql_wire_read_le_def Let_def split: if_splits)

lemma mysql_wire_read_le_short:
  "0 < width \<Longrightarrow> width \<le> 8 \<Longrightarrow> length d < off + width \<Longrightarrow>
   mysql_wire_read_le (Some d) off width = Inl MYSQL_WIRE_STATUS_NEED_MORE"
  by (auto simp: mysql_wire_read_le_def Let_def)

lemma mysql_wire_read_le_seg:
  assumes "0 < width" and "width \<le> 8" and s: "seg d off (le_bytes width v) off'"
  shows "mysql_wire_read_le (Some d) off width = Inr (take_bit (8 * width) v, off')"
  using assms mysql_wire_read_le_value [of width off d] seg_le [OF s] seg_end [OF s] seg_take_drop [OF s]
  by (simp add: le_value_le_bytes)

lemma mysql_wire_write_le_memcpy:
  "0 < width \<Longrightarrow> width \<le> 8 \<Longrightarrow> off + width \<le> sz \<Longrightarrow> sz \<le> length d \<Longrightarrow>
   mysql_wire_write_le (Some d) sz off width v =
     (MYSQL_WIRE_STATUS_OK, Some (memcpy d off (le_bytes width v)), off + width)"
  by (simp add: mysql_wire_write_le_def fold_update_is_memcpy le_bytes_conv_map)

lemma mysql_wire_write_le_appends:
  "0 < width \<Longrightarrow> width \<le> 8 \<Longrightarrow>
   appends sz (\<lambda>data off. mysql_wire_write_le data sz off width v) (le_bytes width v)"
  by (auto simp: appends_def mysql_wire_write_le_memcpy) (auto simp: mysql_wire_write_le_def)

text \<open>The encodings of the fixed-width integers.\<close>

definition u16_bytes :: "u16 \<Rightarrow> bytes" where
  "u16_bytes v = le_bytes 2 (ucast v)"

definition u24_bytes :: "u32 \<Rightarrow> bytes" where
  "u24_bytes v = le_bytes 3 (ucast v)"

definition u32_bytes :: "u32 \<Rightarrow> bytes" where
  "u32_bytes v = le_bytes 4 (ucast v)"

definition u64_bytes :: "u64 \<Rightarrow> bytes" where
  "u64_bytes v = le_bytes 8 v"

lemmas fixed_bytes_defs = u16_bytes_def u24_bytes_def u32_bytes_def u64_bytes_def

lemma length_fixed_bytes [simp, byte_lengths]:
  "length (u16_bytes a) = 2" "length (u24_bytes b) = 3" "length (u32_bytes b) = 4" "length (u64_bytes c) = 8"
  by (simp_all add: fixed_bytes_defs)

lemma ucast_ucast_u64_id: "LENGTH('a) \<le> 64 \<Longrightarrow> ucast (ucast (x :: 'a::len word) :: u64) = x"
  by (rule bit_word_eqI) (auto simp: bit_simps dest: bit_imp_le_length)

lemma take_bit_u24:
  assumes "v \<le> 0xffffff"
  shows "take_bit 24 (ucast (v :: u32) :: u64) = ucast v"
proof -
  have "unat v < 2 ^ 24" using assms by (simp add: word_le_nat_alt)
  moreover have "unat (ucast v :: u64) = unat v"
    by (simp add: unat_ucast_up)
  ultimately show ?thesis
    by (simp add: word_unat_eq_iff unsigned_take_bit_eq take_bit_nat_eq_self)
qed

interpretation u16c: wire_codec u16_bytes mysql_wire_read_u16_le "\<lambda>_. True"
proof (unfold_locales, goal_cases)
  case (1 x d off off')
  then show ?case
    using take_bit_ucast_id [of 2 x]
    by (simp add: u16_bytes_def mysql_wire_read_u16_le_def mysql_wire_read_le_seg ucast_ucast_u64_id)
next
  case (2 d off x off')
  then show ?case
    by (auto simp: mysql_wire_read_u16_le_def and_then_eq_Inr dest: mysql_wire_read_le_bounds)
qed

interpretation u24c: wire_codec u24_bytes mysql_wire_read_u24_le "\<lambda>v. v \<le> 0xffffff"
proof (unfold_locales, goal_cases)
  case (1 x d off off')
  then show ?case
    using take_bit_u24 [of x]
    by (simp add: u24_bytes_def mysql_wire_read_u24_le_def mysql_wire_read_le_seg ucast_ucast_u64_id)
next
  case (2 d off x off')
  then show ?case
    by (auto simp: mysql_wire_read_u24_le_def and_then_eq_Inr dest: mysql_wire_read_le_bounds)
qed

interpretation u32c: wire_codec u32_bytes mysql_wire_read_u32_le "\<lambda>_. True"
proof (unfold_locales, goal_cases)
  case (1 x d off off')
  then show ?case
    using take_bit_ucast_id [of 4 x]
    by (simp add: u32_bytes_def mysql_wire_read_u32_le_def mysql_wire_read_le_seg ucast_ucast_u64_id)
next
  case (2 d off x off')
  then show ?case
    by (auto simp: mysql_wire_read_u32_le_def and_then_eq_Inr dest: mysql_wire_read_le_bounds)
qed

interpretation u64c: wire_codec u64_bytes mysql_wire_read_u64_le "\<lambda>_. True"
proof (unfold_locales, goal_cases)
  case (1 x d off off')
  then show ?case
    using take_bit_ucast_id [of 8 x]
    by (simp add: u64_bytes_def mysql_wire_read_u64_le_def mysql_wire_read_le_seg)
next
  case (2 d off x off')
  then show ?case
    by (auto simp: mysql_wire_read_u64_le_def dest: mysql_wire_read_le_bounds)
qed

interpretation u16w: wire_sink mysql_wire_write_u16_le u16_bytes
  by unfold_locales (simp add: mysql_wire_write_u16_le_def u16_bytes_def mysql_wire_write_le_appends)

interpretation u32w: wire_sink mysql_wire_write_u32_le u32_bytes
  by unfold_locales (simp add: mysql_wire_write_u32_le_def u32_bytes_def mysql_wire_write_le_appends)

interpretation u64w: wire_sink mysql_wire_write_u64_le u64_bytes
  by unfold_locales (simp add: mysql_wire_write_u64_le_def u64_bytes_def mysql_wire_write_le_appends)

lemma mysql_wire_write_u24_appends [appends_intro]:
  "v \<le> 0xffffff \<Longrightarrow> appends sz (\<lambda>data off. mysql_wire_write_u24_le data sz off v) (u24_bytes v)"
  using mysql_wire_write_le_appends [of 3 sz "ucast v"]
  by (simp add: mysql_wire_write_u24_le_def u24_bytes_def leD)

lemmas fixed_appends [appends_intro] = u16w.put_appends u32w.put_appends u64w.put_appends

lemmas fixed_seg_reads [seg_reads] = u16c.dec_seg [OF TrueI] u24c.dec_seg u32c.dec_seg [OF TrueI] u64c.dec_seg [OF TrueI]


section \<open>Length-encoded integers and byte strings\<close>

definition lenenc_int :: "u64 \<Rightarrow> bytes" where
  "lenenc_int v =
     (if v \<le> 250 then [ucast v]
      else if v < 0x10000 then 0xfc # le_bytes 2 v
      else if v < 0x1000000 then 0xfd # le_bytes 3 v
      else 0xfe # le_bytes 8 v)"

definition lenenc_bytes :: "bytes \<Rightarrow> bytes" where
  "lenenc_bytes bs = lenenc_int (of_nat (length bs)) @ bs"

lemma le_bytes_ucast: "8 * n \<le> LENGTH('a) \<Longrightarrow> LENGTH('a) \<le> 64 \<Longrightarrow> le_bytes n (ucast (ucast v :: 'a::len word)) = le_bytes n v"
  unfolding le_bytes_conv_map
  by (intro map_cong refl bit_word_eqI) (auto simp: bit_simps)

lemma length_lenenc_int:
  "length (lenenc_int v) = (if v \<le> 250 then 1 else if v < 0x10000 then 3 else if v < 0x1000000 then 4 else 9)"
  by (simp add: lenenc_int_def)

lemma length_lenenc_int_bounds: "1 \<le> length (lenenc_int v) \<and> length (lenenc_int v) \<le> 9"
  by (simp add: length_lenenc_int)

lemma lenenc_int_cases:
  obtains
    (one) "v \<le> 250" "lenenc_int v = [ucast v]" "(ucast v :: u8) \<le> 0xfa" "ucast (ucast v :: u8) = v"
  | (two) "\<not> v \<le> 250" "v < 0x10000" "lenenc_int v = 0xfc # u16_bytes (ucast v)" "ucast (ucast v :: u16) = v"
  | (three) "\<not> v \<le> 250" "\<not> v < 0x10000" "v < 0x1000000" "lenenc_int v = 0xfd # u24_bytes (ucast v)"
      "(ucast v :: u32) \<le> 0xffffff" "ucast (ucast v :: u32) = v"
  | (eight) "\<not> v \<le> 250" "\<not> v < 0x10000" "\<not> v < 0x1000000" "lenenc_int v = 0xfe # u64_bytes v"
proof -
  consider (one) "v \<le> 250" | (two) "\<not> v \<le> 250" "v < 0x10000"
    | (three) "\<not> v \<le> 250" "\<not> v < 0x10000" "v < 0x1000000"
    | (eight) "\<not> v \<le> 250" "\<not> v < 0x10000" "\<not> v < 0x1000000"
    by blast
  then show thesis
  proof cases
    case one
    then have "unat v \<le> 250" by (simp add: word_le_nat_alt)
    then show thesis
      using one by (intro that(1)) (simp_all add: lenenc_int_def word_le_nat_alt unat_ucast_fits ucast_ucast_fits)
  next
    case two
    then have "unat v < 0x10000" by (simp add: word_less_nat_alt)
    then show thesis
      using two by (intro that(2)) (simp_all add: lenenc_int_def u16_bytes_def le_bytes_ucast ucast_ucast_fits)
  next
    case three
    then have "unat v < 0x1000000" by (simp add: word_less_nat_alt)
    then show thesis
      using three
      by (intro that(3)) (simp_all add: lenenc_int_def u24_bytes_def le_bytes_ucast ucast_ucast_fits
          word_le_nat_alt unat_ucast_fits)
  next
    case eight
    then show thesis by (intro that(4)) (simp_all add: lenenc_int_def u64_bytes_def)
  qed
qed

lemma lenenc_int_seg:
  assumes "seg d off (lenenc_int v) off'"
  shows "mysql_wire_read_lenenc_uint (Some d) off = Inr ((v, False), off')"
  using assms
  by (cases v rule: lenenc_int_cases)
     (auto simp: seg_Cons mysql_wire_read_lenenc_uint_def Let_def
       dest: u16c.dec_seg [OF TrueI] u24c.dec_seg [rotated] u64c.dec_seg [OF TrueI])

lemma lenenc_null_seg:
  "seg d off [0xfb] off' \<Longrightarrow> mysql_wire_read_lenenc_uint (Some d) off = Inr ((0, True), off')"
  by (auto simp: mysql_wire_read_lenenc_uint_def seg_Cons)

lemma mysql_wire_read_lenenc_uint_bounds:
  "mysql_wire_read_lenenc_uint (Some d) off = Inr (x, off') \<Longrightarrow> off < off' \<and> off' \<le> length d"
  by (auto simp: mysql_wire_read_lenenc_uint_def and_then_eq_Inr Let_def split: if_splits
      dest!: u16c.dec_bounds u24c.dec_bounds u64c.dec_bounds)

interpretation lenc: wire_codec
  "\<lambda>(v, is_null). if is_null then [0xfb] else lenenc_int v" mysql_wire_read_lenenc_uint
  "\<lambda>(v, is_null). is_null \<longrightarrow> v = 0"
proof (unfold_locales, goal_cases)
  case (1 x d off off')
  then show ?case by (cases x) (auto simp: lenenc_int_seg lenenc_null_seg split: if_splits)
next
  case (2 d off x off')
  then show ?case by (rule mysql_wire_read_lenenc_uint_bounds)
qed

text \<open>Byte strings.  \<open>wire_value\<close> reads a struct back as the bytes, or null.\<close>

definition wire_value :: "mysql_wire_bytes \<Rightarrow> bytes option" where
  "wire_value b = (if wb_is_null b then None else Some (case wb_data b of None \<Rightarrow> [] | Some bs \<Rightarrow> take (wb_length b) bs))"

definition wire_bytes_enc :: "mysql_wire_bytes \<Rightarrow> bytes" where
  "wire_bytes_enc b = (case wire_value b of None \<Rightarrow> [0xfb] | Some bs \<Rightarrow> lenenc_bytes bs)"

definition wire_bytes_ok :: "mysql_wire_bytes \<Rightarrow> bool" where
  "wire_bytes_ok b \<longleftrightarrow> b = wire_bytes_null \<or> (\<exists>bs. b = wire_bytes bs \<and> length bs \<le> SIZE_MAX)"

lemma wire_value_simps [simp]:
  "wire_value (wire_bytes bs) = Some bs" "wire_value wire_bytes_null = None" "wire_value wire_bytes_zero = Some []"
  by (simp_all add: wire_value_def wire_bytes_def wire_bytes_null_def wire_bytes_zero_def)

lemma wire_bytes_ok_simps [simp]:
  "wire_bytes_ok wire_bytes_null" "wire_bytes_ok (wire_bytes bs) \<longleftrightarrow> length bs \<le> SIZE_MAX"
  by (auto simp: wire_bytes_ok_def wire_bytes_def wire_bytes_null_def)

lemma unat_of_nat_SIZE_MAX: "n \<le> SIZE_MAX \<Longrightarrow> unat (of_nat n :: u64) = n"
  by (simp add: SIZE_MAX_def unsigned_of_nat take_bit_nat_eq_self)

lemma lenenc_bytes_seg:
  assumes "length bs \<le> SIZE_MAX" and s: "seg d off (lenenc_bytes bs) off'"
  shows "mysql_wire_read_lenenc_bytes (Some d) off = Inr (wire_bytes bs, off')"
proof -
  obtain mid where m: "seg d off (lenenc_int (of_nat (length bs))) mid" and b: "seg d mid bs off'"
    using s by (auto simp: lenenc_bytes_def seg_append)
  show ?thesis
    using seg_end [OF b] seg_le [OF b] seg_take_drop [OF b]
    by (simp add: mysql_wire_read_lenenc_bytes_def lenenc_int_seg [OF m] unat_of_nat_SIZE_MAX [OF assms(1)]
        wire_bytes_def)
qed

interpretation lbc: wire_codec wire_bytes_enc mysql_wire_read_lenenc_bytes wire_bytes_ok
proof (unfold_locales, goal_cases)
  case (1 x d off off')
  then show ?case
    by (auto simp: wire_bytes_ok_def wire_bytes_enc_def lenenc_bytes_seg)
       (simp add: mysql_wire_read_lenenc_bytes_def lenenc_null_seg)
next
  case (2 d off x off')
  then show ?case
    by (force simp: mysql_wire_read_lenenc_bytes_def and_then_eq_Inr split: if_splits
        dest!: mysql_wire_read_lenenc_uint_bounds)
qed

lemmas lenenc_seg_reads [seg_reads] = lenenc_int_seg lenenc_null_seg lenenc_bytes_seg

text \<open>What a byte-string reader returns is a piece of the payload.\<close>

lemma mysql_wire_read_lenenc_bytes_view:
  assumes "mysql_wire_read_lenenc_bytes (Some d) off = Inr (b, off')"
  shows "off < off' \<and> off' \<le> length d \<and>
         (b = wire_bytes_null \<or> (\<exists>k \<le> off'. off < k \<and> b = wire_bytes (take (off' - k) (drop k d))))"
  using assms
  by (force simp: mysql_wire_read_lenenc_bytes_def and_then_eq_Inr wire_bytes_def split: if_splits
      dest!: mysql_wire_read_lenenc_uint_bounds)

subsection \<open>Writing\<close>

lemma lenenc_marker_appends:
  assumes "appends sz (\<lambda>data off. w data off) xs"
    and "\<And>d off. off \<ge> sz \<Longrightarrow> f (Some d) off = (MYSQL_WIRE_STATUS_LIMIT, Some d, off)"
    and "\<And>d off. off < sz \<Longrightarrow> f (Some d) off =
           (case w (Some (d[off := m])) (off + 1) of (status, data', cursor) \<Rightarrow>
              if status \<noteq> MYSQL_WIRE_STATUS_OK then (MYSQL_WIRE_STATUS_LIMIT, data', off)
              else (MYSQL_WIRE_STATUS_OK, data', cursor))"
  shows "appends sz f (m # xs)"
  unfolding appends_def
proof (intro allI impI)
  fix out :: bytes and off
  assume cap: "sz \<le> length out" and off: "off \<le> sz"
  let ?out = "out[off := m]"
  show "if off + length (m # xs) \<le> sz
        then f (Some out) off = (MYSQL_WIRE_STATUS_OK, Some (memcpy out off (m # xs)), off + length (m # xs))
        else \<exists>out' off'. f (Some out) off = (MYSQL_WIRE_STATUS_LIMIT, Some out', off') \<and>
               length out' = length out \<and> take off out' = take off out"
  proof (cases "off < sz")
    case False
    then show ?thesis using off assms(2) by auto
  next
    case lt: True
    then have upd: "?out = memcpy out off [m]" using cap by (intro list_update_is_memcpy) simp
    show ?thesis
    proof (cases "off + length (m # xs) \<le> sz")
      case True
      have "w (Some ?out) (off + 1) = (MYSQL_WIRE_STATUS_OK, Some (memcpy ?out (off + 1) xs), off + 1 + length xs)"
        using True cap by (intro appends_fits [OF assms(1)]) auto
      moreover have "memcpy ?out (off + 1) xs = memcpy out off (m # xs)"
        using memcpy_memcpy [of off "[m]" out xs] lt cap upd by simp
      ultimately show ?thesis using True lt by (simp add: assms(3))
    next
      case False
      then have "\<not> off + 1 + length xs \<le> sz" by simp
      then obtain out' off' where r: "w (Some ?out) (off + 1) = (MYSQL_WIRE_STATUS_LIMIT, Some out', off')"
        "length out' = length ?out" "take (off + 1) out' = take (off + 1) ?out"
        using assms(1) cap lt unfolding appends_def by (metis Suc_eq_plus1 Suc_leI length_list_update)
      have "take off out' = take off (take (off + 1) out')" by simp
      also have "\<dots> = take off out" using r(3) by simp
      finally show ?thesis using False lt r by (simp add: assms(3))
    qed
  qed
qed

lemma mysql_wire_write_lenenc_uint_appends:
  "appends sz (\<lambda>data off. mysql_wire_write_lenenc_uint data sz off v) (lenenc_int v)"
proof (cases v rule: lenenc_int_cases)
  case one
  then show ?thesis
    by (auto simp: appends_def mysql_wire_write_lenenc_uint_def list_update_is_memcpy)
next
  case two
  then show ?thesis
    by (auto simp: mysql_wire_write_lenenc_uint_def intro!: lenenc_marker_appends [OF u16w.put_appends])
next
  case three
  then show ?thesis
    by (auto simp: mysql_wire_write_lenenc_uint_def intro!: lenenc_marker_appends [OF mysql_wire_write_u24_appends])
next
  case eight
  then show ?thesis
    by (auto simp: mysql_wire_write_lenenc_uint_def intro!: lenenc_marker_appends [OF u64w.put_appends])
qed

interpretation lenw: wire_sink mysql_wire_write_lenenc_uint lenenc_int
  by unfold_locales (rule mysql_wire_write_lenenc_uint_appends)

interpretation nullw: wire_sink "\<lambda>data sz off (_ :: unit). mysql_wire_write_lenenc_null data sz off" "\<lambda>_. [0xfb]"
  by unfold_locales (auto simp: appends_def mysql_wire_write_lenenc_null_def list_update_is_memcpy)

lemmas lenenc_appends [appends_intro] = lenw.put_appends nullw.put_appends


section \<open>Properties\<close>

text \<open>
  C17. A length-encoded integer that fits is written with its shortest encoding (1, 3, 4 or 9
  bytes), nothing before the cursor is touched, and the reader gives the value back and stops
  where the writer stopped.
\<close>

theorem lenenc_uint_roundtrip:
  assumes "sz \<le> length out" and "off + length (lenenc_int v) \<le> sz"
  shows "\<exists>out'. mysql_wire_write_lenenc_uint (Some out) sz off v =
             (MYSQL_WIRE_STATUS_OK, Some out', off + length (lenenc_int v)) \<and>
           take off out' = take off out \<and> length out' = length out \<and>
           mysql_wire_read_lenenc_uint (Some out') off = Inr ((v, False), off + length (lenenc_int v))"
proof -
  obtain out' where w: "mysql_wire_write_lenenc_uint (Some out) sz off v =
      (MYSQL_WIRE_STATUS_OK, Some out', off + length (lenenc_int v))" "length out' = length out"
    "take (off + length (lenenc_int v)) out' = take off out @ lenenc_int v"
    using lenw.put_ok [OF assms] by blast
  have "seg out' off (lenenc_int v) (off + length (lenenc_int v))"
    using arg_cong [OF w(3), of "drop off"] assms w(2) by (simp add: seg_iff drop_take)
  moreover have "take off out' = take off out"
    using arg_cong [OF w(3), of "take off"] assms by (simp add: min_def)
  ultimately show ?thesis using w lenenc_int_seg by blast
qed

theorem lenenc_uint_roundtrip_witness:
  "\<exists>out'. mysql_wire_write_lenenc_uint (Some [9, 0, 0, 0, 0]) 5 1 300 = (MYSQL_WIRE_STATUS_OK, Some out', 4) \<and>
     take 1 out' = [9] \<and> mysql_wire_read_lenenc_uint (Some out') 1 = Inr ((300, False), 4)"
  using lenenc_uint_roundtrip [of 5 "[9, 0, 0, 0, 0]" 1 300] by (auto simp: length_lenenc_int)

text \<open>
  A length-encoded byte string that is read is a piece of the payload: it starts after the
  cursor, ends where the reader stops, and that is never past the end of the payload.
\<close>

theorem lenenc_bytes_in_payload:
  assumes "mysql_wire_read_lenenc_bytes (Some d) off = Inr (b, off')"
  shows "off < off' \<and> off' \<le> length d \<and>
         (b = wire_bytes_null \<or> (\<exists>k \<le> off'. off < k \<and> b = wire_bytes (take (off' - k) (drop k d))))"
  using assms by (rule mysql_wire_read_lenenc_bytes_view)

theorem lenenc_bytes_in_payload_witness:
  "\<exists>b. mysql_wire_read_lenenc_bytes (Some [7, 2, 65, 66, 1]) 1 = Inr (b, 4) \<and> (1 :: nat) < 4 \<and> wire_value b = Some [65, 66]"
proof -
  have r: "mysql_wire_read_lenenc_bytes (Some [7, 2, 65, 66, 1]) 1 = Inr (wire_bytes [65, 66], 4)" by code_simp
  from lenenc_bytes_in_payload [OF r] r show ?thesis by simp
qed

end
