(* ===== verification/Wire_Packet.thy ===== *)
theory Wire_Packet
  imports Wire_Codec
begin

unbundle bit_operations_syntax

text \<open>
  The packet layer of the MySQL protocol, \<open>src/mysql/wire/packet.c\<close>: the 4-byte packet header
  (3 bytes of payload length, 1 byte of sequence number) and the incremental packet stream,
  which is fed with whatever bytes have arrived and reports the next piece of payload.

  The stream struct is the record \<open>mysql_wire_packet_stream\<close>; \<open>mysql_wire_packet_stream_feed\<close>
  returns the status, the updated stream, the number of bytes consumed and the event.  The
  event's data pointer, which points into the input, is the slice of the input it delimits.

  The lemmas give the behaviour of one feed in each of the states the stream can be in, and the
  invariant \<open>stream_ok\<close> that every feed preserves.
\<close>

section \<open>Data\<close>

abbreviation (input) "MYSQL_WIRE_PACKET_HEADER_SIZE \<equiv> 4 :: nat"

definition MYSQL_WIRE_PACKET_MAX_PAYLOAD :: u32 where
  "MYSQL_WIRE_PACKET_MAX_PAYLOAD = 0x00ffffff"

abbreviation "max_packet \<equiv> unat MYSQL_WIRE_PACKET_MAX_PAYLOAD"

lemma max_packet_value: "max_packet = 0xffffff"
  by (simp add: MYSQL_WIRE_PACKET_MAX_PAYLOAD_def)

lemma max_packet_pos [simp]: "0 < max_packet"
  by (simp add: max_packet_value)

record mysql_wire_packet_event =
  ev_data :: ptr
  ev_length :: nat
  ev_offset :: u32
  ev_packet_payload_length :: u32
  ev_sequence_id :: u8
  ev_packet_end :: bool
  ev_message_end :: bool

record mysql_wire_packet_stream =
  st_header :: bytes
  st_header_used :: nat
  st_packet_payload_length :: u32
  st_payload_seen :: u32
  st_max_payload :: u32
  st_sequence_id :: u8
  st_expected_sequence :: u8
  st_in_payload :: bool

definition event_zero :: mysql_wire_packet_event where
  "event_zero = \<lparr>ev_data = None, ev_length = 0, ev_offset = 0, ev_packet_payload_length = 0,
                 ev_sequence_id = 0, ev_packet_end = False, ev_message_end = False\<rparr>"


section \<open>Operations\<close>

definition mysql_wire_packet_header_decode ::
    "ptr \<Rightarrow> nat \<Rightarrow> u8 \<Rightarrow> u32 \<Rightarrow> mysql_wire_status + (u32 \<times> u8)" where
  "mysql_wire_packet_header_decode header sz expected_sequence max_payload =
     (case header of None \<Rightarrow> Inl MYSQL_WIRE_STATUS_INVALID
      | Some h \<Rightarrow>
        if max_payload > MYSQL_WIRE_PACKET_MAX_PAYLOAD then Inl MYSQL_WIRE_STATUS_INVALID
        else if sz < MYSQL_WIRE_PACKET_HEADER_SIZE then Inl MYSQL_WIRE_STATUS_NEED_MORE
        else
          let len = (ucast (h ! 0) OR push_bit 8 (ucast (h ! 1))) OR push_bit 16 (ucast (h ! 2)) in
          if len > max_payload then Inl MYSQL_WIRE_STATUS_LIMIT
          else if h ! 3 \<noteq> expected_sequence then Inl MYSQL_WIRE_STATUS_SEQUENCE
          else Inr (len, h ! 3))"

definition packet_stream_fresh :: "u8 \<Rightarrow> u32 \<Rightarrow> mysql_wire_packet_stream" where
  "packet_stream_fresh expected_sequence max_payload =
     \<lparr>st_header = replicate 4 0, st_header_used = 0, st_packet_payload_length = 0, st_payload_seen = 0,
      st_max_payload = max_payload, st_sequence_id = 0, st_expected_sequence = expected_sequence,
      st_in_payload = False\<rparr>"

definition mysql_wire_packet_stream_init :: "u8 \<Rightarrow> u32 \<Rightarrow> mysql_wire_status + mysql_wire_packet_stream" where
  "mysql_wire_packet_stream_init expected_sequence max_payload =
     (if max_payload > MYSQL_WIRE_PACKET_MAX_PAYLOAD then Inl MYSQL_WIRE_STATUS_INVALID
      else Inr (packet_stream_fresh expected_sequence max_payload))"

definition mysql_wire_packet_stream_reset :: "mysql_wire_packet_stream \<Rightarrow> u8 \<Rightarrow> mysql_wire_packet_stream" where
  "mysql_wire_packet_stream_reset stream expected_sequence =
     packet_stream_fresh expected_sequence (st_max_payload stream)"

text \<open>The loop that collects the header bytes.\<close>

function collect_header ::
    "mysql_wire_packet_stream \<Rightarrow> bytes \<Rightarrow> nat \<Rightarrow> nat \<Rightarrow> mysql_wire_packet_stream \<times> nat" where
  "collect_header stream input input_size cursor =
     (if st_header_used stream < MYSQL_WIRE_PACKET_HEADER_SIZE \<and> cursor < input_size then
        collect_header
          (stream\<lparr>st_header := (st_header stream)[st_header_used stream := input ! cursor],
                  st_header_used := st_header_used stream + 1\<rparr>) input input_size (cursor + 1)
      else (stream, cursor))"
  by pat_completeness auto
termination by (relation "measure (\<lambda>(_, _, input_size, cursor). input_size - cursor)") auto

declare collect_header.simps [simp del]

text \<open>The second half of \<open>mysql_wire_packet_stream_feed\<close>, from the test for exhausted input on.\<close>

definition feed_payload ::
    "mysql_wire_packet_stream \<Rightarrow> bytes \<Rightarrow> nat \<Rightarrow> nat \<Rightarrow>
     mysql_wire_status \<times> mysql_wire_packet_stream \<times> nat \<times> mysql_wire_packet_event" where
  "feed_payload stream input input_size cursor =
     (if cursor = input_size then (MYSQL_WIRE_STATUS_NEED_MORE, stream, cursor, event_zero)
      else
        let remaining = st_packet_payload_length stream - st_payload_seen stream;
            available = input_size - cursor;
            chunk = (if available > unat remaining then unat remaining else available);
            event = event_zero\<lparr>ev_data := Some (take chunk (drop cursor input)), ev_length := chunk,
                      ev_offset := st_payload_seen stream,
                      ev_packet_payload_length := st_packet_payload_length stream,
                      ev_sequence_id := st_sequence_id stream\<rparr>;
            stream = stream\<lparr>st_payload_seen := st_payload_seen stream + of_nat chunk\<rparr>;
            cursor = cursor + chunk
        in if st_payload_seen stream = st_packet_payload_length stream then
             (MYSQL_WIRE_STATUS_OK,
              stream\<lparr>st_expected_sequence := st_expected_sequence stream + 1, st_header_used := 0,
                     st_packet_payload_length := 0, st_payload_seen := 0, st_in_payload := False\<rparr>,
              cursor,
              event\<lparr>ev_packet_end := True,
                    ev_message_end := st_packet_payload_length stream < MYSQL_WIRE_PACKET_MAX_PAYLOAD\<rparr>)
           else (MYSQL_WIRE_STATUS_OK, stream, cursor, event))"

definition mysql_wire_packet_stream_feed ::
    "mysql_wire_packet_stream \<Rightarrow> ptr \<Rightarrow> nat \<Rightarrow>
     mysql_wire_status \<times> mysql_wire_packet_stream \<times> nat \<times> mysql_wire_packet_event" where
  "mysql_wire_packet_stream_feed stream input input_size =
     (if input = None \<and> input_size \<noteq> 0 then (MYSQL_WIRE_STATUS_INVALID, stream, 0, event_zero)
      else
        let data = (case input of None \<Rightarrow> [] | Some d \<Rightarrow> d) in
        if \<not> st_in_payload stream then
          let (stream, cursor) = collect_header stream data input_size 0 in
          if st_header_used stream < MYSQL_WIRE_PACKET_HEADER_SIZE then
            (MYSQL_WIRE_STATUS_NEED_MORE, stream, cursor, event_zero)
          else
            case mysql_wire_packet_header_decode (Some (st_header stream)) 4
                   (st_expected_sequence stream) (st_max_payload stream) of
              Inl status \<Rightarrow> (status, stream, cursor, event_zero)
            | Inr (payload_length, sequence_id) \<Rightarrow>
                let stream = stream\<lparr>st_packet_payload_length := payload_length, st_sequence_id := sequence_id,
                               st_payload_seen := 0, st_in_payload := True\<rparr> in
                if payload_length = 0 then
                  (MYSQL_WIRE_STATUS_OK,
                   stream\<lparr>st_expected_sequence := st_expected_sequence stream + 1, st_header_used := 0,
                          st_in_payload := False\<rparr>,
                   cursor,
                   event_zero\<lparr>ev_packet_payload_length := 0, ev_sequence_id := sequence_id,
                              ev_packet_end := True, ev_message_end := True\<rparr>)
                else feed_payload stream data input_size cursor
        else feed_payload stream data input_size 0)"


section \<open>The header\<close>

definition packet_header :: "u32 \<Rightarrow> u8 \<Rightarrow> bytes" where
  "packet_header len seq = u24_bytes len @ [seq]"

lemma length_packet_header [simp, byte_lengths]: "length (packet_header len seq) = 4"
  by (simp add: packet_header_def)

lemma u24_bytes_nth: "i < 3 \<Longrightarrow> u24_bytes len ! i = ucast (drop_bit (8 * i) (ucast len :: u64))"
  by (simp add: u24_bytes_def le_bytes_conv_map)

lemma bit_u24: "len \<le> 0xffffff \<Longrightarrow> bit (len :: u32) k \<Longrightarrow> k < 24"
proof -
  assume "len \<le> 0xffffff" and b: "bit len k"
  then have "take_bit 24 len = len"
    by (simp add: word_unat_eq_iff unsigned_take_bit_eq take_bit_nat_eq_self word_le_nat_alt)
  then have "bit (take_bit 24 len) k" using b by simp
  then show "k < 24" by (simp add: bit_take_bit_iff)
qed

lemma packet_header_length_bytes:
  assumes "len \<le> 0xffffff"
  shows "(ucast (u24_bytes len ! 0) OR push_bit 8 (ucast (u24_bytes len ! 1))) OR
         push_bit 16 (ucast (u24_bytes len ! 2)) = (len :: u32)"
proof (rule bit_word_eqI)
  fix k
  have "k < 8 \<or> 8 \<le> k \<and> k - 8 < 8 \<or> 16 \<le> k \<and> k - 16 < 8" if "bit len k"
    using bit_u24 [OF assms that] by arith
  then show "bit ((ucast (u24_bytes len ! 0) OR push_bit 8 (ucast (u24_bytes len ! 1))) OR
          push_bit 16 (ucast (u24_bytes len ! 2)) :: u32) k \<longleftrightarrow> bit len k"
    by (auto simp: u24_bytes_nth bit_simps dest: bit_imp_le_length)
qed

lemma packet_header_decode_ok:
  assumes "len \<le> max_payload" and "max_payload \<le> MYSQL_WIRE_PACKET_MAX_PAYLOAD"
  shows "mysql_wire_packet_header_decode (Some (packet_header len seq)) 4 seq max_payload = Inr (len, seq)"
proof -
  have "len \<le> 0xffffff" using assms by (simp add: MYSQL_WIRE_PACKET_MAX_PAYLOAD_def)
  then show ?thesis
    using assms packet_header_length_bytes [of len]
    by (simp add: mysql_wire_packet_header_decode_def packet_header_def nth_append leD)
qed


section \<open>The stream invariant\<close>

definition stream_ok :: "mysql_wire_packet_stream \<Rightarrow> bool" where
  "stream_ok s \<longleftrightarrow>
     length (st_header s) = 4 \<and> st_header_used s \<le> 4 \<and>
     st_max_payload s \<le> MYSQL_WIRE_PACKET_MAX_PAYLOAD \<and>
     (st_in_payload s \<longrightarrow> st_payload_seen s < st_packet_payload_length s \<and>
        st_packet_payload_length s \<le> st_max_payload s)"

lemma stream_ok_fresh: "max_payload \<le> MYSQL_WIRE_PACKET_MAX_PAYLOAD \<Longrightarrow> stream_ok (packet_stream_fresh seq max_payload)"
  by (simp add: stream_ok_def packet_stream_fresh_def)

lemma collect_header_spec:
  assumes "length (st_header s) = 4" and "st_header_used s \<le> 4" and "input_size \<le> length input" and "cursor \<le> input_size"
  shows "collect_header s input input_size cursor =
          (let n = min (4 - st_header_used s) (input_size - cursor) in
           (s\<lparr>st_header := memcpy (st_header s) (st_header_used s) (take n (drop cursor input)),
              st_header_used := st_header_used s + n\<rparr>, cursor + n))"
  using assms
proof (induction s input input_size cursor rule: collect_header.induct)
  case (1 s input input_size cursor)
  show ?case
  proof (cases "st_header_used s < 4 \<and> cursor < input_size")
    case False
    then have "min (4 - st_header_used s) (input_size - cursor) = 0" by auto
    moreover have "collect_header s input input_size cursor = (s, cursor)"
      using False by (subst collect_header.simps) (rule if_not_P)
    ultimately show ?thesis by simp
  next
    case True
    let ?u = "st_header_used s"
    let ?s = "s\<lparr>st_header := (st_header s)[?u := input ! cursor], st_header_used := ?u + 1\<rparr>"
    let ?n = "min (3 - ?u) (input_size - (cursor + 1))"
    have n: "min (4 - ?u) (input_size - cursor) = Suc ?n" using True by auto
    have tk: "take (Suc ?n) (drop cursor input) = input ! cursor # take ?n (drop (cursor + 1) input)"
      using True 1(4) by (simp add: Cons_nth_drop_Suc [symmetric])
    have mm: "memcpy ((st_header s)[?u := input ! cursor]) (?u + 1) xs = memcpy (st_header s) ?u (input ! cursor # xs)" for xs
      using memcpy_memcpy [of ?u "[input ! cursor]" "st_header s" xs] True 1(2)
      by (simp add: list_update_is_memcpy)
    have "collect_header s input input_size cursor = collect_header ?s input input_size (cursor + 1)"
      using True by (subst collect_header.simps) simp
    also have "\<dots> = (let n = ?n in
           (?s\<lparr>st_header := memcpy (st_header ?s) (st_header_used ?s) (take n (drop (cursor + 1) input)),
              st_header_used := st_header_used ?s + n\<rparr>, cursor + 1 + n))"
      using 1(1) [OF True] 1(2-5) True by simp
    also have "\<dots> = (s\<lparr>st_header := memcpy (st_header s) ?u (take (Suc ?n) (drop cursor input)),
              st_header_used := ?u + Suc ?n\<rparr>, cursor + Suc ?n)"
      unfolding tk Let_def using mm [of "take ?n (drop (cursor + 1) input)"] by simp
    finally show ?thesis unfolding n Let_def .
  qed
qed

text \<open>One feed, by the state of the stream and the amount of input.\<close>

lemma feed_short_header:
  assumes "stream_ok s" and "\<not> st_in_payload s" and "st_header_used s + length data < 4"
  shows "mysql_wire_packet_stream_feed s (Some data) (length data) =
     (MYSQL_WIRE_STATUS_NEED_MORE,
      s\<lparr>st_header := memcpy (st_header s) (st_header_used s) data, st_header_used := st_header_used s + length data\<rparr>,
      length data, event_zero)"
proof -
  have "min (4 - st_header_used s) (length data) = length data" using assms(3) by simp
  then show ?thesis
    using assms by (simp add: mysql_wire_packet_stream_feed_def stream_ok_def collect_header_spec Let_def)
qed

lemma feed_full_header:
  assumes "stream_ok s" and "\<not> st_in_payload s" and "4 \<le> st_header_used s + length data"
  defines "k \<equiv> 4 - st_header_used s"
  shows "mysql_wire_packet_stream_feed s (Some data) (length data) =
    (let h = memcpy (st_header s) (st_header_used s) (take k data);
         s1 = s\<lparr>st_header := h, st_header_used := 4\<rparr> in
     case mysql_wire_packet_header_decode (Some h) 4 (st_expected_sequence s) (st_max_payload s) of
       Inl status \<Rightarrow> (status, s1, k, event_zero)
     | Inr (len, seq) \<Rightarrow>
         let s2 = s1\<lparr>st_packet_payload_length := len, st_sequence_id := seq, st_payload_seen := 0, st_in_payload := True\<rparr> in
         if len = 0 then
           (MYSQL_WIRE_STATUS_OK,
            s2\<lparr>st_expected_sequence := st_expected_sequence s + 1, st_header_used := 0, st_in_payload := False\<rparr>, k,
            event_zero\<lparr>ev_sequence_id := seq, ev_packet_end := True, ev_message_end := True\<rparr>)
         else feed_payload s2 data (length data) k)"
proof -
  have n: "min (4 - st_header_used s) (length data) = k" using assms(1,3) by (auto simp: stream_ok_def k_def)
  have "st_header_used s + k = 4" using assms(1) by (simp add: stream_ok_def k_def)
  then have "collect_header s data (length data) 0 =
      (s\<lparr>st_header := memcpy (st_header s) (st_header_used s) (take k data), st_header_used := 4\<rparr>, k)"
    using assms(1) n by (simp add: stream_ok_def collect_header_spec)
  then show ?thesis
    using assms(2)
    by (simp add: mysql_wire_packet_stream_feed_def Let_def event_zero_def split: sum.splits prod.splits)
qed

lemma feed_payload_part:
  assumes "cursor < length data" and "unat (st_packet_payload_length s - st_payload_seen s) = r"
    and "length data - cursor < r"
  shows "feed_payload s data (length data) cursor =
     (MYSQL_WIRE_STATUS_OK, s\<lparr>st_payload_seen := st_payload_seen s + of_nat (length data - cursor)\<rparr>, length data,
      event_zero\<lparr>ev_data := Some (drop cursor data), ev_length := length data - cursor,
        ev_offset := st_payload_seen s, ev_packet_payload_length := st_packet_payload_length s,
        ev_sequence_id := st_sequence_id s\<rparr>)"
proof -
  have "st_payload_seen s + of_nat (length data - cursor) \<noteq> st_packet_payload_length s"
  proof
    assume "st_payload_seen s + of_nat (length data - cursor) = st_packet_payload_length s"
    then have e: "st_packet_payload_length s - st_payload_seen s = of_nat (length data - cursor)"
      by (simp add: algebra_simps)
    have "unat (st_packet_payload_length s - st_payload_seen s) < 2 ^ LENGTH(32)" by (rule unsigned_less)
    then have "length data - cursor < 2 ^ 32" using assms(2,3) by simp
    then have "unat (of_nat (length data - cursor) :: u32) = length data - cursor"
      by (simp add: unsigned_of_nat take_bit_nat_eq_self)
    with e assms(2,3) show False by simp
  qed
  then show ?thesis using assms by (simp add: feed_payload_def Let_def)
qed

lemma feed_payload_end:
  assumes "cursor < length data" and r: "unat (st_packet_payload_length s - st_payload_seen s) = r"
    and "r \<le> length data - cursor"
  shows "feed_payload s data (length data) cursor =
     (MYSQL_WIRE_STATUS_OK,
      s\<lparr>st_payload_seen := 0, st_expected_sequence := st_expected_sequence s + 1, st_header_used := 0,
        st_packet_payload_length := 0, st_in_payload := False\<rparr>, cursor + r,
      event_zero\<lparr>ev_data := Some (take r (drop cursor data)), ev_length := r,
        ev_offset := st_payload_seen s, ev_packet_payload_length := st_packet_payload_length s,
        ev_sequence_id := st_sequence_id s, ev_packet_end := True,
        ev_message_end := st_packet_payload_length s < MYSQL_WIRE_PACKET_MAX_PAYLOAD\<rparr>)"
proof -
  have c: "(if r < length data - cursor then r else length data - cursor) = r" using assms by auto
  have "of_nat r = st_packet_payload_length s - st_payload_seen s" using r by auto
  then have "st_payload_seen s + of_nat r = st_packet_payload_length s" by simp
  then show ?thesis using assms(1) unfolding feed_payload_def r c Let_def by simp
qed


section \<open>Reassembly of one packet\<close>

text \<open>
  \<open>stream_needs s p rest\<close>: \<open>rest\<close> is exactly the input that completes the current packet, and it
  will deliver the payload bytes \<open>p\<close>.  \<open>stream_total\<close> is the payload length of that packet.
\<close>

definition stream_needs :: "mysql_wire_packet_stream \<Rightarrow> bytes \<Rightarrow> bytes \<Rightarrow> bool" where
  "stream_needs s p rest \<longleftrightarrow>
     (if st_in_payload s
      then rest = p \<and> length p = unat (st_packet_payload_length s - st_payload_seen s)
      else st_header_used s < 4 \<and> length p \<le> unat (st_max_payload s) \<and>
           take (st_header_used s) (st_header s) @ rest =
             packet_header (of_nat (length p)) (st_expected_sequence s) @ p)"

definition stream_total :: "mysql_wire_packet_stream \<Rightarrow> bytes \<Rightarrow> nat" where
  "stream_total s p = (if st_in_payload s then unat (st_packet_payload_length s) else length p)"

lemma unat_max_payload: "v \<le> MYSQL_WIRE_PACKET_MAX_PAYLOAD \<Longrightarrow> unat v \<le> 0xffffff"
  by (simp add: MYSQL_WIRE_PACKET_MAX_PAYLOAD_def word_le_nat_alt)

lemma unat_of_nat_u32: "n \<le> 0xffffff \<Longrightarrow> unat (of_nat n :: u32) = n"
  by (simp add: unsigned_of_nat take_bit_nat_eq_self)

lemma of_nat_u32_eq_0: "unat (of_nat n :: u32) = n \<Longrightarrow> (of_nat n :: u32) = 0 \<longleftrightarrow> n = 0"
  using unat_eq_zero [of "of_nat n :: u32"] by simp

lemma stream_needs_fresh:
  "length p \<le> unat max_payload \<Longrightarrow>
   stream_needs (packet_stream_fresh seq max_payload) p (packet_header (of_nat (length p)) seq @ p)"
  by (simp add: stream_needs_def packet_stream_fresh_def)

lemma stream_needs_between:
  "\<not> st_in_payload s \<Longrightarrow> st_header_used s = 0 \<Longrightarrow> length p \<le> unat (st_max_payload s) \<Longrightarrow>
   stream_needs s p (packet_header (of_nat (length p)) (st_expected_sequence s) @ p)"
  by (simp add: stream_needs_def)

text \<open>What one feed reports about the current packet: \<open>q\<close> is the payload it delivers of \<open>p\<close>.\<close>

definition event_delivers :: "mysql_wire_packet_event \<Rightarrow> mysql_wire_packet_stream \<Rightarrow> bytes \<Rightarrow> bytes \<Rightarrow> bool" where
  "event_delivers ev s' p q \<longleftrightarrow>
     ev_length ev = length q \<and> (q \<noteq> [] \<longrightarrow> ev_data ev = Some q) \<and>
     (if ev_packet_payload_length ev = 0
      then q = [] \<and> (st_in_payload s' \<longrightarrow> unat (st_packet_payload_length s' - st_payload_seen s') = length p)
      else unat (ev_packet_payload_length ev - ev_offset ev) = length p)"

lemma feed_payload_needs_part:
  assumes ok: "stream_ok s" "st_in_payload s" and p: "stream_needs s p (q @ post)"
    and "post \<noteq> []" and "cursor < length data" and q: "q = drop cursor data"
  shows "\<exists>s' ev. feed_payload s data (length data) cursor = (MYSQL_WIRE_STATUS_OK, s', length data, ev) \<and>
     stream_ok s' \<and> st_in_payload s' \<and> p = q @ post \<and> stream_needs s' post post \<and> event_delivers ev s' p q \<and>
     \<not> ev_message_end ev \<and> stream_total s' post = stream_total s p \<and>
     st_max_payload s' = st_max_payload s \<and> st_expected_sequence s' = st_expected_sequence s"
proof -
  let ?l = "st_packet_payload_length s" and ?seen = "st_payload_seen s"
  let ?s' = "s\<lparr>st_payload_seen := ?seen + of_nat (length q)\<rparr>"
  have pq: "p = q @ post" and len: "length p = unat (?l - ?seen)" using p ok by (simp_all add: stream_needs_def)
  have lt: "length data - cursor < length p" using pq q \<open>post \<noteq> []\<close> by simp
  have seen: "unat ?seen < unat ?l" and lmax: "unat ?l \<le> 0xffffff"
    using ok unat_max_payload [of "st_max_payload s"] by (auto simp: stream_ok_def word_less_nat_alt word_le_nat_alt)
  have sub: "length p = unat ?l - unat ?seen" using len seen by (simp add: unat_sub word_le_nat_alt)
  have add: "unat (?seen + of_nat (length q)) = unat ?seen + length q"
    using sub pq seen lmax by (subst unat_add_lem [THEN iffD1]) (simp_all add: unat_of_nat_u32)
  have "0 < length post" using \<open>post \<noteq> []\<close> by simp
  then have room: "unat ?seen + length q < unat ?l" using sub seen unfolding pq length_append by linarith
  have s': "stream_ok ?s'" "stream_needs ?s' post post"
    using ok add sub pq seen room
    by (auto simp: stream_ok_def stream_needs_def word_less_nat_alt unat_sub word_le_nat_alt)
  have run: "feed_payload s data (length data) cursor = (MYSQL_WIRE_STATUS_OK, ?s', length data,
      event_zero\<lparr>ev_data := Some q, ev_length := length q, ev_offset := ?seen,
        ev_packet_payload_length := ?l, ev_sequence_id := st_sequence_id s\<rparr>)"
    using feed_payload_part [OF assms(5) len [symmetric] lt] q by simp
  have "?l \<noteq> 0" using seen by auto
  then show ?thesis
    using run s' ok len pq
    by (intro exI [of _ ?s']) (auto simp: event_delivers_def event_zero_def stream_total_def)
qed

lemma feed_payload_needs_end:
  assumes ok: "stream_ok s" "st_in_payload s" and p: "stream_needs s p p"
    and "cursor < length data" and q: "drop cursor data = p @ post"
  shows "\<exists>s' ev. feed_payload s data (length data) cursor = (MYSQL_WIRE_STATUS_OK, s', cursor + length p, ev) \<and>
     stream_ok s' \<and> \<not> st_in_payload s' \<and> st_header_used s' = 0 \<and> event_delivers ev s' p p \<and>
     (ev_message_end ev \<longleftrightarrow> stream_total s p < max_packet) \<and>
     st_max_payload s' = st_max_payload s \<and> st_expected_sequence s' = st_expected_sequence s + 1"
proof -
  let ?l = "st_packet_payload_length s" and ?seen = "st_payload_seen s"
  have len: "length p = unat (?l - ?seen)" using p ok by (simp add: stream_needs_def)
  have "length p \<le> length (drop cursor data)" unfolding q by simp
  then have le: "length p \<le> length data - cursor" by simp
  have tk: "take (length p) (drop cursor data) = p" using q by simp
  have "?l \<noteq> 0" using ok by (auto simp: stream_ok_def)
  then show ?thesis
    using feed_payload_end [OF assms(4) len [symmetric] le] tk ok len
    by (auto simp: event_delivers_def event_zero_def stream_total_def stream_ok_def word_less_nat_alt)
qed

text \<open>Completing the header opens the packet: an empty one ends at once, another goes on with its payload.\<close>

lemma feed_opens:
  assumes ok: "stream_ok s" and ni: "\<not> st_in_payload s" and needs: "stream_needs s p rest"
    and pre: "take k data = take k rest" and k: "k = 4 - st_header_used s" and "k \<le> length data"
  shows "\<exists>s2. stream_ok s2 \<and> st_header_used s2 = 4 \<and> st_max_payload s2 = st_max_payload s \<and>
     st_expected_sequence s2 = st_expected_sequence s \<and> k > 0 \<and> drop k rest = p \<and>
     mysql_wire_packet_stream_feed s (Some data) (length data) =
       (if p = [] then
          (MYSQL_WIRE_STATUS_OK, s2\<lparr>st_expected_sequence := st_expected_sequence s + 1, st_header_used := 0\<rparr>, k,
           event_zero\<lparr>ev_sequence_id := st_expected_sequence s, ev_packet_end := True, ev_message_end := True\<rparr>)
        else feed_payload s2 data (length data) k) \<and>
     (if p = [] then \<not> st_in_payload s2
      else st_in_payload s2 \<and> stream_needs s2 p p \<and> stream_total s2 p = length p)"
proof -
  let ?len = "of_nat (length p) :: u32" and ?seq = "st_expected_sequence s" and ?u = "st_header_used s"
  have u: "?u < 4" and pmax: "length p \<le> unat (st_max_payload s)"
    and eq: "take ?u (st_header s) @ rest = packet_header ?len ?seq @ p"
    using needs ni by (simp_all add: stream_needs_def)
  have hl: "length (st_header s) = 4" and mx: "st_max_payload s \<le> MYSQL_WIRE_PACKET_MAX_PAYLOAD"
    using ok by (simp_all add: stream_ok_def)
  have plen: "unat ?len = length p" using pmax unat_max_payload [OF mx] by (intro unat_of_nat_u32) simp
  have hdr: "take ?u (st_header s) @ take k rest = packet_header ?len ?seq" and rest: "drop k rest = p"
    using arg_cong [OF eq, of "take 4"] arg_cong [OF eq, of "drop 4"] u hl k by simp_all
  have m: "memcpy (st_header s) ?u (take k data) = packet_header ?len ?seq"
    using hdr hl u k \<open>k \<le> length data\<close> unfolding memcpy_def pre [symmetric] by simp
  have dec: "mysql_wire_packet_header_decode (Some (packet_header ?len ?seq)) 4 ?seq (st_max_payload s) = Inr (?len, ?seq)"
    using mx pmax plen by (intro packet_header_decode_ok) (simp_all add: word_le_nat_alt)
  have nz: "?len = 0 \<longleftrightarrow> p = []" using of_nat_u32_eq_0 [OF plen] by simp
  define s2 where "s2 = s\<lparr>st_header := packet_header ?len ?seq, st_header_used := 4,
     st_packet_payload_length := ?len, st_sequence_id := ?seq, st_payload_seen := 0, st_in_payload := (p \<noteq> [])\<rparr>"
  have run: "mysql_wire_packet_stream_feed s (Some data) (length data) =
       (if p = [] then
          (MYSQL_WIRE_STATUS_OK, s2\<lparr>st_expected_sequence := ?seq + 1, st_header_used := 0\<rparr>, k,
           event_zero\<lparr>ev_sequence_id := ?seq, ev_packet_end := True, ev_message_end := True\<rparr>)
        else feed_payload s2 data (length data) k)"
    using feed_full_header [OF ok ni, of data] \<open>k \<le> length data\<close> k u m dec nz
    by (simp add: Let_def s2_def)
  have "stream_ok s2" using ok plen pmax nz by (auto simp: s2_def stream_ok_def word_less_nat_alt word_le_nat_alt)
  moreover have "p \<noteq> [] \<Longrightarrow> stream_needs s2 p p \<and> stream_total s2 p = length p"
    using plen by (simp add: s2_def stream_needs_def stream_total_def)
  ultimately show ?thesis
    using run rest k u by (intro exI [of _ s2]) (auto simp: s2_def)
qed

lemma feed_needs_part:
  assumes ok: "stream_ok s" and needs: "stream_needs s p (data @ post)" and "data \<noteq> []" and "post \<noteq> []"
  shows "\<exists>st s' ev q p'. mysql_wire_packet_stream_feed s (Some data) (length data) = (st, s', length data, ev) \<and>
     (st = MYSQL_WIRE_STATUS_OK \<or> st = MYSQL_WIRE_STATUS_NEED_MORE) \<and>
     stream_ok s' \<and> p = q @ p' \<and> stream_needs s' p' post \<and> event_delivers ev s' p q \<and> \<not> ev_message_end ev \<and>
     stream_total s' p' = stream_total s p \<and> st_max_payload s' = st_max_payload s \<and>
     st_expected_sequence s' = st_expected_sequence s"
proof (cases "st_in_payload s")
  case True
  then have "mysql_wire_packet_stream_feed s (Some data) (length data) = feed_payload s data (length data) 0"
    by (simp add: mysql_wire_packet_stream_feed_def)
  then show ?thesis
    using feed_payload_needs_part [OF ok True needs \<open>post \<noteq> []\<close>, of 0 data] \<open>data \<noteq> []\<close> by fastforce
next
  case ni: False
  let ?u = "st_header_used s"
  show ?thesis
  proof (cases "?u + length data < 4")
    case True
    let ?s' = "s\<lparr>st_header := memcpy (st_header s) ?u data, st_header_used := ?u + length data\<rparr>"
    have "take (?u + length data) (memcpy (st_header s) ?u data) = take ?u (st_header s) @ data"
      using ok by (intro take_memcpy) (simp add: stream_ok_def)
    then have "stream_needs ?s' p post" "stream_ok ?s'"
      using needs ni True ok by (auto simp: stream_needs_def stream_ok_def)
    then show ?thesis
      using feed_short_header [OF ok ni True] ni
      by (intro exI [of _ MYSQL_WIRE_STATUS_NEED_MORE] exI [of _ ?s'] exI [of _ event_zero] exI [of _ "[]"] exI [of _ p])
         (auto simp: event_delivers_def event_zero_def stream_total_def)
  next
    case False
    define k where "k = 4 - ?u"
    have k: "k \<le> length data" using False by (simp add: k_def)
    obtain s2 where s2: "stream_ok s2" "st_max_payload s2 = st_max_payload s"
        "st_expected_sequence s2 = st_expected_sequence s" and p: "drop k (data @ post) = p"
      and run: "mysql_wire_packet_stream_feed s (Some data) (length data) = feed_payload s2 data (length data) k"
      and open2: "st_in_payload s2" "stream_needs s2 p p" "stream_total s2 p = length p" and "p \<noteq> []"
      using feed_opens [OF ok ni needs _ k_def k] k \<open>post \<noteq> []\<close> by auto
    show ?thesis
    proof (cases "k = length data")
      case True
      then have "p = post" using p by simp
      moreover have "feed_payload s2 data (length data) k = (MYSQL_WIRE_STATUS_NEED_MORE, s2, length data, event_zero)"
        using True by (simp add: feed_payload_def)
      ultimately show ?thesis
        using run s2 open2 ni
        by (intro exI [of _ MYSQL_WIRE_STATUS_NEED_MORE] exI [of _ s2] exI [of _ event_zero] exI [of _ "[]"] exI [of _ p])
           (auto simp: event_delivers_def event_zero_def stream_total_def stream_needs_def)
    next
      case False
      then have "k < length data" and "stream_needs s2 p (drop k data @ post)" using k p open2 by auto
      from feed_payload_needs_part [OF s2(1) open2(1) this(2) \<open>post \<noteq> []\<close> this(1) refl]
      show ?thesis using run s2 open2 ni by (fastforce simp: stream_total_def)
    qed
  qed
qed

lemma feed_needs_end:
  assumes ok: "stream_ok s" and needs: "stream_needs s p rest" and "data = rest @ post"
  shows "\<exists>s' ev. mysql_wire_packet_stream_feed s (Some data) (length data) = (MYSQL_WIRE_STATUS_OK, s', length rest, ev) \<and>
     stream_ok s' \<and> \<not> st_in_payload s' \<and> st_header_used s' = 0 \<and> event_delivers ev s' p p \<and>
     (ev_message_end ev \<longleftrightarrow> stream_total s p < max_packet) \<and>
     st_max_payload s' = st_max_payload s \<and> st_expected_sequence s' = st_expected_sequence s + 1"
proof (cases "st_in_payload s")
  case True
  then have "rest = p" and "p \<noteq> []"
    using needs ok by (auto simp: stream_needs_def stream_ok_def unat_eq_zero)
  moreover have "mysql_wire_packet_stream_feed s (Some data) (length data) = feed_payload s data (length data) 0"
    using True by (simp add: mysql_wire_packet_stream_feed_def)
  ultimately show ?thesis
    using feed_payload_needs_end [OF ok True, of p 0 data post] needs assms(3) by simp
next
  case ni: False
  define k where "k = 4 - st_header_used s"
  have kl: "k \<le> length rest"
    using needs ni ok by (auto simp: stream_needs_def k_def stream_ok_def dest: arg_cong [of _ _ length])
  then have k: "k \<le> length data" and pre: "take k data = take k rest" using assms(3) by auto
  obtain s2 where s2: "stream_ok s2" "st_max_payload s2 = st_max_payload s"
        "st_expected_sequence s2 = st_expected_sequence s" and p: "drop k rest = p"
      and run: "mysql_wire_packet_stream_feed s (Some data) (length data) =
       (if p = [] then
          (MYSQL_WIRE_STATUS_OK, s2\<lparr>st_expected_sequence := st_expected_sequence s + 1, st_header_used := 0\<rparr>, k,
           event_zero\<lparr>ev_sequence_id := st_expected_sequence s, ev_packet_end := True, ev_message_end := True\<rparr>)
        else feed_payload s2 data (length data) k)"
      and open2: "if p = [] then \<not> st_in_payload s2
        else st_in_payload s2 \<and> stream_needs s2 p p \<and> stream_total s2 p = length p"
    using feed_opens [OF ok ni needs pre k_def k] by auto
  have lr: "length rest = k + length p" using p kl by auto
  show ?thesis
  proof (cases "p = []")
    case True
    then show ?thesis
      using run s2 open2 lr ni
      by (auto simp: event_delivers_def event_zero_def stream_total_def stream_ok_def)
  next
    case False
    then have "k < length data" and "drop k data = p @ post" using lr assms(3) p kl by auto
    from feed_payload_needs_end [OF s2(1) _ _ this]
    show ?thesis using run s2 open2 lr ni False by (auto simp: stream_total_def)
  qed
qed


section \<open>Any input\<close>

lemma feed_payload_safe:
  assumes ok: "stream_ok s" "st_in_payload s" and "cursor \<le> length data"
    and run: "feed_payload s data (length data) cursor = (st, s', n, ev)"
  shows "stream_ok s' \<and> n \<le> length data \<and> ev_length ev \<le> n \<and>
     (st = MYSQL_WIRE_STATUS_OK \<or> st = MYSQL_WIRE_STATUS_NEED_MORE \<and> n = length data) \<and>
     (st = MYSQL_WIRE_STATUS_OK \<longrightarrow> 0 < n) \<and>
     (ev_length ev = 0 \<or> ev_data ev = Some (take (ev_length ev) (drop (n - ev_length ev) data)))"
proof (cases "cursor = length data")
  case True
  then show ?thesis using ok run by (auto simp: feed_payload_def event_zero_def)
next
  case False
  then have lt: "cursor < length data" using assms(3) by simp
  have pos: "0 < unat (st_packet_payload_length s - st_payload_seen s)"
    using ok by (auto simp: stream_ok_def unat_gt_0)
  show ?thesis
  proof (cases "unat (st_packet_payload_length s - st_payload_seen s) \<le> length data - cursor")
    case True
    then show ?thesis
      using feed_payload_end [OF lt refl True] run ok lt pos
      by (auto simp: event_zero_def stream_ok_def)
  next
    case False
    then have part: "length data - cursor < unat (st_packet_payload_length s - st_payload_seen s)" by simp
    define pad where "pad = replicate (unat (st_packet_payload_length s - st_payload_seen s) - (length data - cursor)) (0 :: u8)"
    have "stream_needs s (drop cursor data @ pad) (drop cursor data @ pad)" and "pad \<noteq> []"
      using ok part by (auto simp: stream_needs_def pad_def)
    from feed_payload_needs_part [OF ok this(1) this(2) lt refl]
    have "stream_ok s'" using run by auto
    then show ?thesis
      using feed_payload_part [OF lt refl part] run lt by (auto simp: event_zero_def)
  qed
qed

lemma packet_header_decode_bounds:
  "mysql_wire_packet_header_decode h sz e m = Inr (len, seq) \<Longrightarrow> len \<le> m \<and> seq = e"
  by (auto simp: mysql_wire_packet_header_decode_def Let_def not_less split: option.splits if_splits)

lemma stream_feed_safe:
  assumes ok: "stream_ok s" and run: "mysql_wire_packet_stream_feed s (Some data) (length data) = (st, s', n, ev)"
  shows "stream_ok s' \<and> n \<le> length data \<and> ev_length ev \<le> n \<and>
     (st = MYSQL_WIRE_STATUS_NEED_MORE \<longrightarrow> n = length data) \<and>
     (ev_length ev = 0 \<or> ev_data ev = Some (take (ev_length ev) (drop (n - ev_length ev) data)))"
proof (cases "st_in_payload s")
  case True
  then have "feed_payload s data (length data) 0 = (st, s', n, ev)"
    using run by (simp add: mysql_wire_packet_stream_feed_def)
  from feed_payload_safe [OF ok True _ this] show ?thesis by auto
next
  case ni: False
  show ?thesis
  proof (cases "st_header_used s + length data < 4")
    case True
    then show ?thesis
      using feed_short_header [OF ok ni True] run ok
      by (auto simp: stream_ok_def event_zero_def)
  next
    case False
    define k where "k = 4 - st_header_used s"
    define h where "h = memcpy (st_header s) (st_header_used s) (take k data)"
    have k: "k \<le> length data" and h: "length h = 4"
      using False ok by (auto simp: k_def h_def stream_ok_def memcpy_def)
    show ?thesis
    proof (cases "mysql_wire_packet_header_decode (Some h) 4 (st_expected_sequence s) (st_max_payload s)")
      case (Inl status)
      then have "status \<noteq> MYSQL_WIRE_STATUS_NEED_MORE"
        by (auto simp: mysql_wire_packet_header_decode_def Let_def split: if_splits)
      then show ?thesis
        using feed_full_header [OF ok ni, of data] False run ok Inl k h
        by (auto simp: stream_ok_def event_zero_def Let_def k_def [symmetric] h_def [symmetric])
    next
      case (Inr r)
      obtain len seq where r: "r = (len, seq)" by (cases r)
      let ?s2 = "s\<lparr>st_header := h, st_header_used := 4, st_packet_payload_length := len, st_sequence_id := seq,
                  st_payload_seen := 0, st_in_payload := True\<rparr>"
      show ?thesis
      proof (cases "len = 0")
        case True
        then show ?thesis
          using feed_full_header [OF ok ni, of data] False run ok Inr r k h
          by (auto simp: stream_ok_def event_zero_def Let_def k_def [symmetric] h_def [symmetric])
      next
        case nz: False
        have "stream_ok ?s2"
          using ok h nz Inr r packet_header_decode_bounds [of "Some h" 4] by (auto simp: stream_ok_def word_gt_0)
        moreover have "feed_payload ?s2 data (length data) k = (st, s', n, ev)"
          using feed_full_header [OF ok ni, of data] False run Inr r nz
          by (simp add: Let_def k_def [symmetric] h_def [symmetric])
        ultimately show ?thesis using feed_payload_safe [of ?s2 k data st s' n ev] k by auto
      qed
    qed
  qed
qed

text \<open>A rejected header stays in the stream: every later feed is rejected the same way and takes nothing.\<close>

lemma stream_feed_latches:
  assumes ok: "stream_ok s" and run: "mysql_wire_packet_stream_feed s (Some data) (length data) = (st, s', n, ev)"
    and bad: "st = MYSQL_WIRE_STATUS_LIMIT \<or> st = MYSQL_WIRE_STATUS_SEQUENCE"
  shows "mysql_wire_packet_stream_feed s' (Some data') (length data') = (st, s', 0, event_zero)"
proof -
  have ni: "\<not> st_in_payload s"
  proof
    assume a: "st_in_payload s"
    then have "feed_payload s data (length data) 0 = (st, s', n, ev)"
      using run by (simp add: mysql_wire_packet_stream_feed_def)
    from feed_payload_safe [OF ok a _ this] bad show False by auto
  qed
  have full: "4 \<le> st_header_used s + length data"
    using feed_short_header [OF ok ni, of data] run bad by (cases "4 \<le> st_header_used s + length data") auto
  define k where "k = 4 - st_header_used s"
  define h where "h = memcpy (st_header s) (st_header_used s) (take k data)"
  let ?dec = "mysql_wire_packet_header_decode (Some h) 4 (st_expected_sequence s) (st_max_payload s)"
  note spec = feed_full_header [OF ok ni full, folded k_def, folded h_def, unfolded Let_def]
  have k: "k \<le> length data" and h: "length h = 4"
    using full ok by (auto simp: k_def h_def stream_ok_def memcpy_def)
  have bad': "?dec = Inl st \<and> s' = s\<lparr>st_header := h, st_header_used := 4\<rparr>"
  proof (cases ?dec)
    case (Inl e)
    then show ?thesis using spec run by auto
  next
    case (Inr r)
    obtain len seq where r: "r = (len, seq)" by (cases r)
    let ?s2 = "s\<lparr>st_header := h, st_header_used := 4, st_packet_payload_length := len, st_sequence_id := seq,
                st_payload_seen := 0, st_in_payload := True\<rparr>"
    have "len \<noteq> 0" using spec run bad Inr r by auto
    moreover from this have "stream_ok ?s2"
      using ok h Inr r packet_header_decode_bounds [of "Some h" 4] by (auto simp: stream_ok_def word_gt_0)
    ultimately show ?thesis
      using feed_payload_safe [of ?s2 k data st s' n ev] spec run bad Inr r k by auto
  qed
  have "stream_ok s'" using stream_feed_safe [OF ok run] by simp
  then show ?thesis using feed_full_header [of s' data'] bad' ni by (simp add: Let_def)
qed


section \<open>Properties\<close>

text \<open>
  C15. Whatever bytes arrive, one feed keeps the stream's invariant (the header buffer is never
  overrun, the payload seen stays below the announced length), consumes no more than it was
  given, and the piece of payload it reports lies inside the consumed input.
\<close>

theorem packet_stream_feed_in_bounds:
  assumes "stream_ok s" and "mysql_wire_packet_stream_feed s (Some data) (length data) = (st, s', n, ev)"
  shows "stream_ok s' \<and> n \<le> length data \<and> ev_length ev \<le> n \<and>
     (ev_length ev = 0 \<or> ev_data ev = Some (take (ev_length ev) (drop (n - ev_length ev) data)))"
  using stream_feed_safe [OF assms] by blast

theorem packet_stream_feed_in_bounds_witness:
  "\<exists>st s' n ev. mysql_wire_packet_stream_feed (packet_stream_fresh 0 100) (Some [2, 0, 0, 0, 65]) (length [2, 0, 0, 0, 65 :: u8]) =
     (st, s', n, ev) \<and> stream_ok s' \<and> n \<le> 5"
proof -
  obtain st s' n ev where r: "mysql_wire_packet_stream_feed (packet_stream_fresh 0 100) (Some [2, 0, 0, 0, 65])
      (length [2, 0, 0, 0, 65 :: u8]) = (st, s', n, ev)" by (metis prod_cases4)
  have "stream_ok (packet_stream_fresh 0 100)"
    by (rule stream_ok_fresh) (simp add: MYSQL_WIRE_PACKET_MAX_PAYLOAD_def)
  from packet_stream_feed_in_bounds [OF this r] r show ?thesis by auto
qed

text \<open>
  C16. Framing errors are final: once a header is rejected, because its payload is too long or its
  sequence number is not the expected one, every later feed is rejected with the same status,
  consumes nothing and leaves the stream as it is.
\<close>

theorem packet_stream_error_is_final:
  assumes "stream_ok s" and "mysql_wire_packet_stream_feed s (Some data) (length data) = (st, s', n, ev)"
    and "st = MYSQL_WIRE_STATUS_LIMIT \<or> st = MYSQL_WIRE_STATUS_SEQUENCE"
  shows "mysql_wire_packet_stream_feed s' (Some data') (length data') = (st, s', 0, event_zero)"
  using assms by (rule stream_feed_latches)

theorem packet_stream_error_is_final_witness:
  "\<exists>s' n ev. mysql_wire_packet_stream_feed (packet_stream_fresh 0 100) (Some [2, 0, 0, 1]) 4 = (MYSQL_WIRE_STATUS_SEQUENCE, s', n, ev) \<and>
     mysql_wire_packet_stream_feed s' (Some [2, 0, 0, 0]) 4 = (MYSQL_WIRE_STATUS_SEQUENCE, s', 0, event_zero)"
proof -
  define r where "r = mysql_wire_packet_stream_feed (packet_stream_fresh 0 100) (Some [2, 0, 0, 1]) (length [2, 0, 0, 1 :: u8])"
  have "fst r = MYSQL_WIRE_STATUS_SEQUENCE" unfolding r_def by code_simp
  then obtain s' n ev where r: "r = (MYSQL_WIRE_STATUS_SEQUENCE, s', n, ev)" by (cases r) auto
  have "stream_ok (packet_stream_fresh 0 100)"
    by (rule stream_ok_fresh) (simp add: MYSQL_WIRE_PACKET_MAX_PAYLOAD_def)
  from packet_stream_error_is_final [OF this r [unfolded r_def], of "[2, 0, 0, 0]"] r
  show ?thesis by (auto simp: r_def eval_nat_numeral)
qed

end
