(* ===== verification/Server_Frame.thy ===== *)
theory Server_Frame
  imports Wire_Packet
begin

unbundle bit_operations_syntax

text \<open>
  Message framing of the server, \<open>src/tidessql/server/mysql/frame.c\<close>: \<open>tdsql_mysql_input\<close>
  reassembles the packets of one logical message into a bounded buffer on top of the packet
  stream, and \<open>tdsql_mysql_frame_encode\<close> splits a message into packets.

  \<open>frames\<close> is the specification of both: the packet sequence of a message.  The encoder writes
  exactly it, and the input delivers the message from it however the bytes are cut into reads.
\<close>

section \<open>Data\<close>

datatype tdsql_mysql_status =
    TDSQL_MYSQL_OK
  | TDSQL_MYSQL_NEED_MORE
  | TDSQL_MYSQL_INVALID
  | TDSQL_MYSQL_LIMIT
  | TDSQL_MYSQL_SEQUENCE
  | TDSQL_MYSQL_UNSUPPORTED
  | TDSQL_MYSQL_BUSY

text \<open>The server status shares the numbers of the wire status, so the code converts implicitly.\<close>

fun of_wire :: "mysql_wire_status \<Rightarrow> tdsql_mysql_status" where
  "of_wire MYSQL_WIRE_STATUS_OK = TDSQL_MYSQL_OK"
| "of_wire MYSQL_WIRE_STATUS_NEED_MORE = TDSQL_MYSQL_NEED_MORE"
| "of_wire MYSQL_WIRE_STATUS_INVALID = TDSQL_MYSQL_INVALID"
| "of_wire MYSQL_WIRE_STATUS_LIMIT = TDSQL_MYSQL_LIMIT"
| "of_wire MYSQL_WIRE_STATUS_SEQUENCE = TDSQL_MYSQL_SEQUENCE"

lemma of_wire_OK [simp]: "of_wire s = TDSQL_MYSQL_OK \<longleftrightarrow> s = MYSQL_WIRE_STATUS_OK"
  by (cases s) simp_all

record tdsql_mysql_input =
  in_stream :: mysql_wire_packet_stream
  in_storage :: ptr
  in_capacity :: nat
  in_used :: nat
  in_failure :: tdsql_mysql_status
  in_ready :: bool

record tdsql_mysql_output =
  out_data :: ptr
  out_capacity :: nat
  out_size :: nat


section \<open>Operations\<close>

definition tdsql_mysql_input_init :: "ptr \<Rightarrow> nat \<Rightarrow> u8 \<Rightarrow> tdsql_mysql_status + tdsql_mysql_input" where
  "tdsql_mysql_input_init storage capacity sequence =
     (if storage = None \<or> capacity = 0 then Inl TDSQL_MYSQL_INVALID
      else case mysql_wire_packet_stream_init sequence MYSQL_WIRE_PACKET_MAX_PAYLOAD of
             Inl status \<Rightarrow> Inl (of_wire status)
           | Inr stream \<Rightarrow>
               Inr \<lparr>in_stream = stream, in_storage = storage, in_capacity = capacity, in_used = 0,
                    in_failure = TDSQL_MYSQL_OK, in_ready = False\<rparr>)"

text \<open>The payload the current packet still announces.\<close>

definition announced :: "mysql_wire_packet_event \<Rightarrow> mysql_wire_packet_stream \<Rightarrow> nat" where
  "announced event stream =
     (if ev_packet_payload_length event \<noteq> 0
      then unat (ev_packet_payload_length event - ev_offset event)
      else if st_in_payload stream
      then unat (st_packet_payload_length stream - st_payload_seen stream) else 0)"

text \<open>\<open>memcpy(input->storage+input->used, event.data, event.length)\<close>\<close>

definition input_store :: "tdsql_mysql_input \<Rightarrow> mysql_wire_packet_event \<Rightarrow> tdsql_mysql_input" where
  "input_store input event =
     (if ev_length event \<noteq> 0 then
        input\<lparr>in_storage := map_option (\<lambda>b. memcpy b (in_used input)
                 (case ev_data event of None \<Rightarrow> [] | Some d \<Rightarrow> take (ev_length event) d)) (in_storage input),
              in_used := in_used input + ev_length event\<rparr>
      else input)"

text \<open>The loop of \<open>tdsql_mysql_input_feed\<close>; the third component is \<open>*consumed\<close>.\<close>

function input_feed_loop ::
    "tdsql_mysql_input \<Rightarrow> ptr \<Rightarrow> nat \<Rightarrow> nat \<Rightarrow> tdsql_mysql_status \<times> tdsql_mysql_input \<times> nat" where
  "input_feed_loop input data sz cursor =
     (if cursor < sz then
        let (status, stream, taken, event) =
              mysql_wire_packet_stream_feed (in_stream input) (map_option (drop cursor) data) (sz - cursor);
            input = input\<lparr>in_stream := stream\<rparr>;
            remaining = announced event stream
        in if status \<noteq> MYSQL_WIRE_STATUS_OK \<and> status \<noteq> MYSQL_WIRE_STATUS_NEED_MORE then
             (of_wire status, input\<lparr>in_failure := of_wire status\<rparr>, cursor + taken)
           else if in_used input > in_capacity input \<or> remaining > in_capacity input - in_used input \<or>
                   ev_length event > in_capacity input - in_used input then
             (TDSQL_MYSQL_LIMIT, input\<lparr>in_failure := TDSQL_MYSQL_LIMIT\<rparr>, cursor + taken)
           else
             let input = input_store input event in
             if ev_message_end event then (TDSQL_MYSQL_OK, input\<lparr>in_ready := True\<rparr>, cursor + taken)
             else if status = MYSQL_WIRE_STATUS_NEED_MORE then (TDSQL_MYSQL_NEED_MORE, input, cursor + taken)
             else if taken = 0 then
               (TDSQL_MYSQL_INVALID, input\<lparr>in_failure := TDSQL_MYSQL_INVALID\<rparr>, cursor + taken)
             else input_feed_loop input data sz (cursor + taken)
      else (TDSQL_MYSQL_NEED_MORE, input, cursor))"
  by pat_completeness auto
termination by (relation "measure (\<lambda>(_, _, sz, cursor). sz - cursor)") auto

declare input_feed_loop.simps [simp del]

definition tdsql_mysql_input_feed ::
    "tdsql_mysql_input \<Rightarrow> ptr \<Rightarrow> nat \<Rightarrow> tdsql_mysql_status \<times> tdsql_mysql_input \<times> nat" where
  "tdsql_mysql_input_feed input data sz =
     (if in_storage input = None \<or> in_capacity input = 0 \<or> (data = None \<and> sz \<noteq> 0) then
        (TDSQL_MYSQL_INVALID, input, 0)
      else if in_failure input \<noteq> TDSQL_MYSQL_OK then (in_failure input, input, 0)
      else if in_ready input then (TDSQL_MYSQL_BUSY, input, 0)
      else input_feed_loop input data sz 0)"

definition tdsql_mysql_input_message :: "tdsql_mysql_input \<Rightarrow> tdsql_mysql_status + mysql_wire_bytes" where
  "tdsql_mysql_input_message input =
     (if in_storage input = None then Inl TDSQL_MYSQL_INVALID
      else if in_failure input \<noteq> TDSQL_MYSQL_OK then Inl (in_failure input)
      else if \<not> in_ready input then Inl TDSQL_MYSQL_NEED_MORE
      else Inr \<lparr>wb_data = in_storage input, wb_length = in_used input, wb_is_null = False\<rparr>)"

definition tdsql_mysql_input_release :: "tdsql_mysql_input \<Rightarrow> u8 \<Rightarrow> tdsql_mysql_status \<times> tdsql_mysql_input" where
  "tdsql_mysql_input_release input sequence =
     (if in_storage input = None then (TDSQL_MYSQL_INVALID, input)
      else if in_failure input \<noteq> TDSQL_MYSQL_OK then (in_failure input, input)
      else if \<not> in_ready input then (TDSQL_MYSQL_BUSY, input)
      else (TDSQL_MYSQL_OK,
            input\<lparr>in_used := 0, in_ready := False,
                  in_stream := mysql_wire_packet_stream_reset (in_stream input) sequence\<rparr>))"

text \<open>
  The packet loop of \<open>tdsql_mysql_frame_encode\<close>, over the packets still to write; on success
  the third component is the sequence number after the last packet.
\<close>

primrec encode_packets ::
    "nat \<Rightarrow> ptr \<Rightarrow> nat \<Rightarrow> nat \<Rightarrow> ptr \<Rightarrow> nat \<Rightarrow> nat \<Rightarrow> u8 \<Rightarrow> mysql_wire_status \<times> ptr \<times> u8" where
  "encode_packets 0 payload sz total_size data position offset sequence = (MYSQL_WIRE_STATUS_OK, data, sequence)"
| "encode_packets (Suc n) payload sz total_size data position offset sequence =
     (let remaining = sz - offset;
          bytes = (of_nat (if remaining > max_packet
                           then max_packet else remaining) :: u32);
          (status, data, position) = mysql_wire_write_u24_le data total_size position bytes
      in if status \<noteq> MYSQL_WIRE_STATUS_OK then (status, data, sequence)
         else
           let data = map_option (\<lambda>d. d[position := sequence]) data;
               sequence = sequence + 1;
               position = position + 1;
               data = (if bytes \<noteq> 0 then
                         map_option (\<lambda>d. memcpy d position
                           (case payload of None \<Rightarrow> [] | Some p \<Rightarrow> take (unat bytes) (drop offset p))) data
                       else data)
           in encode_packets n payload sz total_size data (position + unat bytes) (offset + unat bytes) sequence)"

text \<open>The last component is \<open>*next\<close>, when it is set.\<close>

definition tdsql_mysql_frame_encode ::
    "ptr \<Rightarrow> nat \<Rightarrow> u8 \<Rightarrow> tdsql_mysql_output \<Rightarrow> tdsql_mysql_status \<times> tdsql_mysql_output \<times> u8 option" where
  "tdsql_mysql_frame_encode payload sz sequence out =
     (if payload = None \<and> sz \<noteq> 0 then (TDSQL_MYSQL_INVALID, out, None)
      else
        let packets = sz div max_packet + 1 in
        if packets > (SIZE_MAX - sz) div MYSQL_WIRE_PACKET_HEADER_SIZE then (TDSQL_MYSQL_LIMIT, out, None)
        else
          let total_size = sz + packets * MYSQL_WIRE_PACKET_HEADER_SIZE in
          if total_size > out_capacity out then (TDSQL_MYSQL_LIMIT, out, None)
          else if out_data out \<noteq> None then
            let (status, data, sequence) = encode_packets packets payload sz total_size (out_data out) 0 0 sequence in
            if status \<noteq> MYSQL_WIRE_STATUS_OK then (of_wire status, out\<lparr>out_data := data\<rparr>, None)
            else (TDSQL_MYSQL_OK, out\<lparr>out_data := data, out_size := total_size\<rparr>, Some sequence)
          else (TDSQL_MYSQL_OK, out\<lparr>out_size := total_size\<rparr>, Some (sequence + of_nat packets)))"


section \<open>The packets of a message\<close>

function frames :: "u8 \<Rightarrow> bytes \<Rightarrow> bytes" where
  "frames seq m =
     (if length m < max_packet then packet_header (of_nat (length m)) seq @ m
      else packet_header MYSQL_WIRE_PACKET_MAX_PAYLOAD seq @ take max_packet m @ frames (seq + 1) (drop max_packet m))"
  by pat_completeness auto
termination by (relation "measure (\<lambda>(_, m). length m)", auto, use max_packet_pos in linarith)

declare frames.simps [simp del]

lemma frames_short: "length m < max_packet \<Longrightarrow> frames seq m = packet_header (of_nat (length m)) seq @ m"
  by (subst frames.simps) simp

lemma frames_long:
  "\<not> length m < max_packet \<Longrightarrow>
   frames seq m = packet_header MYSQL_WIRE_PACKET_MAX_PAYLOAD seq @ take max_packet m @ frames (seq + 1) (drop max_packet m)"
  by (subst frames.simps) simp

lemma length_frames: "length (frames seq m) = length m + (length m div max_packet + 1) * 4"
proof (induction seq m rule: frames.induct)
  case (1 seq m)
  show ?case
  proof (cases "length m < max_packet")
    case True
    then show ?thesis by (simp add: frames_short)
  next
    case False
    then have "length m div max_packet = Suc ((length m - max_packet) div max_packet)"
      by (simp add: le_div_geq)
    then show ?thesis using 1 [OF False] False by (simp add: frames_long)
  qed
qed


section \<open>The encoder writes the packets\<close>

lemma memcpy3:
  assumes "pos + length a + Suc (length b) \<le> length d"
  shows "memcpy ((memcpy d pos a)[pos + length a := x]) (Suc (pos + length a)) b = memcpy d pos (a @ x # b)"
  using assms memcpy_memcpy [of pos a d "[x]"] memcpy_memcpy [of pos "a @ [x]" d b]
  by (simp add: list_update_is_memcpy)

lemma encode_packets_step:
  assumes n: "min max_packet (length m - offset) = n" and fits: "position + 4 + n \<le> total_size"
    and "total_size \<le> length d" and "offset \<le> length m"
  shows "encode_packets (Suc k) (Some m) (length m) total_size (Some d) position offset seq =
         encode_packets k (Some m) (length m) total_size
           (Some (memcpy d position (packet_header (of_nat n) seq @ take n (drop offset m))))
           (position + 4 + n) (offset + n) (seq + 1)"
proof -
  have "n \<le> max_packet" using n by simp
  then have small: "n \<le> 0xffffff" by (simp add: max_packet_value)
  then have u: "unat (of_nat n :: u32) = n" by (rule unat_of_nat_u32)
  have nz: "(of_nat n :: u32) = 0 \<longleftrightarrow> n = 0" by (rule of_nat_u32_eq_0 [OF u])
  have b: "(if length m - offset > max_packet then max_packet else length m - offset) = n" using n by auto
  have w: "mysql_wire_write_u24_le (Some d) total_size position (of_nat n) =
      (MYSQL_WIRE_STATUS_OK, Some (memcpy d position (u24_bytes (of_nat n))), position + 3)"
    using appends_fits [OF mysql_wire_write_u24_appends, of "of_nat n" total_size d position] u small fits assms(3)
    by (simp add: word_le_nat_alt)
  have m: "memcpy ((memcpy d position (u24_bytes (of_nat n)))[position + 3 := seq]) (Suc (position + 3)) (take n (drop offset m)) =
      memcpy d position (packet_header (of_nat n) seq @ take n (drop offset m))"
    using memcpy3 [of position "u24_bytes (of_nat n)" "take n (drop offset m)" d seq] fits assms(3)
    by (simp add: packet_header_def)
  have z: "n = 0 \<Longrightarrow> (memcpy d position (u24_bytes (of_nat n)))[position + 3 := seq] =
      memcpy d position (packet_header (of_nat n) seq @ take n (drop offset m))"
    using m by simp
  show ?thesis
    unfolding encode_packets.simps b Let_def w
    using m z by (auto simp: u nz ac_simps)
qed

lemma encode_packets_spec:
  assumes "offset \<le> length m" and "position + length (frames seq (drop offset m)) \<le> total_size" and "total_size \<le> length d"
  shows "encode_packets ((length m - offset) div max_packet + 1) (Some m) (length m) total_size (Some d) position offset seq =
     (MYSQL_WIRE_STATUS_OK, Some (memcpy d position (frames seq (drop offset m))),
      seq + of_nat ((length m - offset) div max_packet + 1))"
  using assms
proof (induction "length m - offset" arbitrary: offset position seq d rule: less_induct)
  case less
  show ?case
  proof (cases "length m - offset < max_packet")
    case True
    then have f: "frames seq (drop offset m) = packet_header (of_nat (length m - offset)) seq @ drop offset m"
      by (simp add: frames_short)
    have "min max_packet (length m - offset) = length m - offset" using True by simp
    from encode_packets_step [OF this _ less(4) less(2), of position 0 seq] True f less(3)
    show ?thesis by simp
  next
    case False
    let ?d = "memcpy d position (packet_header MYSQL_WIRE_PACKET_MAX_PAYLOAD seq @ take max_packet (drop offset m))"
    let ?rest = "frames (seq + 1) (drop (offset + max_packet) m)"
    have f: "frames seq (drop offset m) = (packet_header MYSQL_WIRE_PACKET_MAX_PAYLOAD seq @ take max_packet (drop offset m)) @ ?rest"
      using False frames_long [of "drop offset m" seq] by (simp add: add.commute)
    have k: "(length m - offset) div max_packet = Suc ((length m - (offset + max_packet)) div max_packet)"
      using False by (simp add: le_div_geq)
    have fit: "position + 4 + max_packet + length ?rest \<le> total_size"
      using less(3) False unfolding f by simp
    have dl: "length ?d = length d" using fit less(4) False by simp
    have n: "min max_packet (length m - offset) = max_packet" using False by simp
    have step: "encode_packets ((length m - offset) div max_packet + 1) (Some m) (length m) total_size (Some d) position offset seq =
      encode_packets ((length m - (offset + max_packet)) div max_packet + 1) (Some m) (length m) total_size (Some ?d)
        (position + 4 + max_packet) (offset + max_packet) (seq + 1)"
      using encode_packets_step [OF n _ less(4) less(2), of position "Suc ((length m - (offset + max_packet)) div max_packet)" seq]
        fit unfolding k by simp
    have ih: "encode_packets ((length m - (offset + max_packet)) div max_packet + 1) (Some m) (length m) total_size (Some ?d)
        (position + 4 + max_packet) (offset + max_packet) (seq + 1) =
      (MYSQL_WIRE_STATUS_OK, Some (memcpy ?d (position + 4 + max_packet) ?rest),
       seq + 1 + of_nat ((length m - (offset + max_packet)) div max_packet + 1))"
    proof (rule less(1))
      show "length m - (offset + max_packet) < length m - offset" using False max_packet_pos by linarith
      show "offset + max_packet \<le> length m" using False max_packet_pos by linarith
    qed (use fit less(4) dl in simp_all)
    have "memcpy ?d (position + 4 + max_packet) ?rest = memcpy d position (frames seq (drop offset m))"
      using memcpy_memcpy [of position "packet_header MYSQL_WIRE_PACKET_MAX_PAYLOAD seq @ take max_packet (drop offset m)" d ?rest]
        fit less(4) False unfolding f by (simp add: add.assoc)
    then show ?thesis unfolding step ih by (simp add: k add.commute add.left_commute)
  qed
qed

lemma frame_encode_spec:
  assumes "out_data out = Some buf" and "out_capacity out \<le> length buf" and "out_capacity out \<le> SIZE_MAX"
  shows "tdsql_mysql_frame_encode (Some m) (length m) seq out =
     (if length (frames seq m) \<le> out_capacity out then
        (TDSQL_MYSQL_OK, out\<lparr>out_data := Some (memcpy buf 0 (frames seq m)), out_size := length (frames seq m)\<rparr>,
         Some (seq + of_nat (length m div max_packet + 1)))
      else (TDSQL_MYSQL_LIMIT, out, None))"
proof -
  let ?n = "length m div max_packet + 1"
  have len: "length (frames seq m) = length m + ?n * 4" by (rule length_frames)
  show ?thesis
  proof (cases "length m + ?n * 4 \<le> out_capacity out")
    case True
    then have "?n \<le> (SIZE_MAX - length m) div 4" using assms(3) by (simp add: less_eq_div_iff_mult_less_eq)
    moreover have "encode_packets ?n (Some m) (length m) (length m + ?n * 4) (Some buf) 0 0 seq =
        (MYSQL_WIRE_STATUS_OK, Some (memcpy buf 0 (frames seq m)), seq + of_nat ?n)"
      using encode_packets_spec [of 0 m 0 seq "length m + ?n * 4" buf] len True assms(2) by simp
    ultimately show ?thesis
      using True assms(1) len by (simp add: tdsql_mysql_frame_encode_def Let_def del: of_nat_Suc of_nat_add)
  next
    case False
    then show ?thesis using assms(1) len by (simp add: tdsql_mysql_frame_encode_def Let_def)
  qed
qed


section \<open>The input reassembles the message\<close>

text \<open>
  \<open>input_needs i m rest\<close>: \<open>rest\<close> is exactly the input that completes the message \<open>m\<close>.  The
  first \<open>in_used\<close> bytes of \<open>m\<close> are stored, \<open>p\<close> is what the current packet still delivers, and a
  maximal packet is followed by the packets of what is left.
\<close>

definition input_ok :: "tdsql_mysql_input \<Rightarrow> bool" where
  "input_ok i \<longleftrightarrow>
     stream_ok (in_stream i) \<and> st_max_payload (in_stream i) = MYSQL_WIRE_PACKET_MAX_PAYLOAD \<and>
     0 < in_capacity i \<and> in_used i \<le> in_capacity i \<and>
     (\<exists>buf. in_storage i = Some buf \<and> in_capacity i \<le> length buf)"

definition storage :: "tdsql_mysql_input \<Rightarrow> bytes" where
  "storage i = (case in_storage i of None \<Rightarrow> [] | Some b \<Rightarrow> b)"

definition stored :: "tdsql_mysql_input \<Rightarrow> bytes" where
  "stored i = take (in_used i) (case in_storage i of None \<Rightarrow> [] | Some b \<Rightarrow> b)"

definition input_needs :: "tdsql_mysql_input \<Rightarrow> bytes \<Rightarrow> bytes \<Rightarrow> bool" where
  "input_needs i m rest \<longleftrightarrow>
     input_ok i \<and> in_failure i = TDSQL_MYSQL_OK \<and> \<not> in_ready i \<and> length m \<le> in_capacity i \<and>
     (\<exists>p r m2. stored i @ p @ m2 = m \<and> stream_needs (in_stream i) p r \<and>
        (if stream_total (in_stream i) p < max_packet then m2 = [] \<and> rest = r
         else rest = r @ frames (st_expected_sequence (in_stream i) + 1) m2))"

lemma input_needs_start:
  assumes "input_ok i" and "in_failure i = TDSQL_MYSQL_OK" and "\<not> in_ready i"
    and "\<not> st_in_payload (in_stream i)" and "st_header_used (in_stream i) = 0"
    and "stored i @ m2 = m" and "length m \<le> in_capacity i"
  shows "input_needs i m (frames (st_expected_sequence (in_stream i)) m2)"
proof -
  let ?s = "in_stream i" and ?seq = "st_expected_sequence (in_stream i)"
  let ?p = "take max_packet m2"
  have mx: "st_max_payload ?s = MYSQL_WIRE_PACKET_MAX_PAYLOAD" using assms(1) by (simp add: input_ok_def)
  have n: "stream_needs ?s ?p (packet_header (of_nat (length ?p)) ?seq @ ?p)"
    using assms(4,5) mx by (intro stream_needs_between) simp_all
  have t: "stream_total ?s ?p = length ?p" using assms(4) by (simp add: stream_total_def)
  show ?thesis
  proof (cases "length m2 < max_packet")
    case True
    then show ?thesis
      unfolding input_needs_def using n t assms
      by (intro conjI exI [of _ m2] exI [of _ "frames ?seq m2"] exI [of _ "[]"]) (auto simp: frames_short)
  next
    case False
    then have "frames ?seq m2 = (packet_header (of_nat (length ?p)) ?seq @ ?p) @ frames (?seq + 1) (drop max_packet m2)"
      by (simp add: frames_long min_absorb2)
    then show ?thesis
      unfolding input_needs_def using n t assms False
      by (intro conjI exI [of _ ?p] exI [of _ "packet_header (of_nat (length ?p)) ?seq @ ?p"] exI [of _ "drop max_packet m2"])
         simp_all
  qed
qed

lemma input_store_delivers:
  assumes "event_delivers ev s' p q" and "input_ok i" and "in_used i + length q \<le> in_capacity i"
    and "stream_ok s'" and "st_max_payload s' = MYSQL_WIRE_PACKET_MAX_PAYLOAD"
  shows "stored (input_store (i\<lparr>in_stream := s'\<rparr>) ev) = stored i @ q"
    and "input_ok (input_store (i\<lparr>in_stream := s'\<rparr>) ev)"
    and "in_stream (input_store (i\<lparr>in_stream := s'\<rparr>) ev) = s'"
    and "in_failure (input_store (i\<lparr>in_stream := s'\<rparr>) ev) = in_failure i"
    and "in_ready (input_store (i\<lparr>in_stream := s'\<rparr>) ev) = in_ready i"
    and "in_capacity (input_store (i\<lparr>in_stream := s'\<rparr>) ev) = in_capacity i"
proof -
  obtain buf where buf: "in_storage i = Some buf" "in_capacity i \<le> length buf" "in_used i \<le> in_capacity i"
    using assms(2) by (auto simp: input_ok_def)
  have q: "ev_length ev = length q" "q \<noteq> [] \<Longrightarrow> ev_data ev = Some q" using assms(1) by (auto simp: event_delivers_def)
  show "stored (input_store (i\<lparr>in_stream := s'\<rparr>) ev) = stored i @ q"
    using q buf assms(3) by (cases "q = []") (auto simp: stored_def input_store_def take_memcpy)
  show "input_ok (input_store (i\<lparr>in_stream := s'\<rparr>) ev)"
    using q buf assms by (cases "q = []") (auto simp: input_ok_def input_store_def)
qed (simp_all add: input_store_def)

text \<open>The amount the code sets aside for the announced payload is what the packet really has left.\<close>

lemma announced_delivers:
  "event_delivers ev s' (q @ p') q \<Longrightarrow> announced ev s' \<le> length q + length p'"
  by (auto simp: event_delivers_def announced_def split: if_splits)

lemma input_feed_step:
  assumes "cursor < sz"
    and "mysql_wire_packet_stream_feed (in_stream i) (map_option (drop cursor) data) (sz - cursor) = (st, s', n, ev)"
    and "st = MYSQL_WIRE_STATUS_OK \<or> st = MYSQL_WIRE_STATUS_NEED_MORE" and "in_used i \<le> in_capacity i"
    and "announced ev s' \<le> in_capacity i - in_used i" and "ev_length ev \<le> in_capacity i - in_used i"
  shows "input_feed_loop i data sz cursor =
    (let i' = input_store (i\<lparr>in_stream := s'\<rparr>) ev in
     if ev_message_end ev then (TDSQL_MYSQL_OK, i'\<lparr>in_ready := True\<rparr>, cursor + n)
     else if st = MYSQL_WIRE_STATUS_NEED_MORE then (TDSQL_MYSQL_NEED_MORE, i', cursor + n)
     else if n = 0 then (TDSQL_MYSQL_INVALID, i'\<lparr>in_failure := TDSQL_MYSQL_INVALID\<rparr>, cursor + n)
     else input_feed_loop i' data sz (cursor + n))"
  using assms by (subst input_feed_loop.simps) (auto simp: Let_def)

text \<open>Input that ends inside the current packet.\<close>

lemma input_feed_inside:
  assumes i: "input_ok i" "in_failure i = TDSQL_MYSQL_OK" "\<not> in_ready i" and m: "stored i @ p @ m2 = m" "length m \<le> in_capacity i"
    and needs: "stream_needs (in_stream i) p (drop cursor data @ post)" and "post \<noteq> []" and cur: "cursor < length data"
  shows "\<exists>i' p'. input_feed_loop i (Some data) (length data) cursor = (TDSQL_MYSQL_NEED_MORE, i', length data) \<and>
     input_ok i' \<and> in_failure i' = TDSQL_MYSQL_OK \<and> \<not> in_ready i' \<and> in_capacity i' = in_capacity i \<and>
     stored i' @ p' @ m2 = m \<and> stream_needs (in_stream i') p' post \<and>
     stream_total (in_stream i') p' = stream_total (in_stream i) p \<and>
     st_expected_sequence (in_stream i') = st_expected_sequence (in_stream i)"
proof -
  let ?s = "in_stream i"
  have ok: "stream_ok ?s" and mx: "st_max_payload ?s = MYSQL_WIRE_PACKET_MAX_PAYLOAD"
    and used: "in_used i \<le> in_capacity i" using i by (auto simp: input_ok_def)
  have sl: "length (stored i) = in_used i" using i by (auto simp: input_ok_def stored_def)
  have "drop cursor data \<noteq> []" using cur by simp
  from feed_needs_part [OF ok needs this \<open>post \<noteq> []\<close>] obtain st s' ev q p' where
    run: "mysql_wire_packet_stream_feed ?s (Some (drop cursor data)) (length (drop cursor data)) =
            (st, s', length (drop cursor data), ev)"
    and st: "st = MYSQL_WIRE_STATUS_OK \<or> st = MYSQL_WIRE_STATUS_NEED_MORE"
    and s': "stream_ok s'" "p = q @ p'" "stream_needs s' p' post" "event_delivers ev s' p q" "\<not> ev_message_end ev"
      "stream_total s' p' = stream_total ?s p" "st_max_payload s' = st_max_payload ?s"
      "st_expected_sequence s' = st_expected_sequence ?s" by blast
  have room: "in_used i + length q + length p' \<le> in_capacity i"
    using m sl s'(2) by (auto dest: arg_cong [of _ _ length])
  define i' where "i' = input_store (i\<lparr>in_stream := s'\<rparr>) ev"
  have "in_used i + length q \<le> in_capacity i" and mx': "st_max_payload s' = MYSQL_WIRE_PACKET_MAX_PAYLOAD"
    using room mx s' by auto
  note st' = input_store_delivers [OF s'(4) i(1) this(1) s'(1) mx', folded i'_def]
  have "announced ev s' \<le> in_capacity i - in_used i"
    using announced_delivers [of ev s' q p'] s'(2,4) room by simp
  moreover have "ev_length ev \<le> in_capacity i - in_used i"
    using s'(4) room by (simp add: event_delivers_def)
  ultimately have step: "input_feed_loop i (Some data) (length data) cursor =
     (if st = MYSQL_WIRE_STATUS_NEED_MORE then (TDSQL_MYSQL_NEED_MORE, i', length data)
      else input_feed_loop i' (Some data) (length data) (length data))"
    using input_feed_step [OF cur _ st used, of "Some data" s' "length data - cursor" ev] run s'(5) cur
    by (simp add: i'_def Let_def)
  have "input_feed_loop i' (Some data) (length data) (length data) = (TDSQL_MYSQL_NEED_MORE, i', length data)"
    by (subst input_feed_loop.simps) simp
  then show ?thesis
    using step st' s' i m by (intro exI [of _ i'] exI [of _ p']) auto
qed

text \<open>Input that reaches the end of the current packet.\<close>

lemma input_feed_packet_end:
  assumes i: "input_ok i" "in_failure i = TDSQL_MYSQL_OK" "\<not> in_ready i" and m: "stored i @ p @ m2 = m" "length m \<le> in_capacity i"
    and needs: "stream_needs (in_stream i) p r" and data: "drop cursor data = r @ post" and cur: "cursor < length data"
  shows "\<exists>i'. input_feed_loop i (Some data) (length data) cursor =
       (if stream_total (in_stream i) p < max_packet then (TDSQL_MYSQL_OK, i'\<lparr>in_ready := True\<rparr>, cursor + length r)
        else input_feed_loop i' (Some data) (length data) (cursor + length r)) \<and> r \<noteq> [] \<and>
     input_ok i' \<and> in_failure i' = TDSQL_MYSQL_OK \<and> \<not> in_ready i' \<and> in_capacity i' = in_capacity i \<and>
     stored i' @ m2 = m \<and> \<not> st_in_payload (in_stream i') \<and> st_header_used (in_stream i') = 0 \<and>
     st_expected_sequence (in_stream i') = st_expected_sequence (in_stream i) + 1"
proof -
  let ?s = "in_stream i"
  have ok: "stream_ok ?s" and mx: "st_max_payload ?s = MYSQL_WIRE_PACKET_MAX_PAYLOAD"
    and used: "in_used i \<le> in_capacity i" using i by (auto simp: input_ok_def)
  have sl: "length (stored i) = in_used i" using i by (auto simp: input_ok_def stored_def)
  have r: "r \<noteq> []"
    using needs ok by (auto simp: stream_needs_def stream_ok_def unat_eq_zero split: if_splits dest: arg_cong [of _ _ length])
  from feed_needs_end [OF ok needs data] obtain s' ev where
    run: "mysql_wire_packet_stream_feed ?s (Some (drop cursor data)) (length (drop cursor data)) =
            (MYSQL_WIRE_STATUS_OK, s', length r, ev)"
    and s': "stream_ok s'" "\<not> st_in_payload s'" "st_header_used s' = 0" "event_delivers ev s' p p"
      "ev_message_end ev \<longleftrightarrow> stream_total ?s p < max_packet"
      "st_max_payload s' = st_max_payload ?s" "st_expected_sequence s' = st_expected_sequence ?s + 1" by blast
  have room: "in_used i + length p \<le> in_capacity i"
    using m sl by (auto dest: arg_cong [of _ _ length])
  define i' where "i' = input_store (i\<lparr>in_stream := s'\<rparr>) ev"
  have mx': "st_max_payload s' = MYSQL_WIRE_PACKET_MAX_PAYLOAD" using mx s' by simp
  note st' = input_store_delivers [OF s'(4) i(1) room s'(1) mx', folded i'_def]
  have "announced ev s' \<le> in_capacity i - in_used i"
    using announced_delivers [of ev s' p "[]"] s'(4) room by simp
  moreover have "ev_length ev \<le> in_capacity i - in_used i"
    using s'(4) room by (simp add: event_delivers_def)
  ultimately have "input_feed_loop i (Some data) (length data) cursor =
     (if stream_total ?s p < max_packet then (TDSQL_MYSQL_OK, i'\<lparr>in_ready := True\<rparr>, cursor + length r)
      else input_feed_loop i' (Some data) (length data) (cursor + length r))"
    using input_feed_step [OF cur _ _ used, of "Some data" MYSQL_WIRE_STATUS_OK s' "length r" ev] run s'(5) r
    by (simp add: i'_def Let_def)
  then show ?thesis using r st' s' i m by (intro exI [of _ i']) auto
qed

lemma input_feed_loop_part:
  assumes "input_needs i m (drop cursor data @ post)" and "post \<noteq> []" and "cursor \<le> length data"
  shows "\<exists>i'. input_feed_loop i (Some data) (length data) cursor = (TDSQL_MYSQL_NEED_MORE, i', length data) \<and>
     input_needs i' m post"
  using assms
proof (induction "length data - cursor" arbitrary: i cursor rule: less_induct)
  case less
  show ?case
  proof (cases "cursor < length data")
    case False
    then have "drop cursor data = []" by simp
    moreover have "input_feed_loop i (Some data) (length data) cursor = (TDSQL_MYSQL_NEED_MORE, i, cursor)"
      using False by (subst input_feed_loop.simps) simp
    ultimately show ?thesis using less(2,4) False by auto
  next
    case cur: True
    from less(2) obtain p r m2 where i: "input_ok i" "in_failure i = TDSQL_MYSQL_OK" "\<not> in_ready i"
      and m: "stored i @ p @ m2 = m" "length m \<le> in_capacity i" and needs: "stream_needs (in_stream i) p r"
      and rest: "if stream_total (in_stream i) p < max_packet then m2 = [] \<and> drop cursor data @ post = r
         else drop cursor data @ post = r @ frames (st_expected_sequence (in_stream i) + 1) m2"
      by (auto simp: input_needs_def)
    let ?last = "stream_total (in_stream i) p < max_packet"
    let ?f = "frames (st_expected_sequence (in_stream i) + 1) m2"
    consider (inside) post' where "r = drop cursor data @ post'" "post' \<noteq> []" "post = post' @ (if ?last then [] else ?f)"
      | (ends) d' where "drop cursor data = r @ d'" "\<not> ?last" "?f = d' @ post"
    proof (cases ?last)
      case True
      then show thesis using rest less(3) inside [of post] by simp
    next
      case False
      then obtain us where "drop cursor data = r @ us \<and> us @ post = ?f \<or> drop cursor data @ us = r \<and> post = us @ ?f"
        using rest by (auto simp: append_eq_append_conv2)
      then show thesis using inside [of us] ends [of us] ends [of "[]"] False by (cases "us = []") auto
    qed
    then show ?thesis
    proof cases
      case inside
      from input_feed_inside [OF i m needs [unfolded inside(1)] inside(2) cur]
      obtain i' p' where "input_feed_loop i (Some data) (length data) cursor = (TDSQL_MYSQL_NEED_MORE, i', length data)"
        and i': "input_ok i'" "in_failure i' = TDSQL_MYSQL_OK" "\<not> in_ready i'" "in_capacity i' = in_capacity i"
        "stored i' @ p' @ m2 = m" "stream_needs (in_stream i') p' post'"
        "stream_total (in_stream i') p' = stream_total (in_stream i) p"
        "st_expected_sequence (in_stream i') = st_expected_sequence (in_stream i)" by blast
      moreover have "input_needs i' m post"
        unfolding input_needs_def using i' m rest inside(3)
        by (intro conjI exI [of _ p'] exI [of _ post'] exI [of _ m2]) auto
      ultimately show ?thesis by blast
    next
      case ends
      from input_feed_packet_end [OF i m needs ends(1) cur] ends(2)
      obtain i' where run: "input_feed_loop i (Some data) (length data) cursor =
          input_feed_loop i' (Some data) (length data) (cursor + length r)" and "r \<noteq> []"
        and i': "input_ok i'" "in_failure i' = TDSQL_MYSQL_OK" "\<not> in_ready i'" "in_capacity i' = in_capacity i"
          "stored i' @ m2 = m" "\<not> st_in_payload (in_stream i')" "st_header_used (in_stream i') = 0"
          "st_expected_sequence (in_stream i') = st_expected_sequence (in_stream i) + 1" by auto
      have "drop (cursor + length r) data = drop (length r) (drop cursor data)" by (simp add: add.commute)
      then have d': "drop (cursor + length r) data = d'" unfolding ends(1) by simp
      have "length (r @ d') = length data - cursor" unfolding ends(1) [symmetric] by simp
      then have le: "cursor + length r \<le> length data" using cur by simp
      have "input_needs i' m (drop (cursor + length r) data @ post)"
        using input_needs_start [OF i'(1,2,3,6,7,5)] i'(4,8) m(2) ends(3) d' by simp
      moreover have "0 < length r" using \<open>r \<noteq> []\<close> by simp
      then have "length data - (cursor + length r) < length data - cursor" using cur by linarith
      ultimately show ?thesis using less(1) [OF _ _ less(3) le] run by simp
    qed
  qed
qed

lemma input_feed_loop_end:
  assumes "input_needs i m rest" and "drop cursor data = rest @ post" and "cursor \<le> length data"
  shows "\<exists>i'. input_feed_loop i (Some data) (length data) cursor = (TDSQL_MYSQL_OK, i', cursor + length rest) \<and>
     input_ok i' \<and> in_failure i' = TDSQL_MYSQL_OK \<and> in_ready i' \<and> in_capacity i' = in_capacity i \<and> stored i' = m"
  using assms
proof (induction "length data - cursor" arbitrary: i cursor rest rule: less_induct)
  case less
  from less(2) obtain p r m2 where i: "input_ok i" "in_failure i = TDSQL_MYSQL_OK" "\<not> in_ready i"
    and m: "stored i @ p @ m2 = m" "length m \<le> in_capacity i" and needs: "stream_needs (in_stream i) p r"
    and rest: "if stream_total (in_stream i) p < max_packet then m2 = [] \<and> rest = r
       else rest = r @ frames (st_expected_sequence (in_stream i) + 1) m2"
    by (auto simp: input_needs_def)
  let ?last = "stream_total (in_stream i) p < max_packet"
  let ?f = "frames (st_expected_sequence (in_stream i) + 1) m2"
  have data: "drop cursor data = r @ ((if ?last then [] else ?f) @ post)" using rest less(3) by auto
  have "r \<noteq> []"
    using needs i(1) by (auto simp: stream_needs_def stream_ok_def input_ok_def unat_eq_zero split: if_splits
        dest: arg_cong [of _ _ length])
  then have cur: "cursor < length data" using data less(4) by (cases "cursor = length data") auto
  from input_feed_packet_end [OF i m needs data cur]
  obtain i' where run: "input_feed_loop i (Some data) (length data) cursor =
       (if ?last then (TDSQL_MYSQL_OK, i'\<lparr>in_ready := True\<rparr>, cursor + length r)
        else input_feed_loop i' (Some data) (length data) (cursor + length r))"
    and i': "input_ok i'" "in_failure i' = TDSQL_MYSQL_OK" "\<not> in_ready i'" "in_capacity i' = in_capacity i"
      "stored i' @ m2 = m" "\<not> st_in_payload (in_stream i')" "st_header_used (in_stream i') = 0"
      "st_expected_sequence (in_stream i') = st_expected_sequence (in_stream i) + 1" by auto
  show ?case
  proof (cases ?last)
    case True
    then show ?thesis
      using run i' rest by (intro exI [of _ "i'\<lparr>in_ready := True\<rparr>"]) (auto simp: input_ok_def stored_def)
  next
    case False
    have "drop (cursor + length r) data = drop (length r) (drop cursor data)" by (simp add: add.commute)
    then have d': "drop (cursor + length r) data = ?f @ post" unfolding data using False by simp
    have "length (r @ ?f @ post) = length data - cursor" using data False by (metis append_Nil length_drop)
    then have le: "cursor + length r \<le> length data" using cur by simp
    have "input_needs i' m ?f"
      using input_needs_start [OF i'(1,2,3,6,7,5)] i'(4,8) m(2) by simp
    have "0 < length r" using \<open>r \<noteq> []\<close> by simp
    then have "length data - (cursor + length r) < length data - cursor" using cur by linarith
    from less(1) [OF this \<open>input_needs i' m ?f\<close> d' le] run show ?thesis
      using False i'(4) rest by (auto simp: add.assoc)
  qed
qed


section \<open>Reads of any size\<close>

text \<open>The reader loop of a connection: feed the reads in turn for as long as more is needed.\<close>

fun feed_reads :: "tdsql_mysql_input \<Rightarrow> bytes list \<Rightarrow> tdsql_mysql_status \<times> tdsql_mysql_input" where
  "feed_reads i [] = (TDSQL_MYSQL_NEED_MORE, i)"
| "feed_reads i (c # cs) =
     (case tdsql_mysql_input_feed i (Some c) (length c) of (st, i', n) \<Rightarrow>
        if st = TDSQL_MYSQL_NEED_MORE then feed_reads i' cs else (st, i'))"

lemma input_feed_is_loop:
  "input_needs i m rest \<Longrightarrow> tdsql_mysql_input_feed i (Some d) (length d) = input_feed_loop i (Some d) (length d) 0"
  by (auto simp: tdsql_mysql_input_feed_def input_needs_def input_ok_def)

lemma feed_reads_complete:
  assumes "input_needs i m (concat cs)" and "concat cs \<noteq> []"
  shows "\<exists>i'. feed_reads i cs = (TDSQL_MYSQL_OK, i') \<and> input_ok i' \<and> in_failure i' = TDSQL_MYSQL_OK \<and>
     in_ready i' \<and> stored i' = m"
  using assms
proof (induction cs arbitrary: i)
  case (Cons c cs)
  show ?case
  proof (cases "concat cs = []")
    case True
    have "input_needs i m c" using Cons(2) unfolding concat.simps True append_Nil2 .
    from input_feed_loop_end [OF this, of 0 c "[]"] obtain i' where
      "input_feed_loop i (Some c) (length c) 0 = (TDSQL_MYSQL_OK, i', length c)" "input_ok i'"
      "in_failure i' = TDSQL_MYSQL_OK" "in_ready i'" "stored i' = m" by auto
    then show ?thesis using input_feed_is_loop [OF Cons(2), of c] by simp
  next
    case False
    have "input_needs i m (drop 0 c @ concat cs)" using Cons(2) by simp
    from input_feed_loop_part [OF this False] obtain i' where
      "input_feed_loop i (Some c) (length c) 0 = (TDSQL_MYSQL_NEED_MORE, i', length c)" "input_needs i' m (concat cs)"
      by auto
    then show ?thesis using Cons(1) [of i'] False input_feed_is_loop [OF Cons(2), of c] by simp
  qed
qed simp

lemma input_init_needs:
  assumes "tdsql_mysql_input_init (Some buf) cap seq = Inr i" and "cap \<le> length buf" and "length m \<le> cap"
  shows "input_needs i m (frames seq m)"
proof -
  have cap: "0 < cap" and i: "i = \<lparr>in_stream = packet_stream_fresh seq MYSQL_WIRE_PACKET_MAX_PAYLOAD, in_storage = Some buf,
     in_capacity = cap, in_used = 0, in_failure = TDSQL_MYSQL_OK, in_ready = False\<rparr>"
    using assms(1) by (auto simp: tdsql_mysql_input_init_def mysql_wire_packet_stream_init_def split: if_splits)
  have "input_ok i" using cap assms(2) by (simp add: i input_ok_def stream_ok_fresh) (simp add: packet_stream_fresh_def)
  then show ?thesis
    using input_needs_start [of i m m] assms(3) by (simp add: i stored_def packet_stream_fresh_def)
qed

lemma input_message_ready:
  "input_ok i \<Longrightarrow> in_failure i = TDSQL_MYSQL_OK \<Longrightarrow> in_ready i \<Longrightarrow>
   map_sum id wire_value (tdsql_mysql_input_message i) = Inr (Some (stored i))"
  by (auto simp: tdsql_mysql_input_message_def input_ok_def wire_value_def stored_def)

lemma frames_nonempty [simp]: "frames seq m \<noteq> []"
proof -
  have "0 < length (frames seq m)" unfolding length_frames by simp
  then show ?thesis by auto
qed


section \<open>Any input\<close>

text \<open>All that changes in the array lies between the old and the new end of the message.\<close>

definition stores_between :: "tdsql_mysql_input \<Rightarrow> tdsql_mysql_input \<Rightarrow> bool" where
  "stores_between i i' \<longleftrightarrow> in_used i \<le> in_used i' \<and> length (storage i') = length (storage i) \<and>
     take (in_used i) (storage i') = take (in_used i) (storage i) \<and> drop (in_used i') (storage i') = drop (in_used i') (storage i)"

lemma stores_between_same: "in_storage i' = in_storage i \<Longrightarrow> in_used i' = in_used i \<Longrightarrow> stores_between i i'"
  by (simp add: stores_between_def storage_def)

lemma take_le_eq:
  assumes "take n xs = take n ys" and "m \<le> n"
  shows "take m xs = take m ys"
  using arg_cong [OF assms(1), of "take m"] assms(2) by (simp add: min_absorb1)

lemma drop_le_eq:
  assumes "drop n xs = drop n ys" and "n \<le> m"
  shows "drop m xs = drop m ys"
  using arg_cong [OF assms(1), of "drop (m - n)"] assms(2) by simp

lemma stores_between_trans: "stores_between i i1 \<Longrightarrow> stores_between i1 i' \<Longrightarrow> stores_between i i'"
  using take_le_eq [of "in_used i1" "storage i'" "storage i1" "in_used i"] drop_le_eq [of "in_used i1" "storage i1" "storage i" "in_used i'"]
  by (simp add: stores_between_def)

lemma stores_between_stored: "stores_between i i' \<Longrightarrow> take (in_used i) (stored i') = stored i"
  by (simp add: stores_between_def stored_def storage_def [symmetric] min_absorb1)

lemma input_store_ok:
  assumes "input_ok i" and "stream_ok s'" and "st_max_payload s' = MYSQL_WIRE_PACKET_MAX_PAYLOAD"
    and "ev_length ev = 0 \<or> (\<exists>d. ev_data ev = Some d \<and> length d = ev_length ev)"
    and "ev_length ev \<le> in_capacity i - in_used i"
  defines "i' \<equiv> input_store (i\<lparr>in_stream := s'\<rparr>) ev"
  shows "input_ok i' \<and> stores_between i i' \<and> in_capacity i' = in_capacity i"
proof -
  obtain buf where buf: "in_storage i = Some buf" "in_capacity i \<le> length buf" "in_used i \<le> in_capacity i"
    using assms(1) by (auto simp: input_ok_def)
  show ?thesis
    using assms buf
    by (cases "ev_length ev = 0") (auto simp: i'_def input_store_def input_ok_def stores_between_def storage_def memcpy_def min_def)
qed

lemma collect_header_max_payload [simp]: "st_max_payload (fst (collect_header s d sz cursor)) = st_max_payload s"
  by (induction s d sz cursor rule: collect_header.induct) (subst collect_header.simps, simp)

lemma feed_payload_max_payload [simp]: "st_max_payload (fst (snd (feed_payload s d sz cursor))) = st_max_payload s"
  by (simp add: feed_payload_def Let_def)

lemma stream_feed_max_payload:
  "st_max_payload (fst (snd (mysql_wire_packet_stream_feed s data sz))) = st_max_payload s"
  by (simp add: mysql_wire_packet_stream_feed_def Let_def case_prod_beta split: sum.split)

lemma input_feed_reject:
  assumes "cursor < sz"
    and "mysql_wire_packet_stream_feed (in_stream i) (map_option (drop cursor) data) (sz - cursor) = (st, s', n, ev)"
    and "st \<noteq> MYSQL_WIRE_STATUS_OK \<and> st \<noteq> MYSQL_WIRE_STATUS_NEED_MORE \<or>
         announced ev s' > in_capacity i - in_used i \<or> ev_length ev > in_capacity i - in_used i"
  shows "\<exists>f. input_feed_loop i data sz cursor = (f, i\<lparr>in_stream := s', in_failure := f\<rparr>, cursor + n) \<and>
    f \<noteq> TDSQL_MYSQL_OK"
  using assms by (subst input_feed_loop.simps) (auto simp: Let_def)

text \<open>
  Whatever arrives, the loop stays inside the buffer: the invariant is kept, what was stored is
  never overwritten, nothing past its end is touched, and no more input is consumed than there is.
\<close>

lemma input_feed_loop_safe:
  assumes "input_ok i" and "cursor \<le> length data"
    and "input_feed_loop i (Some data) (length data) cursor = (st, i', n)"
  shows "input_ok i' \<and> in_capacity i' = in_capacity i \<and> n \<le> length data \<and> stores_between i i'"
  using assms
proof (induction "length data - cursor" arbitrary: i cursor rule: less_induct)
  case less
  have refl_case: "stores_between i i" by (rule stores_between_same) simp_all
  show ?case
  proof (cases "cursor < length data")
    case False
    then show ?thesis
      using less(2-4) refl_case by (subst (asm) input_feed_loop.simps) auto
  next
    case cur: True
    obtain wst s' taken ev where
      run: "mysql_wire_packet_stream_feed (in_stream i) (Some (drop cursor data)) (length data - cursor) = (wst, s', taken, ev)"
      by (metis prod_cases4)
    have ok: "stream_ok (in_stream i)" and mx: "st_max_payload (in_stream i) = MYSQL_WIRE_PACKET_MAX_PAYLOAD"
      and used: "in_used i \<le> in_capacity i" using less(2) by (auto simp: input_ok_def)
    have run': "mysql_wire_packet_stream_feed (in_stream i) (Some (drop cursor data)) (length (drop cursor data)) = (wst, s', taken, ev)"
      using run by simp
    note safe = stream_feed_safe [OF ok run']
    have mx': "st_max_payload s' = MYSQL_WIRE_PACKET_MAX_PAYLOAD"
      using stream_feed_max_payload [of "in_stream i" "Some (drop cursor data)" "length data - cursor"] run mx by simp
    have ev: "ev_length ev = 0 \<or> (\<exists>d. ev_data ev = Some d \<and> length d = ev_length ev)"
      using safe by fastforce
    let ?i = "i\<lparr>in_stream := s'\<rparr>"
    have oki: "input_ok ?i" using less(2) safe mx' by (auto simp: input_ok_def)
    show ?thesis
    proof (cases "wst \<noteq> MYSQL_WIRE_STATUS_OK \<and> wst \<noteq> MYSQL_WIRE_STATUS_NEED_MORE \<or>
        announced ev s' > in_capacity i - in_used i \<or> ev_length ev > in_capacity i - in_used i")
      case True
      then have "n = cursor + taken" and "\<exists>f. i' = ?i\<lparr>in_failure := f\<rparr>"
        using input_feed_reject [OF cur, of i "Some data" wst s' taken ev] less(4) run by auto
      then show ?thesis
        using oki safe cur by (auto simp: input_ok_def intro!: stores_between_same)
    next
      case False
      define i1 where "i1 = input_store ?i ev"
      have i1: "input_ok i1" "stores_between i i1" "in_capacity i1 = in_capacity i"
        using input_store_ok [OF less(2) _ mx' ev] safe False by (auto simp: i1_def)
      have step: "(st, i', n) =
         (if ev_message_end ev then (TDSQL_MYSQL_OK, i1\<lparr>in_ready := True\<rparr>, cursor + taken)
          else if wst = MYSQL_WIRE_STATUS_NEED_MORE then (TDSQL_MYSQL_NEED_MORE, i1, cursor + taken)
          else if taken = 0 then (TDSQL_MYSQL_INVALID, i1\<lparr>in_failure := TDSQL_MYSQL_INVALID\<rparr>, cursor + taken)
          else input_feed_loop i1 (Some data) (length data) (cursor + taken))"
        using input_feed_step [OF cur, of i "Some data" wst s' taken ev] run False used less(4)
        by (simp add: i1_def Let_def not_less)
      have le: "cursor + taken \<le> length data" using safe cur by auto
      show ?thesis
      proof (cases "ev_message_end ev \<or> wst = MYSQL_WIRE_STATUS_NEED_MORE \<or> taken = 0")
        case True
        then show ?thesis
          using step i1 le by (auto simp: input_ok_def stores_between_def storage_def split: if_splits)
      next
        case rec: False
        then have "input_feed_loop i1 (Some data) (length data) (cursor + taken) = (st, i', n)" using step by simp
        moreover have "length data - (cursor + taken) < length data - cursor" using rec cur by auto
        ultimately have ih: "input_ok i' \<and> in_capacity i' = in_capacity i1 \<and> n \<le> length data \<and> stores_between i1 i'"
          using less(1) i1(1) le by blast
        then show ?thesis using i1 stores_between_trans by auto
      qed
    qed
  qed
qed


section \<open>Properties\<close>

lemma frames_example: "frames seq [65, 66, 67] = [3, 0, 0, seq, 65, 66, 67]"
proof -
  have "u24_bytes (of_nat (length [65, 66, 67 :: u8])) = [3, 0, 0]" by code_simp
  then show ?thesis by (subst frames_short) (simp_all add: max_packet_value packet_header_def)
qed

text \<open>
  C1. The server's encoder and its input are inverse: a message that was framed into a buffer,
  sent, and received in reads of any sizes is delivered complete and unchanged, for every
  message that fits the receiver, messages of several packets included.
\<close>

theorem frame_encode_reassembles:
  assumes enc: "tdsql_mysql_frame_encode (Some m) (length m) seq out = (TDSQL_MYSQL_OK, out', Some nxt)"
    and out: "out_data out = Some obuf" "out_capacity out \<le> length obuf" "out_capacity out \<le> SIZE_MAX"
    and sent: "out_data out' = Some sent" "concat reads = take (out_size out') sent"
    and init: "tdsql_mysql_input_init (Some buf) cap seq = Inr i" "cap \<le> length buf" "length m \<le> cap"
  shows "\<exists>i'. feed_reads i reads = (TDSQL_MYSQL_OK, i') \<and>
           map_sum id wire_value (tdsql_mysql_input_message i') = Inr (Some m)"
proof -
  have "length (frames seq m) \<le> out_capacity out" "sent = memcpy obuf 0 (frames seq m)"
      "out_size out' = length (frames seq m)"
    using enc sent(1) unfolding frame_encode_spec [OF out] by (auto split: if_splits)
  then have "concat reads = frames seq m"
    using sent(2) out(2) take_memcpy [of 0 obuf "frames seq m"] by simp
  then show ?thesis
    using feed_reads_complete [of i m reads] input_init_needs [OF init] input_message_ready by auto
qed

theorem frame_encode_reassembles_witness:
  "\<exists>i i'. tdsql_mysql_input_init (Some (replicate 8 0)) 8 7 = Inr i \<and>
     feed_reads i [[3, 0], [0, 7, 65], [66, 67]] = (TDSQL_MYSQL_OK, i') \<and>
     map_sum id wire_value (tdsql_mysql_input_message i') = Inr (Some [65, 66, 67])"
proof -
  define out where "out = \<lparr>out_data = Some (replicate 7 (0 :: u8)), out_capacity = 7, out_size = 0\<rparr>"
  define out' where "out' = \<lparr>out_data = Some [3, 0, 0, 7, 65, 66, 67 :: u8], out_capacity = 7, out_size = 7\<rparr>"
  have e: "tdsql_mysql_frame_encode (Some [65, 66, 67]) (length [65, 66, 67 :: u8]) 7 out = (TDSQL_MYSQL_OK, out', Some 8)"
    by (subst frame_encode_spec [where buf = "replicate 7 0"])
       (simp_all add: out_def out'_def SIZE_MAX_def frames_example memcpy_def max_packet_value)
  obtain i where i: "tdsql_mysql_input_init (Some (replicate 8 0)) 8 7 = Inr i"
    by (simp add: tdsql_mysql_input_init_def mysql_wire_packet_stream_init_def)
  show ?thesis
    using frame_encode_reassembles [OF e, of "replicate 7 0" "[3, 0, 0, 7, 65, 66, 67]" "[[3, 0], [0, 7, 65], [66, 67]]"
        "replicate 8 0" 8 i] i
    by (auto simp: out_def out'_def SIZE_MAX_def)
qed

text \<open>
  C11. The encoder writes exactly the packets of the message, each but the last with the maximal
  payload, and reports the next sequence number modulo 256; when they do not fit the capacity it
  reports LIMIT and changes nothing.
\<close>

theorem frame_encode_correct:
  assumes "out_data out = Some buf" and "out_capacity out \<le> length buf" and "out_capacity out \<le> SIZE_MAX"
  shows "tdsql_mysql_frame_encode (Some m) (length m) seq out =
     (if length (frames seq m) \<le> out_capacity out then
        (TDSQL_MYSQL_OK, out\<lparr>out_data := Some (memcpy buf 0 (frames seq m)), out_size := length (frames seq m)\<rparr>,
         Some (seq + of_nat (length m div max_packet + 1)))
      else (TDSQL_MYSQL_LIMIT, out, None))"
  using assms by (rule frame_encode_spec)

theorem frame_encode_correct_witness:
  "tdsql_mysql_frame_encode (Some [65, 66, 67]) (length [65, 66, 67 :: u8]) 255
       \<lparr>out_data = Some [1, 1, 1, 1, 1, 1, 1, 1], out_capacity = 8, out_size = 0\<rparr> =
     (TDSQL_MYSQL_OK, \<lparr>out_data = Some [3, 0, 0, 255, 65, 66, 67, 1], out_capacity = 8, out_size = 7\<rparr>, Some 0)"
proof -
  show ?thesis
    using frame_encode_correct [of "\<lparr>out_data = Some [1, 1, 1, 1, 1, 1, 1, 1], out_capacity = 8, out_size = 0\<rparr>"
        "[1, 1, 1, 1, 1, 1, 1, 1]" "[65, 66, 67]" 255]
    by (simp add: memcpy_def SIZE_MAX_def frames_example max_packet_value)
qed

text \<open>
  C4. Memory safety of the input on arbitrary bytes from the network: a feed keeps the length of the caller's array and
  the message within its capacity, never overwrites what it stored, leaves every byte past the new end of the message as it
  was, those from the capacity on included, and never consumes more than it was given.
\<close>

theorem input_feed_in_bounds:
  assumes ok: "input_ok i" and run: "tdsql_mysql_input_feed i (Some d) (length d) = (st, i', n)"
  shows "input_ok i' \<and> in_capacity i' = in_capacity i \<and> n \<le> length d \<and> in_used i \<le> in_used i' \<and> in_used i' \<le> in_capacity i \<and>
     take (in_used i) (stored i') = stored i \<and> length (storage i') = length (storage i) \<and>
     drop (in_used i') (storage i') = drop (in_used i') (storage i)"
proof -
  have "input_ok i' \<and> in_capacity i' = in_capacity i \<and> n \<le> length d \<and> stores_between i i'"
  proof (cases "in_failure i = TDSQL_MYSQL_OK \<and> \<not> in_ready i")
    case True
    then have "input_feed_loop i (Some d) (length d) 0 = (st, i', n)"
      using run ok by (auto simp: tdsql_mysql_input_feed_def input_ok_def)
    from input_feed_loop_safe [OF ok _ this] show ?thesis by simp
  next
    case False
    then have "i' = i" "n = 0" using run by (auto simp: tdsql_mysql_input_feed_def split: if_splits)
    then show ?thesis using ok by (simp add: stores_between_same)
  qed
  then show ?thesis using stores_between_stored [of i i'] by (auto simp: stores_between_def input_ok_def)
qed

text \<open>A full array of two bytes inside a longer one: the third byte is not touched.\<close>

theorem input_feed_in_bounds_witness:
  "\<exists>i st i' n. tdsql_mysql_input_init (Some [0, 0, 9]) 2 0 = Inr i \<and>
     tdsql_mysql_input_feed i (Some [2, 0, 0, 0, 65, 66]) 6 = (st, i', n) \<and> in_used i' \<le> 2 \<and> n \<le> 6 \<and>
     length (storage i') = 3 \<and> drop 2 (storage i') = [9]"
proof -
  obtain i where i: "tdsql_mysql_input_init (Some [0, 0, 9]) 2 0 = Inr i"
    by (simp add: tdsql_mysql_input_init_def mysql_wire_packet_stream_init_def)
  then have "input_needs i [] (frames 0 [])" by (intro input_init_needs [of "[0, 0, 9]" 2]) simp_all
  then have ok: "input_ok i" by (simp add: input_needs_def)
  have c: "in_capacity i = 2" "storage i = [0, 0, 9]"
    using i by (auto simp: tdsql_mysql_input_init_def mysql_wire_packet_stream_init_def storage_def)
  obtain st i' n where r: "tdsql_mysql_input_feed i (Some [2, 0, 0, 0, 65, 66]) (length [2, 0, 0, 0, 65, 66 :: u8]) = (st, i', n)"
    by (metis prod_cases3)
  note bounds = input_feed_in_bounds [OF ok r]
  have "drop 2 (storage i') = drop 2 (storage i)" by (rule drop_le_eq [of "in_used i'"]) (use bounds c in simp_all)
  then show ?thesis using bounds c i r by (auto simp: eval_nat_numeral)
qed

end
