(* ===== verification/Wire_Statement.thy ===== *)
theory Wire_Statement
  imports Wire_Codec
begin

unbundle bit_operations_syntax

text \<open>
  The commands the client sends: \<open>src/mysql/wire/query.c\<close> (QUIT, QUERY) and
  \<open>src/mysql/wire/statement.c\<close> (PREPARE, EXECUTE with its parameter values, CLOSE, RESET, and the
  decoder of the PREPARE reply).

  A builder returns its status, the buffer, and what it leaves in \<open>*out_size\<close>, with \<open>None\<close> where it
  returns without assigning it.  A tagged union is a datatype; a value whose kind is none of the
  enum's is \<open>MYSQL_STMT_VALUE_OTHER\<close>, so that the default branches are modelled.  A double is its
  64-bit pattern, which is all that this code uses of it.

  The lemmas say which bytes each builder writes: \<open>*_payload\<close> is the wire format of the command.
\<close>

section \<open>Constants and data\<close>

abbreviation (input) "MYSQL_COM_QUIT \<equiv> 0x01 :: u8"
abbreviation (input) "MYSQL_COM_QUERY \<equiv> 0x03 :: u8"
abbreviation (input) "MYSQL_COM_STMT_PREPARE \<equiv> 0x16 :: u8"
abbreviation (input) "MYSQL_COM_STMT_EXECUTE \<equiv> 0x17 :: u8"
abbreviation (input) "MYSQL_COM_STMT_CLOSE \<equiv> 0x19 :: u8"
abbreviation (input) "MYSQL_COM_STMT_RESET \<equiv> 0x1a :: u8"
abbreviation (input) "MYSQL_TYPE_TINY \<equiv> 0x01 :: u8"
abbreviation (input) "MYSQL_TYPE_DOUBLE \<equiv> 0x05 :: u8"
abbreviation (input) "MYSQL_TYPE_NULL \<equiv> 0x06 :: u8"
abbreviation (input) "MYSQL_TYPE_LONGLONG \<equiv> 0x08 :: u8"
abbreviation (input) "MYSQL_TYPE_BLOB \<equiv> 0xfc :: u8"
abbreviation (input) "MYSQL_TYPE_VAR_STRING \<equiv> 0xfd :: u8"
abbreviation (input) "MYSQL_TYPE_UNSIGNED_FLAG \<equiv> 0x80 :: u8"

text \<open>The column types of \<open>src/mysql/wire/row.h\<close>.\<close>

abbreviation (input) "MYSQL_FIELD_TYPE_TINY \<equiv> 0x01 :: u8"
abbreviation (input) "MYSQL_FIELD_TYPE_SHORT \<equiv> 0x02 :: u8"
abbreviation (input) "MYSQL_FIELD_TYPE_LONG \<equiv> 0x03 :: u8"
abbreviation (input) "MYSQL_FIELD_TYPE_FLOAT \<equiv> 0x04 :: u8"
abbreviation (input) "MYSQL_FIELD_TYPE_DOUBLE \<equiv> 0x05 :: u8"
abbreviation (input) "MYSQL_FIELD_TYPE_NULL \<equiv> 0x06 :: u8"
abbreviation (input) "MYSQL_FIELD_TYPE_TIMESTAMP \<equiv> 0x07 :: u8"
abbreviation (input) "MYSQL_FIELD_TYPE_LONGLONG \<equiv> 0x08 :: u8"
abbreviation (input) "MYSQL_FIELD_TYPE_INT24 \<equiv> 0x09 :: u8"
abbreviation (input) "MYSQL_FIELD_TYPE_DATE \<equiv> 0x0a :: u8"
abbreviation (input) "MYSQL_FIELD_TYPE_TIME \<equiv> 0x0b :: u8"
abbreviation (input) "MYSQL_FIELD_TYPE_DATETIME \<equiv> 0x0c :: u8"
abbreviation (input) "MYSQL_FIELD_TYPE_YEAR \<equiv> 0x0d :: u8"
abbreviation (input) "MYSQL_FIELD_TYPE_VARCHAR \<equiv> 0x0f :: u8"
abbreviation (input) "MYSQL_FIELD_TYPE_BIT \<equiv> 0x10 :: u8"
abbreviation (input) "MYSQL_FIELD_TYPE_JSON \<equiv> 0xf5 :: u8"
abbreviation (input) "MYSQL_FIELD_TYPE_NEWDECIMAL \<equiv> 0xf6 :: u8"
abbreviation (input) "MYSQL_FIELD_TYPE_ENUM \<equiv> 0xf7 :: u8"
abbreviation (input) "MYSQL_FIELD_TYPE_SET \<equiv> 0xf8 :: u8"
abbreviation (input) "MYSQL_FIELD_TYPE_TINY_BLOB \<equiv> 0xf9 :: u8"
abbreviation (input) "MYSQL_FIELD_TYPE_MEDIUM_BLOB \<equiv> 0xfa :: u8"
abbreviation (input) "MYSQL_FIELD_TYPE_LONG_BLOB \<equiv> 0xfb :: u8"
abbreviation (input) "MYSQL_FIELD_TYPE_BLOB \<equiv> 0xfc :: u8"
abbreviation (input) "MYSQL_FIELD_TYPE_VAR_STRING \<equiv> 0xfd :: u8"
abbreviation (input) "MYSQL_FIELD_TYPE_STRING \<equiv> 0xfe :: u8"
abbreviation (input) "MYSQL_FIELD_TYPE_GEOMETRY \<equiv> 0xff :: u8"
abbreviation (input) "MYSQL_FIELD_TYPE_DECIMAL \<equiv> 0x00 :: u8"

datatype mysql_stmt_value =
    MYSQL_STMT_VALUE_NULL
  | MYSQL_STMT_VALUE_SINT64 u64
  | MYSQL_STMT_VALUE_UINT64 u64
  | MYSQL_STMT_VALUE_DOUBLE u64
  | MYSQL_STMT_VALUE_BOOL u8
  | MYSQL_STMT_VALUE_TEXT ptr nat
  | MYSQL_STMT_VALUE_BLOB ptr nat
  | MYSQL_STMT_VALUE_OTHER

record mysql_stmt_prepare_ok =
  po_statement_id :: u32
  po_column_count :: u16
  po_parameter_count :: u16
  po_warning_count :: u16


section \<open>Operations\<close>

type_synonym built = "mysql_wire_status \<times> ptr \<times> nat option"

text \<open>\<open>*out_size = offset\<close> on success; \<open>*out_size\<close> was set to 0 before.\<close>

definition finish :: "wire_write \<Rightarrow> built" where
  "finish r = (case r of (status, out, offset) \<Rightarrow>
     (status, out, Some (if status = MYSQL_WIRE_STATUS_OK then offset else 0)))"

definition mysql_wire_build_quit :: "ptr \<Rightarrow> nat \<Rightarrow> built" where
  "mysql_wire_build_quit out out_capacity =
     (case out of None \<Rightarrow> (MYSQL_WIRE_STATUS_INVALID, None, Some 0)
      | Some d \<Rightarrow>
        if out_capacity < 1 then (MYSQL_WIRE_STATUS_LIMIT, out, Some 0)
        else (MYSQL_WIRE_STATUS_OK, Some (d[0 := MYSQL_COM_QUIT]), Some 1))"

definition mysql_wire_build_query :: "ptr \<Rightarrow> nat \<Rightarrow> ptr \<Rightarrow> nat \<Rightarrow> built" where
  "mysql_wire_build_query sql sql_size out out_capacity =
     (case (sql, out) of
        (Some s, Some d) \<Rightarrow>
          if sql_size = 0 then (MYSQL_WIRE_STATUS_INVALID, out, Some 0)
          else if sql_size > SIZE_MAX - 1 \<or> out_capacity < sql_size + 1 then (MYSQL_WIRE_STATUS_LIMIT, out, Some 0)
          else (MYSQL_WIRE_STATUS_OK, Some (memcpy (d[0 := MYSQL_COM_QUERY]) 1 (take sql_size s)), Some (sql_size + 1))
      | _ \<Rightarrow> (MYSQL_WIRE_STATUS_INVALID, out, Some 0))"

definition mysql_stmt_emit :: "ptr \<Rightarrow> nat \<Rightarrow> nat \<Rightarrow> ptr \<Rightarrow> nat \<Rightarrow> wire_write" where
  "mysql_stmt_emit out capacity offset data sz =
     (case out of None \<Rightarrow> (MYSQL_WIRE_STATUS_INVALID, None, offset)
      | Some d \<Rightarrow>
        if data = None \<and> sz \<noteq> 0 then (MYSQL_WIRE_STATUS_INVALID, out, offset)
        else if offset > capacity \<or> capacity - offset < sz then (MYSQL_WIRE_STATUS_LIMIT, out, offset)
        else (MYSQL_WIRE_STATUS_OK,
              (if sz \<noteq> 0 then Some (memcpy d offset (case data of None \<Rightarrow> [] | Some x \<Rightarrow> take sz x)) else out),
              offset + sz))"

definition mysql_stmt_emit_byte :: "ptr \<Rightarrow> nat \<Rightarrow> nat \<Rightarrow> u8 \<Rightarrow> wire_write" where
  "mysql_stmt_emit_byte out capacity offset value = mysql_stmt_emit out capacity offset (Some [value]) 1"

definition mysql_stmt_emit_lenenc_bytes :: "ptr \<Rightarrow> nat \<Rightarrow> nat \<Rightarrow> ptr \<Rightarrow> nat \<Rightarrow> wire_write" where
  "mysql_stmt_emit_lenenc_bytes out capacity offset data sz =
     write_then (mysql_wire_write_lenenc_uint out capacity offset (of_nat sz))
       (\<lambda>out offset. mysql_stmt_emit out capacity offset data sz)"

fun mysql_stmt_value_type :: "mysql_stmt_value \<Rightarrow> mysql_wire_status + (u8 \<times> u8)" where
  "mysql_stmt_value_type MYSQL_STMT_VALUE_NULL = Inr (MYSQL_TYPE_NULL, 0)"
| "mysql_stmt_value_type (MYSQL_STMT_VALUE_SINT64 _) = Inr (MYSQL_TYPE_LONGLONG, 0)"
| "mysql_stmt_value_type (MYSQL_STMT_VALUE_UINT64 _) = Inr (MYSQL_TYPE_LONGLONG, MYSQL_TYPE_UNSIGNED_FLAG)"
| "mysql_stmt_value_type (MYSQL_STMT_VALUE_DOUBLE _) = Inr (MYSQL_TYPE_DOUBLE, 0)"
| "mysql_stmt_value_type (MYSQL_STMT_VALUE_BOOL b) =
     (if b > 1 then Inl MYSQL_WIRE_STATUS_INVALID else Inr (MYSQL_TYPE_TINY, 0))"
| "mysql_stmt_value_type (MYSQL_STMT_VALUE_TEXT data sz) =
     (if data = None \<and> sz \<noteq> 0 then Inl MYSQL_WIRE_STATUS_INVALID else Inr (MYSQL_TYPE_VAR_STRING, 0))"
| "mysql_stmt_value_type (MYSQL_STMT_VALUE_BLOB data sz) =
     (if data = None \<and> sz \<noteq> 0 then Inl MYSQL_WIRE_STATUS_INVALID else Inr (MYSQL_TYPE_BLOB, 0))"
| "mysql_stmt_value_type MYSQL_STMT_VALUE_OTHER = Inl MYSQL_WIRE_STATUS_INVALID"

fun mysql_stmt_emit_value :: "ptr \<Rightarrow> nat \<Rightarrow> nat \<Rightarrow> mysql_stmt_value \<Rightarrow> wire_write" where
  "mysql_stmt_emit_value out capacity offset MYSQL_STMT_VALUE_NULL = (MYSQL_WIRE_STATUS_OK, out, offset)"
| "mysql_stmt_emit_value out capacity offset (MYSQL_STMT_VALUE_SINT64 v) = mysql_wire_write_u64_le out capacity offset v"
| "mysql_stmt_emit_value out capacity offset (MYSQL_STMT_VALUE_UINT64 v) = mysql_wire_write_u64_le out capacity offset v"
| "mysql_stmt_emit_value out capacity offset (MYSQL_STMT_VALUE_DOUBLE v) = mysql_wire_write_u64_le out capacity offset v"
| "mysql_stmt_emit_value out capacity offset (MYSQL_STMT_VALUE_BOOL b) = mysql_stmt_emit_byte out capacity offset b"
| "mysql_stmt_emit_value out capacity offset (MYSQL_STMT_VALUE_TEXT data sz) =
     mysql_stmt_emit_lenenc_bytes out capacity offset data sz"
| "mysql_stmt_emit_value out capacity offset (MYSQL_STMT_VALUE_BLOB data sz) =
     mysql_stmt_emit_lenenc_bytes out capacity offset data sz"
| "mysql_stmt_emit_value out capacity offset MYSQL_STMT_VALUE_OTHER = (MYSQL_WIRE_STATUS_INVALID, out, offset)"

definition mysql_wire_build_stmt_prepare :: "ptr \<Rightarrow> nat \<Rightarrow> ptr \<Rightarrow> nat \<Rightarrow> built" where
  "mysql_wire_build_stmt_prepare sql sql_size out out_capacity =
     (if sql = None \<or> sql_size = 0 \<or> out = None then (MYSQL_WIRE_STATUS_INVALID, out, None)
      else finish
        (write_then (mysql_stmt_emit_byte out out_capacity 0 MYSQL_COM_STMT_PREPARE)
          (\<lambda>out offset. mysql_stmt_emit out out_capacity offset sql sql_size)))"

definition mysql_wire_decode_stmt_prepare_ok :: "ptr \<Rightarrow> mysql_wire_status + mysql_stmt_prepare_ok" where
  "mysql_wire_decode_stmt_prepare_ok payload =
     (case payload of None \<Rightarrow> Inl MYSQL_WIRE_STATUS_INVALID
      | Some d \<Rightarrow>
        if length d < 12 then Inl MYSQL_WIRE_STATUS_NEED_MORE
        else if d ! 0 \<noteq> 0 then Inl MYSQL_WIRE_STATUS_INVALID
        else and_then (mysql_wire_read_u32_le payload 1) (\<lambda>(statement_id, offset).
             and_then (mysql_wire_read_u16_le payload offset) (\<lambda>(column_count, offset).
             and_then (mysql_wire_read_u16_le payload offset) (\<lambda>(parameter_count, offset).
             if d ! offset \<noteq> 0 then Inl MYSQL_WIRE_STATUS_INVALID
             else and_then (mysql_wire_read_u16_le payload (offset + 1)) (\<lambda>(warning_count, offset).
             if offset = length d
             then Inr \<lparr>po_statement_id = statement_id, po_column_count = column_count,
                       po_parameter_count = parameter_count, po_warning_count = warning_count\<rparr>
             else Inl MYSQL_WIRE_STATUS_INVALID)))))"

definition mysql_wire_build_stmt_close :: "u32 \<Rightarrow> ptr \<Rightarrow> nat \<Rightarrow> built" where
  "mysql_wire_build_stmt_close statement_id out out_capacity =
     (if out = None then (MYSQL_WIRE_STATUS_INVALID, out, None)
      else finish
        (write_then (mysql_stmt_emit_byte out out_capacity 0 MYSQL_COM_STMT_CLOSE)
          (\<lambda>out offset. mysql_wire_write_u32_le out out_capacity offset statement_id)))"

definition mysql_wire_build_stmt_reset :: "u32 \<Rightarrow> ptr \<Rightarrow> nat \<Rightarrow> built" where
  "mysql_wire_build_stmt_reset statement_id out out_capacity =
     (if statement_id = 0 \<or> out = None then (MYSQL_WIRE_STATUS_INVALID, out, None)
      else finish
        (write_then (mysql_stmt_emit_byte out out_capacity 0 MYSQL_COM_STMT_RESET)
          (\<lambda>out offset. mysql_wire_write_u32_le out out_capacity offset statement_id)))"

text \<open>\<open>out[null_bitmap_offset + i / 8] |= 1 << (i % 8)\<close>\<close>

definition set_null_bit :: "nat \<Rightarrow> nat \<Rightarrow> bytes \<Rightarrow> bytes" where
  "set_null_bit base i d = d[base + i div 8 := d ! (base + i div 8) OR push_bit (i mod 8) 1]"

text \<open>The two loops of EXECUTE: the type words with the null bits, then the values.\<close>

fun emit_types :: "nat \<Rightarrow> nat \<Rightarrow> nat \<Rightarrow> mysql_stmt_value list \<Rightarrow> ptr \<Rightarrow> nat \<Rightarrow> wire_write" where
  "emit_types capacity null_bitmap_offset i [] out offset = (MYSQL_WIRE_STATUS_OK, out, offset)"
| "emit_types capacity null_bitmap_offset i (v # vs) out offset =
     (case mysql_stmt_value_type v of
        Inl status \<Rightarrow> (status, out, offset)
      | Inr (type, flags) \<Rightarrow>
          write_then (mysql_stmt_emit_byte out capacity offset type) (\<lambda>out offset.
          write_then (mysql_stmt_emit_byte out capacity offset flags) (\<lambda>out offset.
          emit_types capacity null_bitmap_offset (i + 1) vs
            (if v = MYSQL_STMT_VALUE_NULL then map_option (set_null_bit null_bitmap_offset i) out else out) offset)))"

fun emit_values :: "nat \<Rightarrow> mysql_stmt_value list \<Rightarrow> ptr \<Rightarrow> nat \<Rightarrow> wire_write" where
  "emit_values capacity [] out offset = (MYSQL_WIRE_STATUS_OK, out, offset)"
| "emit_values capacity (v # vs) out offset =
     write_then (mysql_stmt_emit_value out capacity offset v) (emit_values capacity vs)"

text \<open>The parameter array is the list of its elements, so \<open>value_count\<close> is its length.\<close>

definition mysql_wire_build_stmt_execute :: "u32 \<Rightarrow> mysql_stmt_value list option \<Rightarrow> nat \<Rightarrow> ptr \<Rightarrow> nat \<Rightarrow> built" where
  "mysql_wire_build_stmt_execute statement_id values value_count out out_capacity =
     (if out = None \<or> (values = None \<and> value_count \<noteq> 0) then (MYSQL_WIRE_STATUS_INVALID, out, None)
      else if value_count > 65535 then (MYSQL_WIRE_STATUS_LIMIT, out, Some 0)
      else
        let null_bitmap_size = (value_count + 7) div 8;
            vs = take value_count (case values of None \<Rightarrow> [] | Some vs \<Rightarrow> vs)
        in finish
          (write_then (mysql_stmt_emit_byte out out_capacity 0 MYSQL_COM_STMT_EXECUTE) (\<lambda>out offset.
           write_then (mysql_wire_write_u32_le out out_capacity offset statement_id) (\<lambda>out offset.
           write_then (mysql_stmt_emit_byte out out_capacity offset 0) (\<lambda>out offset.
           write_then (mysql_wire_write_u32_le out out_capacity offset 1) (\<lambda>out null_bitmap_offset.
           write_then
             (if null_bitmap_size \<noteq> 0 then
                (if null_bitmap_offset > out_capacity \<or> out_capacity - null_bitmap_offset < null_bitmap_size
                 then (MYSQL_WIRE_STATUS_LIMIT, out, null_bitmap_offset)
                 else (MYSQL_WIRE_STATUS_OK,
                       map_option (\<lambda>d. memcpy d null_bitmap_offset (replicate null_bitmap_size 0)) out,
                       null_bitmap_offset + null_bitmap_size))
              else (MYSQL_WIRE_STATUS_OK, out, null_bitmap_offset)) (\<lambda>out offset.
           if value_count \<noteq> 0 then
             write_then (mysql_stmt_emit_byte out out_capacity offset 1) (\<lambda>out offset.
             write_then (emit_types out_capacity null_bitmap_offset 0 vs out offset)
               (emit_values out_capacity vs))
           else (MYSQL_WIRE_STATUS_OK, out, offset))))))))"


section \<open>What a sequence of writes leaves in the buffer\<close>

text \<open>
  \<open>wrote cap n P r\<close>: the writes so far, with result \<open>r\<close>, filled a buffer of \<open>n\<close> bytes with \<open>P\<close> from
  its start, or stopped with LIMIT because \<open>P\<close> exceeds the capacity.
\<close>

definition wrote :: "nat \<Rightarrow> nat \<Rightarrow> bytes \<Rightarrow> wire_write \<Rightarrow> bool" where
  "wrote cap n P r \<longleftrightarrow>
     (if length P \<le> cap
      then \<exists>d. r = (MYSQL_WIRE_STATUS_OK, Some d, length P) \<and> length d = n \<and> take (length P) d = P
      else \<exists>d off. r = (MYSQL_WIRE_STATUS_LIMIT, Some d, off) \<and> length d = n)"

definition builds :: "nat \<Rightarrow> nat \<Rightarrow> bytes \<Rightarrow> built \<Rightarrow> bool" where
  "builds cap n P r \<longleftrightarrow>
     (if length P \<le> cap
      then \<exists>d. r = (MYSQL_WIRE_STATUS_OK, Some d, Some (length P)) \<and> length d = n \<and> take (length P) d = P
      else \<exists>d. r = (MYSQL_WIRE_STATUS_LIMIT, Some d, Some 0) \<and> length d = n)"

lemma wrote_finish: "wrote cap n P r \<Longrightarrow> builds cap n P (finish r)"
  by (auto simp: wrote_def builds_def finish_def)

lemma wrote_appends:
  assumes "appends cap f xs" and "cap \<le> n" and "length d = n" and "take (length P) d = P" and "length P \<le> cap"
  shows "wrote cap n (P @ xs) (f (Some d) (length P))"
proof (cases "length P + length xs \<le> cap")
  case True
  then show ?thesis
    using appends_fits [OF assms(1), of d "length P"] assms take_memcpy [of "length P" d xs]
    by (simp add: wrote_def)
next
  case False
  then obtain d' off' where "f (Some d) (length P) = (MYSQL_WIRE_STATUS_LIMIT, Some d', off')" "length d' = length d"
    using assms unfolding appends_def by metis
  then show ?thesis using False assms by (simp add: wrote_def)
qed

lemma wrote_then:
  assumes r: "wrote cap n P r" and le: "length P \<le> length Q"
    and f: "\<And>d. length d = n \<Longrightarrow> take (length P) d = P \<Longrightarrow> length P \<le> cap \<Longrightarrow> wrote cap n Q (f (Some d) (length P))"
  shows "wrote cap n Q (write_then r f)"
proof (cases "length P \<le> cap")
  case True
  then show ?thesis using r f by (auto simp: wrote_def [of cap n P] write_then_def)
next
  case False
  then show ?thesis using r le by (auto simp: wrote_def write_then_def)
qed

lemma wrote_then_appends:
  "wrote cap n P r \<Longrightarrow> appends cap f xs \<Longrightarrow> cap \<le> n \<Longrightarrow> wrote cap n (P @ xs) (write_then r f)"
  by (rule wrote_then [of cap n P]) (auto intro: wrote_appends)

lemma wrote_start: "appends cap f xs \<Longrightarrow> cap \<le> length d \<Longrightarrow> wrote cap (length d) xs (f (Some d) 0)"
  using wrote_appends [of cap f xs "length d" d "[]"] by simp

interpretation stmtw: wire_sink "\<lambda>out cap off xs. mysql_stmt_emit out cap off (Some xs) (length xs)" "\<lambda>xs. xs"
  by unfold_locales (auto simp: appends_def mysql_stmt_emit_def)

interpretation stmtb: wire_sink mysql_stmt_emit_byte "\<lambda>b. [b]"
proof
  fix cap x
  show "appends cap (\<lambda>data off. mysql_stmt_emit_byte data cap off x) [x]"
    using stmtw.put_appends [of cap "[x]"] by (simp add: mysql_stmt_emit_byte_def)
qed

text \<open>A pointer with its size, as the bytes it covers; \<open>NULL\<close> is allowed for no bytes.\<close>

definition span :: "ptr \<Rightarrow> nat \<Rightarrow> bytes" where
  "span data sz = (case data of None \<Rightarrow> [] | Some x \<Rightarrow> take sz x)"

definition span_ok :: "ptr \<Rightarrow> nat \<Rightarrow> bool" where
  "span_ok data sz \<longleftrightarrow> sz \<le> SIZE_MAX \<and> (case data of None \<Rightarrow> sz = 0 | Some x \<Rightarrow> sz \<le> length x)"

lemma length_span [simp, byte_lengths]: "span_ok data sz \<Longrightarrow> length (span data sz) = sz"
  by (auto simp: span_def span_ok_def split: option.splits)

lemma emit_span_appends:
  "span_ok data sz \<Longrightarrow> appends cap (\<lambda>out off. mysql_stmt_emit out cap off data sz) (span data sz)"
  by (auto simp: appends_def mysql_stmt_emit_def span_def span_ok_def split: option.splits)

lemma emit_lenenc_appends:
  assumes "span_ok data sz"
  shows "appends cap (\<lambda>out off. mysql_stmt_emit_lenenc_bytes out cap off data sz) (lenenc_bytes (span data sz))"
  using appends_then [OF lenw.put_appends emit_span_appends [OF assms], of cap "of_nat sz"] assms
  by (simp add: mysql_stmt_emit_lenenc_bytes_def lenenc_bytes_def)


section \<open>The payload of each command\<close>

definition query_payload :: "bytes \<Rightarrow> bytes" where
  "query_payload sql = MYSQL_COM_QUERY # sql"

definition prepare_payload :: "bytes \<Rightarrow> bytes" where
  "prepare_payload sql = MYSQL_COM_STMT_PREPARE # sql"

definition close_payload :: "u32 \<Rightarrow> bytes" where
  "close_payload sid = MYSQL_COM_STMT_CLOSE # u32_bytes sid"

definition reset_payload :: "u32 \<Rightarrow> bytes" where
  "reset_payload sid = MYSQL_COM_STMT_RESET # u32_bytes sid"

fun stmt_value_bytes :: "mysql_stmt_value \<Rightarrow> bytes" where
  "stmt_value_bytes (MYSQL_STMT_VALUE_SINT64 v) = u64_bytes v"
| "stmt_value_bytes (MYSQL_STMT_VALUE_UINT64 v) = u64_bytes v"
| "stmt_value_bytes (MYSQL_STMT_VALUE_DOUBLE v) = u64_bytes v"
| "stmt_value_bytes (MYSQL_STMT_VALUE_BOOL b) = [b]"
| "stmt_value_bytes (MYSQL_STMT_VALUE_TEXT data sz) = lenenc_bytes (span data sz)"
| "stmt_value_bytes (MYSQL_STMT_VALUE_BLOB data sz) = lenenc_bytes (span data sz)"
| "stmt_value_bytes _ = []"

fun stmt_value_ok :: "mysql_stmt_value \<Rightarrow> bool" where
  "stmt_value_ok (MYSQL_STMT_VALUE_BOOL b) \<longleftrightarrow> b \<le> 1"
| "stmt_value_ok (MYSQL_STMT_VALUE_TEXT data sz) \<longleftrightarrow> span_ok data sz"
| "stmt_value_ok (MYSQL_STMT_VALUE_BLOB data sz) \<longleftrightarrow> span_ok data sz"
| "stmt_value_ok MYSQL_STMT_VALUE_OTHER \<longleftrightarrow> False"
| "stmt_value_ok _ \<longleftrightarrow> True"

definition stmt_type_bytes :: "mysql_stmt_value \<Rightarrow> bytes" where
  "stmt_type_bytes v = (case mysql_stmt_value_type v of Inl _ \<Rightarrow> [] | Inr (type, flags) \<Rightarrow> [type, flags])"

text \<open>The bitmap after marking the elements that satisfy \<open>P\<close>, the first of them at bit \<open>i\<close>.\<close>

fun mark_nulls :: "('a \<Rightarrow> bool) \<Rightarrow> nat \<Rightarrow> 'a list \<Rightarrow> bytes \<Rightarrow> bytes" where
  "mark_nulls P i [] bm = bm"
| "mark_nulls P i (v # vs) bm = mark_nulls P (i + 1) vs (if P v then set_null_bit 0 i bm else bm)"

definition null_bitmap :: "mysql_stmt_value list \<Rightarrow> bytes" where
  "null_bitmap vs = mark_nulls (\<lambda>v. v = MYSQL_STMT_VALUE_NULL) 0 vs (replicate ((length vs + 7) div 8) 0)"

definition execute_header :: "u32 \<Rightarrow> bytes" where
  "execute_header sid = MYSQL_COM_STMT_EXECUTE # u32_bytes sid @ 0 # u32_bytes 1"

definition execute_payload :: "u32 \<Rightarrow> mysql_stmt_value list \<Rightarrow> bytes" where
  "execute_payload sid vs = execute_header sid @ null_bitmap vs @
     (if vs = [] then [] else 1 # concat (map stmt_type_bytes vs) @ concat (map stmt_value_bytes vs))"

lemma stmt_value_ok_type: "stmt_value_ok v \<Longrightarrow> \<exists>ty fl. mysql_stmt_value_type v = Inr (ty, fl)"
  by (cases v) (auto simp: span_ok_def not_less split: option.splits)

lemma length_stmt_type_bytes: "stmt_value_ok v \<Longrightarrow> length (stmt_type_bytes v) = 2"
  using stmt_value_ok_type [of v] by (auto simp: stmt_type_bytes_def)

lemma length_set_null_bit [simp]: "length (set_null_bit base i d) = length d"
  by (simp add: set_null_bit_def)

lemma length_mark_nulls [simp]: "length (mark_nulls P i vs bm) = length bm"
  by (induction vs arbitrary: i bm) simp_all

lemma length_null_bitmap [simp, byte_lengths]: "length (null_bitmap vs) = (length vs + 7) div 8"
  by (simp add: null_bitmap_def)

lemma length_execute_header [simp, byte_lengths]: "length (execute_header sid) = 10"
  by (simp add: execute_header_def)

lemma emit_value_appends: "stmt_value_ok v \<Longrightarrow> appends cap (\<lambda>out off. mysql_stmt_emit_value out cap off v) (stmt_value_bytes v)"
  by (cases v) (auto intro: u64w.put_appends stmtb.put_appends emit_lenenc_appends simp: appends_def [of cap _ "[]"])

lemma emit_values_appends:
  "list_all stmt_value_ok vs \<Longrightarrow> appends cap (emit_values cap vs) (concat (map stmt_value_bytes vs))"
proof (induction vs)
  case Nil
  then show ?case by (simp add: appends_def)
next
  case (Cons v vs)
  then show ?case
    using appends_then [OF emit_value_appends [of v cap] Cons(1)] by simp
qed


text \<open>The type loop: after the payload \<open>A @ bm @ B\<close>, with the bitmap \<open>bm\<close>, it appends the types and marks the nulls.\<close>

lemma set_null_bit_append: "i div 8 < length bm \<Longrightarrow> set_null_bit (length A) i (A @ bm @ B) = A @ set_null_bit 0 i bm @ B"
  by (simp add: set_null_bit_def list_update_append nth_append)

lemma take_set_null_bit: "base + i div 8 < k \<Longrightarrow> take k (set_null_bit base i d) = set_null_bit base i (take k d)"
  by (simp add: set_null_bit_def take_update_swap)

lemma emit_types_wrote:
  assumes "list_all stmt_value_ok vs" and "(i + length vs + 7) div 8 \<le> length bm"
    and "cap \<le> n" and "length d = n" and "take (length (A @ bm @ B)) d = A @ bm @ B" and "length (A @ bm @ B) \<le> cap"
  shows "wrote cap n (A @ mark_nulls (\<lambda>v. v = MYSQL_STMT_VALUE_NULL) i vs bm @ B @ concat (map stmt_type_bytes vs))
           (emit_types cap (length A) i vs (Some d) (length (A @ bm @ B)))"
  using assms
proof (induction vs arbitrary: i bm B d)
  case Nil
  then show ?case by (simp add: wrote_def)
next
  case (Cons v vs)
  let ?P = "A @ bm @ B"
  let ?bm = "if v = MYSQL_STMT_VALUE_NULL then set_null_bit 0 i bm else bm"
  obtain ty fl where ty: "mysql_stmt_value_type v = Inr (ty, fl)" using stmt_value_ok_type [of v] Cons(2) by auto
  have tb: "stmt_type_bytes v = [ty, fl]" by (simp add: stmt_type_bytes_def ty)
  have ib: "i div 8 < length bm"
    using bitmap_index [of i "i + length (v # vs)"] Cons(3) by simp
  define step where "step out off = emit_types cap (length A) (i + 1) vs
      (if v = MYSQL_STMT_VALUE_NULL then map_option (set_null_bit (length A) i) out else out) off" for out off
  have bytes: "wrote cap n (?P @ [ty, fl]) (write_then (mysql_stmt_emit_byte (Some d) cap (length ?P) ty)
      (\<lambda>out off. mysql_stmt_emit_byte out cap off fl))"
    using wrote_appends [OF appends_then [OF stmtb.put_appends stmtb.put_appends] Cons(4-7), of ty fl] by simp
  have assoc: "emit_types cap (length A) i (v # vs) (Some d) (length ?P) =
      write_then (write_then (mysql_stmt_emit_byte (Some d) cap (length ?P) ty)
        (\<lambda>out off. mysql_stmt_emit_byte out cap off fl)) step"
    by (simp add: ty write_then_def step_def split: prod.splits)
  show ?case
    unfolding assoc
  proof (rule wrote_then [OF bytes])
    show "length (?P @ [ty, fl]) \<le> length (A @ mark_nulls (\<lambda>v. v = MYSQL_STMT_VALUE_NULL) i (v # vs) bm @ B @ concat (map stmt_type_bytes (v # vs)))"
      by (simp add: tb)
  next
    fix d' :: bytes
    assume d': "length d' = n" "take (length (?P @ [ty, fl])) d' = ?P @ [ty, fl]" "length (?P @ [ty, fl]) \<le> cap"
    let ?d = "if v = MYSQL_STMT_VALUE_NULL then set_null_bit (length A) i d' else d'"
    have tk: "take (length (A @ ?bm @ B @ [ty, fl])) ?d = A @ ?bm @ B @ [ty, fl]"
      using d'(2) ib take_set_null_bit [of "length A" i "length (?P @ [ty, fl])" d']
        set_null_bit_append [OF ib, of A "B @ [ty, fl]"]
      by (auto simp: ac_simps)
    have "wrote cap n (A @ mark_nulls (\<lambda>v. v = MYSQL_STMT_VALUE_NULL) (i + 1) vs ?bm @ (B @ [ty, fl]) @ concat (map stmt_type_bytes vs))
       (emit_types cap (length A) (i + 1) vs (Some ?d) (length (A @ ?bm @ B @ [ty, fl])))"
      using Cons(2-4) d' tk by (intro Cons(1)) auto
    then show "wrote cap n (A @ mark_nulls (\<lambda>v. v = MYSQL_STMT_VALUE_NULL) i (v # vs) bm @ B @ concat (map stmt_type_bytes (v # vs)))
         (step (Some d') (length (?P @ [ty, fl])))"
      by (auto simp: step_def tb)
  qed
qed

lemma bit_set_null_bit:
  assumes "i div 8 < length bm"
  shows "bit (set_null_bit 0 i bm ! (j div 8)) (j mod 8) \<longleftrightarrow> j = i \<or> bit (bm ! (j div 8)) (j mod 8)"
proof (cases "j div 8 = i div 8")
  case True
  have "j mod 8 = i mod 8 \<longleftrightarrow> j = i" using True by (metis div_mult_mod_eq)
  moreover have "j mod 8 < 8" by simp
  ultimately show ?thesis
    using True assms by (auto simp: set_null_bit_def bit_simps)
next
  case False
  then show ?thesis by (auto simp: set_null_bit_def)
qed

lemma bit_mark_nulls:
  assumes "(i + length vs + 7) div 8 \<le> length bm"
  shows "bit (mark_nulls P i vs bm ! (j div 8)) (j mod 8) \<longleftrightarrow>
     (i \<le> j \<and> j < i + length vs \<and> P (vs ! (j - i))) \<or> bit (bm ! (j div 8)) (j mod 8)"
  using assms
proof (induction vs arbitrary: i bm)
  case (Cons v vs)
  have ib: "i div 8 < length bm"
    using bitmap_index [of i "i + length (v # vs)"] Cons(2) by simp
  have "bit (mark_nulls P i (v # vs) bm ! (j div 8)) (j mod 8) \<longleftrightarrow>
     (i + 1 \<le> j \<and> j < i + 1 + length vs \<and> P (vs ! (j - (i + 1)))) \<or>
     (j = i \<and> P v) \<or> bit (bm ! (j div 8)) (j mod 8)"
    using Cons(1) [of "i + 1"] Cons(2) bit_set_null_bit [OF ib] by auto
  also have "\<dots> \<longleftrightarrow> (i \<le> j \<and> j < i + length (v # vs) \<and> P ((v # vs) ! (j - i))) \<or>
     bit (bm ! (j div 8)) (j mod 8)"
    by (cases "j = i") (auto simp: nth_Cons')
  finally show ?case .
qed auto

text \<open>A bit of the bitmap is set exactly for the null parameters; the unused bits of the last byte are clear.\<close>

lemma bit_null_bitmap:
  assumes "j div 8 < (length vs + 7) div 8"
  shows "bit (null_bitmap vs ! (j div 8)) (j mod 8) \<longleftrightarrow> j < length vs \<and> vs ! j = MYSQL_STMT_VALUE_NULL"
  using bit_mark_nulls [of 0 vs "replicate ((length vs + 7) div 8) 0" _ j] assms by (simp add: null_bitmap_def)


section \<open>The builders write their payloads\<close>

lemma build_quit_builds: "cap \<le> length d \<Longrightarrow> builds cap (length d) [MYSQL_COM_QUIT] (mysql_wire_build_quit (Some d) cap)"
  by (cases d) (auto simp: builds_def mysql_wire_build_quit_def)

lemma build_query_builds:
  assumes "cap \<le> length d" and "cap \<le> SIZE_MAX" and "sql \<noteq> []"
  shows "builds cap (length d) (query_payload sql) (mysql_wire_build_query (Some sql) (length sql) (Some d) cap)"
proof (cases "length sql + 1 \<le> cap")
  case True
  then have "\<not> length sql > SIZE_MAX - 1" using assms(2) by (simp add: SIZE_MAX_def)
  moreover have "memcpy (d[0 := MYSQL_COM_QUERY]) 1 sql = memcpy d 0 (MYSQL_COM_QUERY # sql)"
    using True assms(1) by (cases d) (simp_all add: memcpy_def)
  ultimately show ?thesis
    using True assms take_memcpy [of 0 d "MYSQL_COM_QUERY # sql"]
    by (simp add: builds_def mysql_wire_build_query_def query_payload_def)
next
  case False
  then show ?thesis using assms by (simp add: builds_def mysql_wire_build_query_def query_payload_def)
qed

lemma build_prepare_builds:
  assumes "cap \<le> length d" and "sql \<noteq> []"
  shows "builds cap (length d) (prepare_payload sql) (mysql_wire_build_stmt_prepare (Some sql) (length sql) (Some d) cap)"
  using wrote_finish [OF wrote_start [OF appends_then [OF stmtb.put_appends stmtw.put_appends] assms(1)],
      of MYSQL_COM_STMT_PREPARE sql] assms(2)
  by (simp add: mysql_wire_build_stmt_prepare_def prepare_payload_def)

lemma build_close_builds:
  "cap \<le> length d \<Longrightarrow> builds cap (length d) (close_payload sid) (mysql_wire_build_stmt_close sid (Some d) cap)"
  using wrote_finish [OF wrote_start [OF appends_then [OF stmtb.put_appends u32w.put_appends]],
      of cap d MYSQL_COM_STMT_CLOSE sid]
  by (simp add: mysql_wire_build_stmt_close_def close_payload_def)

lemma build_reset_builds:
  "cap \<le> length d \<Longrightarrow> sid \<noteq> 0 \<Longrightarrow> builds cap (length d) (reset_payload sid) (mysql_wire_build_stmt_reset sid (Some d) cap)"
  using wrote_finish [OF wrote_start [OF appends_then [OF stmtb.put_appends u32w.put_appends]],
      of cap d MYSQL_COM_STMT_RESET sid]
  by (simp add: mysql_wire_build_stmt_reset_def reset_payload_def)

text \<open>EXECUTE, part by part.\<close>

lemma emit_header_appends:
  "appends cap (\<lambda>out off. write_then (mysql_stmt_emit_byte out cap off MYSQL_COM_STMT_EXECUTE) (\<lambda>out off.
     write_then (mysql_wire_write_u32_le out cap off sid) (\<lambda>out off.
     write_then (mysql_stmt_emit_byte out cap off 0) (\<lambda>out off. mysql_wire_write_u32_le out cap off 1))))
   (execute_header sid)"
  using appends_then [OF stmtb.put_appends appends_then [OF u32w.put_appends appends_then [OF stmtb.put_appends u32w.put_appends]],
      of cap MYSQL_COM_STMT_EXECUTE sid 0 1]
  by (simp add: execute_header_def)

lemma bitmap_appends:
  "appends cap (\<lambda>out off. if k \<noteq> 0 then
      (if off > cap \<or> cap - off < k then (MYSQL_WIRE_STATUS_LIMIT, out, off)
       else (MYSQL_WIRE_STATUS_OK, map_option (\<lambda>d. memcpy d off (replicate k 0)) out, off + k))
      else (MYSQL_WIRE_STATUS_OK, out, off)) (replicate k 0)"
  by (auto simp: appends_def)

lemma write_then_assoc: "write_then (write_then r f) g = write_then r (\<lambda>out off. write_then (f out off) g)"
  by (simp add: write_then_def split: prod.splits)

lemma build_execute_builds:
  assumes "cap \<le> length d" and "length vs \<le> 65535" and ok: "list_all stmt_value_ok vs"
  shows "builds cap (length d) (execute_payload sid vs) (mysql_wire_build_stmt_execute sid (Some vs) (length vs) (Some d) cap)"
proof -
  let ?k = "(length vs + 7) div 8" and ?n = "length d" and ?H = "execute_header sid"
  let ?tail = "\<lambda>out off. if length vs \<noteq> 0 then
             write_then (mysql_stmt_emit_byte out cap off 1) (\<lambda>out off.
             write_then (emit_types cap (length ?H) 0 vs out off) (emit_values cap vs))
           else (MYSQL_WIRE_STATUS_OK, out, off)"
  define bitmap where "bitmap out off =
     (if ?k \<noteq> 0 then
        (if off > cap \<or> cap - off < ?k then (MYSQL_WIRE_STATUS_LIMIT, out, off)
         else (MYSQL_WIRE_STATUS_OK, map_option (\<lambda>d. memcpy d off (replicate ?k 0)) out, off + ?k))
      else (MYSQL_WIRE_STATUS_OK, out, off))" for out :: ptr and off
  define hdr where "hdr = write_then (mysql_stmt_emit_byte (Some d) cap 0 MYSQL_COM_STMT_EXECUTE) (\<lambda>out off.
     write_then (mysql_wire_write_u32_le out cap off sid) (\<lambda>out off.
     write_then (mysql_stmt_emit_byte out cap off 0) (\<lambda>out off. mysql_wire_write_u32_le out cap off 1)))"
  have h: "wrote cap ?n ?H hdr"
    unfolding hdr_def using wrote_start [OF emit_header_appends assms(1)] .
  have tail: "wrote cap ?n (execute_payload sid vs) (?tail (Some d2) (length (?H @ replicate ?k 0)))"
    if "length d2 = ?n" "take (length (?H @ replicate ?k 0)) d2 = ?H @ replicate ?k 0" "length (?H @ replicate ?k 0) \<le> cap"
    for d2 :: bytes
  proof (cases "vs = []")
    case True
    then show ?thesis using that by (simp add: wrote_def execute_payload_def null_bitmap_def)
  next
    case False
    let ?P1 = "?H @ replicate ?k 0 @ [1]"
    have one: "wrote cap ?n ?P1 (mysql_stmt_emit_byte (Some d2) cap (length (?H @ replicate ?k 0)) 1)"
      using wrote_appends [OF stmtb.put_appends assms(1) that] by simp
    have types: "wrote cap ?n (?H @ null_bitmap vs @ [1] @ concat (map stmt_type_bytes vs))
        (emit_types cap (length ?H) 0 vs (Some d3) (length ?P1))"
      if "length d3 = ?n" "take (length ?P1) d3 = ?P1" "length ?P1 \<le> cap" for d3 :: bytes
      using emit_types_wrote [OF ok _ assms(1) that, of 0] by (simp add: null_bitmap_def)
    have "wrote cap ?n (execute_payload sid vs)
       (write_then (mysql_stmt_emit_byte (Some d2) cap (length (?H @ replicate ?k 0)) 1) (\<lambda>out off.
          write_then (emit_types cap (length ?H) 0 vs out off) (emit_values cap vs)))"
    proof (rule wrote_then [OF one])
      show "length ?P1 \<le> length (execute_payload sid vs)" using False by (simp add: execute_payload_def)
      show "wrote cap ?n (execute_payload sid vs)
          (write_then (emit_types cap (length ?H) 0 vs (Some d3) (length ?P1)) (emit_values cap vs))"
        if "length d3 = ?n" "take (length ?P1) d3 = ?P1" "length ?P1 \<le> cap" for d3 :: bytes
        using wrote_then_appends [OF types [OF that] emit_values_appends [OF ok] assms(1)] False
        by (simp add: execute_payload_def)
    qed
    then show ?thesis using False by simp
  qed
  have "wrote cap ?n (execute_payload sid vs)
      (write_then hdr (\<lambda>out off. write_then (bitmap out off) (\<lambda>out off'. if length vs \<noteq> 0 then
             write_then (mysql_stmt_emit_byte out cap off' 1) (\<lambda>out off'.
             write_then (emit_types cap off 0 vs out off') (emit_values cap vs))
           else (MYSQL_WIRE_STATUS_OK, out, off'))))"
  proof (rule wrote_then [OF h])
    show "length ?H \<le> length (execute_payload sid vs)" by (simp add: execute_payload_def)
    fix d1 :: bytes
    assume d1: "length d1 = ?n" "take (length ?H) d1 = ?H" "length ?H \<le> cap"
    have bm: "wrote cap ?n (?H @ replicate ?k 0) (bitmap (Some d1) (length ?H))"
      unfolding bitmap_def by (rule wrote_appends [OF bitmap_appends assms(1) d1])
    show "wrote cap ?n (execute_payload sid vs) (write_then (bitmap (Some d1) (length ?H)) ?tail)"
    proof (rule wrote_then [OF bm])
      show "length (?H @ replicate ?k 0) \<le> length (execute_payload sid vs)" by (simp add: execute_payload_def)
    qed (rule tail)
  qed
  from wrote_finish [OF this] show ?thesis
    using assms(2) by (simp add: mysql_wire_build_stmt_execute_def hdr_def bitmap_def write_then_assoc Let_def)
qed


section \<open>Properties\<close>

text \<open>
  EXECUTE is built exactly: for at most 65535 well-formed values the buffer starts with the
  header, a bitmap with one bit per null value, the type words and the encoded values, and the
  size is reported; when that exceeds the capacity the builder reports LIMIT and size 0.
\<close>

theorem stmt_execute_payload:
  assumes "cap \<le> length d" and "length vs \<le> 65535" and "list_all stmt_value_ok vs"
  shows "if length (execute_payload sid vs) \<le> cap
         then \<exists>d'. mysql_wire_build_stmt_execute sid (Some vs) (length vs) (Some d) cap =
                (MYSQL_WIRE_STATUS_OK, Some d', Some (length (execute_payload sid vs))) \<and>
              length d' = length d \<and> take (length (execute_payload sid vs)) d' = execute_payload sid vs
         else \<exists>d'. mysql_wire_build_stmt_execute sid (Some vs) (length vs) (Some d) cap =
                (MYSQL_WIRE_STATUS_LIMIT, Some d', Some 0) \<and> length d' = length d"
  using build_execute_builds [OF assms, of sid] by (simp add: builds_def)

theorem stmt_execute_payload_witness:
  "\<exists>d'. mysql_wire_build_stmt_execute 7 (Some [MYSQL_STMT_VALUE_NULL, MYSQL_STMT_VALUE_BOOL 1]) 2 (Some (replicate 20 0)) 20 =
     (MYSQL_WIRE_STATUS_OK, Some d', Some 17) \<and>
     take 17 d' = [0x17, 7, 0, 0, 0, 0, 1, 0, 0, 0, 1, 1, 6, 0, 1, 0, 1]"
proof -
  let ?vs = "[MYSQL_STMT_VALUE_NULL, MYSQL_STMT_VALUE_BOOL 1]"
  have p: "execute_payload 7 ?vs = [0x17, 7, 0, 0, 0, 0, 1, 0, 0, 0, 1, 1, 6, 0, 1, 0, 1]" by code_simp
  have n: "length ?vs = 2" and len: "length (execute_payload 7 ?vs) = 17" by (simp_all add: p)
  show ?thesis
    using stmt_execute_payload [of 20 "replicate 20 0" ?vs 7, unfolded n len] by (auto simp: p)
qed

end
