(* ===== verification/Turbodb_Types.thy ===== *)
theory Turbodb_Types
  imports Prelude
begin

unbundle bit_operations_syntax

text \<open>
  The shared value and status types, \<open>src/include/turbodb/types.h\<close>, and what the code uses of the
  IEEE-754 formats: a \<open>double\<close> is its 64-bit pattern and a \<open>float\<close> its 32-bit pattern, as the code
  itself moves them with \<open>memcpy\<close>.

  The kind of a value and the active member of its union are one constructor of
  \<open>turbodb_value_data\<close>; a kind outside the enum is \<open>TURBODB_VALUE_OTHER\<close>.  Signed integers are kept
  in the word of their width and read with \<open>sint\<close>.
\<close>

section \<open>Status and value types\<close>

datatype turbodb_status =
    TURBODB_STATUS_OK
  | TURBODB_STATUS_INVALID_ARGUMENT
  | TURBODB_STATUS_ABI_MISMATCH
  | TURBODB_STATUS_OUT_OF_MEMORY
  | TURBODB_STATUS_CONNECTION_ERROR
  | TURBODB_STATUS_SQL_ERROR
  | TURBODB_STATUS_TYPE_ERROR
  | TURBODB_STATUS_OUT_OF_RANGE
  | TURBODB_STATUS_LIMIT_EXCEEDED
  | TURBODB_STATUS_INVALID_STATE
  | TURBODB_STATUS_NULL_VALUE
  | TURBODB_STATUS_INTERNAL_ERROR
  | TURBODB_STATUS_BUSY
  | TURBODB_STATUS_UNSUPPORTED
  | TURBODB_STATUS_DATASTORE_ERROR
  | TURBODB_STATUS_CONSTRAINT
  | TURBODB_STATUS_COMMIT_UNKNOWN
  | TURBODB_STATUS_CLEANUP_FAILED

type_synonym i64 = "64 word"
type_synonym f64 = "64 word"
type_synonym f32 = "32 word"

datatype turbodb_value_data =
    TURBODB_VALUE_NULL
  | TURBODB_VALUE_INT64 i64
  | TURBODB_VALUE_UINT64 u64
  | TURBODB_VALUE_DOUBLE f64
  | TURBODB_VALUE_BOOLEAN u8
  | TURBODB_VALUE_TEXT ptr nat
  | TURBODB_VALUE_BLOB ptr nat
  | TURBODB_VALUE_OTHER

record turbodb_value =
  tv_data :: turbodb_value_data
  tv_reserved :: u32

definition turbodb_null :: turbodb_value where
  "turbodb_null = \<lparr>tv_data = TURBODB_VALUE_NULL, tv_reserved = 0\<rparr>"

definition turbodb_i64 :: "i64 \<Rightarrow> turbodb_value" where
  "turbodb_i64 input = \<lparr>tv_data = TURBODB_VALUE_INT64 input, tv_reserved = 0\<rparr>"

definition turbodb_u64 :: "u64 \<Rightarrow> turbodb_value" where
  "turbodb_u64 input = \<lparr>tv_data = TURBODB_VALUE_UINT64 input, tv_reserved = 0\<rparr>"

definition turbodb_f64 :: "f64 \<Rightarrow> turbodb_value" where
  "turbodb_f64 input = \<lparr>tv_data = TURBODB_VALUE_DOUBLE input, tv_reserved = 0\<rparr>"

definition turbodb_bool :: "u8 \<Rightarrow> turbodb_value" where
  "turbodb_bool input = \<lparr>tv_data = TURBODB_VALUE_BOOLEAN (if input \<noteq> 0 then 1 else 0), tv_reserved = 0\<rparr>"

definition turbodb_text_v :: "ptr \<Rightarrow> nat \<Rightarrow> turbodb_value" where
  "turbodb_text_v data sz = \<lparr>tv_data = TURBODB_VALUE_TEXT data sz, tv_reserved = 0\<rparr>"

definition turbodb_blob :: "ptr \<Rightarrow> nat \<Rightarrow> turbodb_value" where
  "turbodb_blob data sz = \<lparr>tv_data = TURBODB_VALUE_BLOB data sz, tv_reserved = 0\<rparr>"

lemmas turbodb_value_defs = turbodb_null_def turbodb_i64_def turbodb_u64_def turbodb_f64_def turbodb_bool_def
  turbodb_text_v_def turbodb_blob_def


section \<open>IEEE-754 patterns\<close>

definition f64_exponent :: "f64 \<Rightarrow> nat" where
  "f64_exponent w = unat (take_bit 11 (drop_bit 52 w))"

definition f64_mantissa :: "f64 \<Rightarrow> nat" where
  "f64_mantissa w = unat (take_bit 52 w)"

definition f32_exponent :: "f32 \<Rightarrow> nat" where
  "f32_exponent w = unat (take_bit 8 (drop_bit 23 w))"

definition f32_mantissa :: "f32 \<Rightarrow> nat" where
  "f32_mantissa w = unat (take_bit 23 w)"

definition f64_isfinite :: "f64 \<Rightarrow> bool" where
  "f64_isfinite w \<longleftrightarrow> f64_exponent w \<noteq> 0x7ff"

definition f32_isfinite :: "f32 \<Rightarrow> bool" where
  "f32_isfinite w \<longleftrightarrow> f32_exponent w \<noteq> 0xff"

text \<open>The number a finite pattern denotes, in units of the smallest positive double, \<open>2 ^ -1074\<close>.\<close>

definition f64_scaled :: "f64 \<Rightarrow> int" where
  "f64_scaled w =
     (let e = f64_exponent w; m = f64_mantissa w;
          v = int (if e = 0 then m else (2 ^ 52 + m) * 2 ^ (e - 1))
      in if bit w 63 then - v else v)"

text \<open>The same for a float, in units of \<open>2 ^ -149\<close>.\<close>

definition f32_scaled :: "f32 \<Rightarrow> int" where
  "f32_scaled w =
     (let e = f32_exponent w; m = f32_mantissa w;
          v = int (if e = 0 then m else (2 ^ 23 + m) * 2 ^ (e - 1))
      in if bit w 31 then - v else v)"

text \<open>A double from its sign, exponent and mantissa fields.\<close>

definition f64_make :: "bool \<Rightarrow> nat \<Rightarrow> nat \<Rightarrow> f64" where
  "f64_make s e m = of_nat ((if s then 2 ^ 63 else 0) + e * 2 ^ 52 + m)"

text \<open>The index of the highest set bit of a positive number below \<open>2 ^ Suc k\<close>.\<close>

primrec highest_bit :: "nat \<Rightarrow> nat \<Rightarrow> nat" where
  "highest_bit 0 m = 0"
| "highest_bit (Suc k) m = (if 2 ^ Suc k \<le> m then Suc k else highest_bit k m)"

text \<open>
  The conversion of a float to double.  It is exact on finite values: a subnormal float is
  normalised, the exponent is rebiased and the mantissa extended.  An infinity stays one, and a NaN
  keeps its payload and becomes quiet, as the conversion instructions do.
\<close>

definition f32_to_f64 :: "f32 \<Rightarrow> f64" where
  "f32_to_f64 w =
     (let s = bit w 31; e = f32_exponent w; m = f32_mantissa w in
      if e = 0 then
        (if m = 0 then f64_make s 0 0
         else let k = highest_bit 22 m in f64_make s (k + 874) ((m - 2 ^ k) * 2 ^ (52 - k)))
      else if e = 0xff then
        f64_make s 0x7ff (if m = 0 then 0 else m mod 2 ^ 22 * 2 ^ 29 + 2 ^ 51)
      else f64_make s (e + 896) (m * 2 ^ 29))"

lemma f64_exponent_nat: "f64_exponent w = unat w div 2 ^ 52 mod 2 ^ 11"
  unfolding f64_exponent_def unsigned_take_bit_eq unsigned_drop_bit_eq 
  by (simp only: drop_bit_eq_div take_bit_eq_mod mod_less unsigned_less)

lemma f64_mantissa_nat: "f64_mantissa w = unat w mod 2 ^ 52"
  unfolding f64_mantissa_def unsigned_take_bit_eq by (simp only: take_bit_eq_mod)

lemma f32_exponent_bound: "f32_exponent w < 2 ^ 8"
  unfolding f32_exponent_def unsigned_take_bit_eq by (rule take_bit_nat_less_exp)

lemma f32_mantissa_bound: "f32_mantissa w < 2 ^ 23"
  unfolding f32_mantissa_def unsigned_take_bit_eq by (rule take_bit_nat_less_exp)

lemma f64_make_fields:
  assumes e: "e < 2 ^ 11" and m: "m < 2 ^ 52"
  shows "f64_exponent (f64_make s e m) = e" and "f64_mantissa (f64_make s e m) = m" and "bit (f64_make s e m) 63 = s"
proof -
  define n where "n = (if s then 2 ^ 63 else 0) + e * 2 ^ 52 + m"
  have em: "e * 2 ^ 52 + m < 2 ^ 63"
  proof -
    have "e * 2 ^ 52 + m < (e + 1) * 2 ^ 52" using m by simp
    also have "\<dots> \<le> 2 ^ 11 * 2 ^ 52" using e by (intro mult_right_mono) simp_all
    finally show ?thesis by simp
  qed
  then have n: "n < 2 ^ 64" by (simp add: n_def)
  have u: "unat (f64_make s e m) = n"
    using n unfolding f64_make_def n_def [symmetric] by (simp add: unsigned_of_nat take_bit_nat_eq_self)
  let ?hi = "(if s then 2 ^ 11 else 0) + e"
  have split: "n = m + ?hi * 2 ^ 52" by (simp add: n_def)
  have div52: "n div 2 ^ 52 = ?hi" and mod52: "n mod 2 ^ 52 = m"
    using m unfolding split by (simp_all only: div_mult_self1 mod_mult_self1 div_less mod_less)
  show "f64_exponent (f64_make s e m) = e"
    using e div52 u
    by (simp add: f64_exponent_nat)
  show "f64_mantissa (f64_make s e m) = m"
    using mod52 u by (simp add: f64_mantissa_nat)
  have "bit (f64_make s e m) 63 \<longleftrightarrow> bit (unat (f64_make s e m)) 63" by (simp add: bit_unsigned_iff)
  also have "\<dots> \<longleftrightarrow> odd (n div 2 ^ 63)" unfolding u by (rule bit_iff_odd)
  also have "\<dots> \<longleftrightarrow> s"
  proof (cases s)
    case True
    then have "n = e * 2 ^ 52 + m + 1 * 2 ^ 63" by (simp add: n_def)
    then have "n div 2 ^ 63 = 1" using em by (simp only: div_mult_self1 div_less)
    then show ?thesis using True by simp
  next
    case False
    then have "n div 2 ^ 63 = 0" using em by (simp add: n_def)
    then show ?thesis using False by simp
  qed
  finally show "bit (f64_make s e m) 63 = s" .
qed

lemma highest_bit_bounds: "0 < m \<Longrightarrow> m < 2 ^ Suc k \<Longrightarrow> highest_bit k m \<le> k \<and> 2 ^ highest_bit k m \<le> m \<and> m < 2 ^ Suc (highest_bit k m)"
proof (induction k)
  case (Suc k)
  then show ?case by (cases "2 ^ Suc k \<le> m") auto
qed simp

text \<open>The conversion is exact: the double denotes the number the float denotes.\<close>

lemma f32_to_f64_exact:
  assumes "f32_isfinite w"
  shows "f64_isfinite (f32_to_f64 w) \<and> f64_scaled (f32_to_f64 w) = f32_scaled w * 2 ^ 925"
proof -
  let ?s = "bit w 31" and ?e = "f32_exponent w" and ?m = "f32_mantissa w"
  have m: "?m < 2 ^ 23" by (rule f32_mantissa_bound)
  have e: "?e < 255" using f32_exponent_bound [of w] assms by (simp add: f32_isfinite_def)
  show ?thesis
  proof (cases "?e = 0")
    case e0: True
    show ?thesis
    proof (cases "?m = 0")
      case True
      then have "f32_to_f64 w = f64_make ?s 0 0" using e0 by (simp add: f32_to_f64_def)
      moreover have "f32_scaled w = 0" using True e0 by (simp add: f32_scaled_def)
      ultimately show ?thesis
        using f64_make_fields [of 0 0 ?s] by (simp add: f64_scaled_def f64_isfinite_def)
    next
      case False
      define k where "k = highest_bit 22 ?m"
      define r where "r = (?m - 2 ^ k) * 2 ^ (52 - k)"
      have k: "k \<le> 22" "2 ^ k \<le> ?m" "?m < 2 ^ Suc k"
        using highest_bit_bounds [of ?m 22] False m by (auto simp: k_def)
      have p: "(2 :: nat) ^ k * 2 ^ (52 - k) = 2 ^ 52"
        using k(1) by (subst power_add [symmetric]) simp
      have "?m - 2 ^ k < 2 ^ k" using k by simp
      then have "r < 2 ^ k * 2 ^ (52 - k)" unfolding r_def by simp
      then have r: "r < 2 ^ 52" unfolding p .
      have "f32_to_f64 w = f64_make ?s (k + 874) r" using e0 False by (simp add: f32_to_f64_def k_def r_def Let_def)
      moreover have "k + 874 < 2 ^ 11" "k + 874 \<noteq> 0x7ff" using k by simp_all
      moreover have "(2 ^ 52 + r) * 2 ^ (k + 874 - 1) = ?m * 2 ^ 925"
      proof -
        have "2 ^ 52 + r = ?m * 2 ^ (52 - k)"
          using k(2) unfolding r_def p [symmetric] by (simp add: diff_mult_distrib)
        moreover have "(2 :: nat) ^ (52 - k) * 2 ^ (k + 874 - 1) = 2 ^ 925"
          using k(1) by (subst power_add [symmetric]) simp
        ultimately show ?thesis by (simp only: mult.assoc)
      qed
      ultimately show ?thesis
        using f64_make_fields [of "k + 874" r ?s] r e0
        by (auto simp: f64_scaled_def f32_scaled_def f64_isfinite_def Let_def simp flip: of_nat_mult of_nat_power)
    qed
  next
    case False
    have r: "?m * 2 ^ 29 < 2 ^ 52" using m by simp
    have "f32_to_f64 w = f64_make ?s (?e + 896) (?m * 2 ^ 29)" using False e by (simp add: f32_to_f64_def Let_def)
    moreover have "?e + 896 < 2 ^ 11" "?e + 896 \<noteq> 0x7ff" using e by simp_all
    moreover have "(2 ^ 52 + ?m * 2 ^ 29) * 2 ^ (?e + 896 - 1) = (2 ^ 23 + ?m) * 2 ^ (?e - 1) * 2 ^ 925"
    proof -
      have "2 ^ 52 + ?m * 2 ^ 29 = (2 ^ 23 + ?m) * (2 :: nat) ^ 29" by simp
      moreover have "(2 :: nat) ^ 29 * 2 ^ (?e + 896 - 1) = 2 ^ (?e - 1) * 2 ^ 925"
        using False by (simp only: power_add [symmetric]) simp
      ultimately show ?thesis by (simp only: mult.assoc)
    qed
    ultimately show ?thesis
      using f64_make_fields [of "?e + 896" "?m * 2 ^ 29" ?s] r False
      by (auto simp: f64_scaled_def f32_scaled_def f64_isfinite_def Let_def simp flip: of_nat_mult of_nat_power)
  qed
qed

end
