(* ===== verification/Server_Command.thy ===== *)
theory Server_Command
  imports Server_Frame Wire_Statement Turbodb_Types
begin

unbundle bit_operations_syntax

text \<open>
  The command decoder of the server, \<open>src/tidessql/server/mysql/command.c\<close>: it classifies a command
  payload and decodes the parameters of EXECUTE.

  The pointers and capacities of \<open>tdsql_mysql_execute_decode\<close> are explicit; the arrays it may write
  (the type cache and the values) and the validity flag are passed in and returned, so that what a
  failed call leaves in them is part of the model.

  The main result links the two ends of the protocol: what the client's builders of
  \<open>Wire_Statement\<close> write is decoded to the same statement and the same values.
\<close>

section \<open>Data\<close>

abbreviation (input) "TDSQL_MYSQL_QUIT \<equiv> 0x01 :: u8"
abbreviation (input) "TDSQL_MYSQL_QUERY \<equiv> 0x03 :: u8"
abbreviation (input) "TDSQL_MYSQL_PING \<equiv> 0x0e :: u8"
abbreviation (input) "TDSQL_MYSQL_EXECUTE_HEADER \<equiv> 10 :: nat"
abbreviation (input) "TDSQL_MYSQL_STATEMENT_COMMAND \<equiv> 5 :: nat"

record tdsql_mysql_command =
  cmd_kind :: u8
  cmd_statement_id :: u32
  cmd_sql :: mysql_wire_bytes
  cmd_payload :: mysql_wire_bytes

record execute_layout =
  lay_bitmap :: nat
  lay_types :: nat
  lay_values :: nat
  lay_new_types :: bool


section \<open>Operations\<close>

definition complete :: "mysql_wire_status \<Rightarrow> tdsql_mysql_status" where
  "complete status = (if status = MYSQL_WIRE_STATUS_NEED_MORE then TDSQL_MYSQL_INVALID else of_wire status)"

definition complete_read :: "'a wire_read \<Rightarrow> tdsql_mysql_status + ('a \<times> nat)" where
  "complete_read r = (case r of Inl status \<Rightarrow> Inl (complete status) | Inr x \<Rightarrow> Inr x)"

definition tdsql_mysql_command_decode :: "ptr \<Rightarrow> nat \<Rightarrow> nat \<Rightarrow> tdsql_mysql_status + tdsql_mysql_command" where
  "tdsql_mysql_command_decode data sz max_bytes =
     (case data of None \<Rightarrow> Inl TDSQL_MYSQL_INVALID
      | Some d0 \<Rightarrow>
        if sz = 0 \<or> max_bytes = 0 then Inl TDSQL_MYSQL_INVALID
        else if sz > max_bytes then Inl TDSQL_MYSQL_LIMIT
        else
          let d = take sz d0;
              kind = d ! 0;
              command = \<lparr>cmd_kind = kind, cmd_statement_id = 0, cmd_sql = wire_bytes_zero,
                         cmd_payload = \<lparr>wb_data = Some d, wb_length = sz, wb_is_null = False\<rparr>\<rparr>
          in if kind = TDSQL_MYSQL_QUERY \<or> kind = MYSQL_COM_STMT_PREPARE then
               (if sz = 1 \<or> 0 \<in> set (drop 1 d) then Inl TDSQL_MYSQL_INVALID
                else Inr (command\<lparr>cmd_sql := \<lparr>wb_data = Some (drop 1 d), wb_length = sz - 1, wb_is_null = False\<rparr>\<rparr>))
             else if kind = TDSQL_MYSQL_PING \<or> kind = TDSQL_MYSQL_QUIT then
               (if sz \<noteq> 1 then Inl TDSQL_MYSQL_INVALID else Inr command)
             else if kind = MYSQL_COM_STMT_EXECUTE \<or> kind = MYSQL_COM_STMT_CLOSE \<or> kind = MYSQL_COM_STMT_RESET then
               (if sz < (if kind = MYSQL_COM_STMT_EXECUTE then TDSQL_MYSQL_EXECUTE_HEADER else TDSQL_MYSQL_STATEMENT_COMMAND)
                then Inl TDSQL_MYSQL_INVALID
                else case complete_read (mysql_wire_read_u32_le (Some d) 1) of
                  Inl _ \<Rightarrow> Inl TDSQL_MYSQL_INVALID
                | Inr (statement_id, offset) \<Rightarrow>
                    if statement_id = 0 then Inl TDSQL_MYSQL_INVALID
                    else if kind = MYSQL_COM_STMT_EXECUTE then
                      (if d ! offset \<noteq> 0 then Inl TDSQL_MYSQL_UNSUPPORTED
                       else case complete_read (mysql_wire_read_u32_le (Some d) (offset + 1)) of
                         Inl _ \<Rightarrow> Inl TDSQL_MYSQL_INVALID
                       | Inr (iterations, _) \<Rightarrow>
                           if iterations \<noteq> 1 then Inl TDSQL_MYSQL_INVALID
                           else Inr (command\<lparr>cmd_statement_id := statement_id\<rparr>))
                    else if sz \<noteq> TDSQL_MYSQL_STATEMENT_COMMAND then Inl TDSQL_MYSQL_INVALID
                    else Inr (command\<lparr>cmd_statement_id := statement_id\<rparr>))
             else Inl TDSQL_MYSQL_UNSUPPORTED)"

definition parameter_type :: "u16 \<Rightarrow> tdsql_mysql_status" where
  "parameter_type type =
     (let flags = ucast (drop_bit 8 type) :: u8; kind = ucast type :: u8 in
      if flags \<noteq> 0 \<and> flags \<noteq> MYSQL_TYPE_UNSIGNED_FLAG then TDSQL_MYSQL_INVALID
      else if kind \<in> {MYSQL_TYPE_LONGLONG, MYSQL_FIELD_TYPE_LONG, MYSQL_FIELD_TYPE_INT24, MYSQL_FIELD_TYPE_SHORT,
                      MYSQL_TYPE_TINY} then TDSQL_MYSQL_OK
      else if kind \<in> {MYSQL_TYPE_DOUBLE, MYSQL_FIELD_TYPE_FLOAT, MYSQL_TYPE_NULL, MYSQL_TYPE_VAR_STRING,
                      MYSQL_FIELD_TYPE_STRING, MYSQL_FIELD_TYPE_VARCHAR, MYSQL_TYPE_BLOB, MYSQL_FIELD_TYPE_TINY_BLOB,
                      MYSQL_FIELD_TYPE_MEDIUM_BLOB, MYSQL_FIELD_TYPE_LONG_BLOB} then
        (if flags \<noteq> 0 then TDSQL_MYSQL_INVALID else TDSQL_MYSQL_OK)
      else TDSQL_MYSQL_UNSUPPORTED)"

text \<open>The value with the advanced offset and the bytes retained so far.\<close>

definition parameter_value ::
    "bytes \<Rightarrow> nat \<Rightarrow> u16 \<Rightarrow> nat \<Rightarrow> nat \<Rightarrow> tdsql_mysql_status + (turbodb_value \<times> nat \<times> nat)" where
  "parameter_value data offset type retained max_bytes =
     (let kind = ucast type :: u8; unsigned_value = drop_bit 8 type \<noteq> 0 in
      if kind = MYSQL_TYPE_NULL then Inr (turbodb_null, offset, retained)
      else if kind = MYSQL_TYPE_LONGLONG then
        and_then (complete_read (mysql_wire_read_u64_le (Some data) offset)) (\<lambda>(word, offset).
          Inr (if unsigned_value then turbodb_u64 word else turbodb_i64 word, offset, retained))
      else if kind = MYSQL_FIELD_TYPE_LONG \<or> kind = MYSQL_FIELD_TYPE_INT24 then
        and_then (complete_read (mysql_wire_read_u32_le (Some data) offset)) (\<lambda>(small, offset).
          Inr (if unsigned_value then turbodb_u64 (ucast small) else turbodb_i64 (scast small), offset, retained))
      else if kind = MYSQL_FIELD_TYPE_SHORT then
        and_then (complete_read (mysql_wire_read_u16_le (Some data) offset)) (\<lambda>(short_word, offset).
          Inr (if unsigned_value then turbodb_u64 (ucast short_word) else turbodb_i64 (scast short_word), offset, retained))
      else if kind = MYSQL_TYPE_TINY then
        (if offset \<ge> length data then Inl TDSQL_MYSQL_INVALID
         else let byte = data ! offset in
           Inr (if byte \<le> 1 \<and> \<not> unsigned_value then turbodb_bool byte
                else if unsigned_value then turbodb_u64 (ucast byte) else turbodb_i64 (scast byte), offset + 1, retained))
      else if kind = MYSQL_TYPE_DOUBLE then
        and_then (complete_read (mysql_wire_read_u64_le (Some data) offset)) (\<lambda>(word, offset).
          if \<not> f64_isfinite word then Inl TDSQL_MYSQL_INVALID else Inr (turbodb_f64 word, offset, retained))
      else if kind = MYSQL_FIELD_TYPE_FLOAT then
        and_then (complete_read (mysql_wire_read_u32_le (Some data) offset)) (\<lambda>(small, offset).
          if \<not> f32_isfinite small then Inl TDSQL_MYSQL_INVALID else Inr (turbodb_f64 (f32_to_f64 small), offset, retained))
      else
        and_then (complete_read (mysql_wire_read_lenenc_bytes (Some data) offset)) (\<lambda>(bytes, offset).
          if wb_is_null bytes then Inl TDSQL_MYSQL_INVALID
          else if retained > max_bytes \<or> wb_length bytes > max_bytes - retained then Inl TDSQL_MYSQL_LIMIT
          else
            let text = kind = MYSQL_TYPE_VAR_STRING \<or> kind = MYSQL_FIELD_TYPE_STRING \<or> kind = MYSQL_FIELD_TYPE_VARCHAR in
            Inr (if text then turbodb_text_v (wb_data bytes) (wb_length bytes)
                 else turbodb_blob (wb_data bytes) (wb_length bytes), offset, retained + wb_length bytes)))"

text \<open>With no parameters the layout is not assigned.\<close>

definition execute_layout_open :: "bytes \<Rightarrow> nat \<Rightarrow> bool \<Rightarrow> tdsql_mysql_status + execute_layout option" where
  "execute_layout_open data count valid =
     (let sz = length data; offset = TDSQL_MYSQL_EXECUTE_HEADER in
      if count = 0 then (if sz = offset then Inr None else Inl TDSQL_MYSQL_INVALID)
      else
        let bitmap = (count + 8 - 1) div 8 in
        if sz < offset \<or> bitmap \<ge> sz - offset then Inl TDSQL_MYSQL_INVALID
        else if count mod 8 \<noteq> 0 \<and> drop_bit (count mod 8) (data ! (offset + bitmap - 1)) \<noteq> 0 then Inl TDSQL_MYSQL_INVALID
        else
          let offset = offset + bitmap; new_types = data ! offset; offset = offset + 1 in
          if new_types > 1 then Inl TDSQL_MYSQL_INVALID
          else if new_types = 0 \<and> \<not> valid then Inl TDSQL_MYSQL_INVALID
          else if new_types \<noteq> 0 \<and> count > (sz - offset) div 2 then Inl TDSQL_MYSQL_INVALID
          else Inr (Some \<lparr>lay_bitmap = TDSQL_MYSQL_EXECUTE_HEADER, lay_types = offset,
                     lay_values = (if new_types \<noteq> 0 then offset + count * 2 else offset),
                     lay_new_types = (new_types \<noteq> 0)\<rparr>))"

definition execute_type :: "bytes \<Rightarrow> execute_layout \<Rightarrow> u16 list \<Rightarrow> nat \<Rightarrow> u16" where
  "execute_type data layout types index =
     (if \<not> lay_new_types layout then types ! index
      else let base = lay_types layout + index * 2 in
        ucast (data ! base) OR push_bit 8 (ucast (data ! (base + 1))))"

text \<open>The loop of \<open>execute_values\<close> from index \<open>i\<close>, with \<open>n\<close> parameters to go.\<close>

primrec execute_values_loop ::
    "nat \<Rightarrow> nat \<Rightarrow> bytes \<Rightarrow> u16 list \<Rightarrow> execute_layout \<Rightarrow> turbodb_value list option \<Rightarrow> nat \<Rightarrow> nat \<Rightarrow> nat \<Rightarrow>
     tdsql_mysql_status \<times> turbodb_value list option" where
  "execute_values_loop 0 i data types layout values max_bytes offset retained =
     (if offset = length data then TDSQL_MYSQL_OK else TDSQL_MYSQL_INVALID, values)"
| "execute_values_loop (Suc n) i data types layout values max_bytes offset retained =
     (let type = execute_type data layout types i; status = parameter_type type in
      if status \<noteq> TDSQL_MYSQL_OK then (status, values)
      else
        case (if bit (data ! (lay_bitmap layout + i div 8)) (i mod 8) then Inr (turbodb_null, offset, retained)
              else parameter_value data offset type retained max_bytes) of
          Inl status \<Rightarrow> (status, values)
        | Inr (value, offset, retained) \<Rightarrow>
            execute_values_loop n (i + 1) data types layout (map_option (\<lambda>vs. vs[i := value]) values)
              max_bytes offset retained)"

definition execute_values ::
    "bytes \<Rightarrow> nat \<Rightarrow> u16 list \<Rightarrow> execute_layout \<Rightarrow> turbodb_value list option \<Rightarrow> nat \<Rightarrow>
     tdsql_mysql_status \<times> turbodb_value list option" where
  "execute_values data count types layout values max_bytes =
     execute_values_loop count 0 data types layout values max_bytes (lay_values layout) 0"

text \<open>The status with the type cache, its validity and the values after the call.\<close>

definition tdsql_mysql_execute_decode ::
    "tdsql_mysql_command \<Rightarrow> nat \<Rightarrow> u16 list option \<Rightarrow> nat \<Rightarrow> bool \<Rightarrow> turbodb_value list option \<Rightarrow> nat \<Rightarrow> nat \<Rightarrow>
     tdsql_mysql_status \<times> u16 list option \<times> bool \<times> turbodb_value list option" where
  "tdsql_mysql_execute_decode command count types type_capacity valid values value_capacity max_bytes =
     (let fail = (\<lambda>status. (status, types, valid, values)) in
      if max_bytes = 0 \<or> (types = None \<and> count \<noteq> 0) \<or> (values = None \<and> count \<noteq> 0) then fail TDSQL_MYSQL_INVALID
      else if count > 65535 \<or> count > type_capacity \<or> count > value_capacity then fail TDSQL_MYSQL_LIMIT
      else
        case tdsql_mysql_command_decode (wb_data (cmd_payload command)) (wb_length (cmd_payload command))
               (wb_length (cmd_payload command)) of
          Inl status \<Rightarrow> fail status
        | Inr verified \<Rightarrow>
            if cmd_kind verified \<noteq> MYSQL_COM_STMT_EXECUTE \<or> cmd_statement_id verified \<noteq> cmd_statement_id command
            then fail TDSQL_MYSQL_INVALID
            else
              let data = (case wb_data (cmd_payload command) of None \<Rightarrow> [] | Some d \<Rightarrow> take (wb_length (cmd_payload command)) d);
                  cache = (case types of None \<Rightarrow> [] | Some t \<Rightarrow> t)
              in case execute_layout_open data count valid of
                Inl status \<Rightarrow> fail status
              | Inr None \<Rightarrow> fail TDSQL_MYSQL_OK
              | Inr (Some layout) \<Rightarrow>
                  let (status, _) = execute_values data count cache layout None max_bytes in
                  if status \<noteq> TDSQL_MYSQL_OK then fail status
                  else
                    let (status, values) = execute_values data count cache layout values max_bytes in
                    if status \<noteq> TDSQL_MYSQL_OK then (status, types, valid, values)
                    else (TDSQL_MYSQL_OK,
                          (if lay_new_types layout
                           then map_option (\<lambda>t. fold (\<lambda>i t. t[i := execute_type data layout cache i]) [0..<count] t) types
                           else types), True, values))"


section \<open>The commands of the client are recognised\<close>

lemma complete_read_simps [simp]:
  "complete_read (Inr x) = Inr x" "complete_read (Inl s) = Inl (complete s)"
  by (simp_all add: complete_read_def)

lemma command_decode_sql:
  assumes "kind = TDSQL_MYSQL_QUERY \<or> kind = MYSQL_COM_STMT_PREPARE" and "sql \<noteq> []" and "0 \<notin> set sql"
    and "length sql < max_bytes"
  shows "tdsql_mysql_command_decode (Some (kind # sql @ rest)) (Suc (length sql)) max_bytes =
     Inr \<lparr>cmd_kind = kind, cmd_statement_id = 0, cmd_sql = wire_bytes sql, cmd_payload = wire_bytes (kind # sql)\<rparr>"
  using assms by (auto simp: tdsql_mysql_command_decode_def wire_bytes_def Let_def)

lemma command_decode_statement:
  assumes "kind = MYSQL_COM_STMT_CLOSE \<or> kind = MYSQL_COM_STMT_RESET" and "sid \<noteq> 0" and "5 \<le> max_bytes"
  shows "tdsql_mysql_command_decode (Some (kind # u32_bytes sid @ rest)) 5 max_bytes =
     Inr \<lparr>cmd_kind = kind, cmd_statement_id = sid, cmd_sql = wire_bytes_zero, cmd_payload = wire_bytes (kind # u32_bytes sid)\<rparr>"
proof -
  have "mysql_wire_read_u32_le (Some (kind # u32_bytes sid)) 1 = Inr (sid, 5)"
    by (intro u32c.dec_seg segI [where pre = "[kind]" and post = "[]"]) simp_all
  then show ?thesis using assms by (auto simp: tdsql_mysql_command_decode_def wire_bytes_def Let_def)
qed

lemma command_decode_execute:
  assumes "sid \<noteq> 0" and "length (execute_header sid @ body) \<le> max_bytes"
  shows "tdsql_mysql_command_decode (Some ((execute_header sid @ body) @ rest)) (length (execute_header sid @ body)) max_bytes =
     Inr \<lparr>cmd_kind = MYSQL_COM_STMT_EXECUTE, cmd_statement_id = sid, cmd_sql = wire_bytes_zero,
          cmd_payload = wire_bytes (execute_header sid @ body)\<rparr>"
proof -
  let ?d = "execute_header sid @ body"
  have d: "?d = MYSQL_COM_STMT_EXECUTE # u32_bytes sid @ 0 # u32_bytes 1 @ body" by (simp add: execute_header_def)
  have r1: "mysql_wire_read_u32_le (Some ?d) 1 = Inr (sid, 5)"
    by (intro u32c.dec_seg segI [where pre = "[MYSQL_COM_STMT_EXECUTE]" and post = "0 # u32_bytes 1 @ body"]) (simp_all add: d)
  have r2: "mysql_wire_read_u32_le (Some ?d) 6 = Inr (1, 10)"
    by (intro u32c.dec_seg segI [where pre = "MYSQL_COM_STMT_EXECUTE # u32_bytes sid @ [0]" and post = body]) (simp_all add: d)
  have z: "?d ! 5 = 0" "?d ! 0 = MYSQL_COM_STMT_EXECUTE" unfolding d by (simp_all add: nth_append)
  have len: "length ?d = 10 + length body" by simp
  have "take (length ?d) (?d @ rest) = ?d" by simp
  then show ?thesis
    using assms r1 r2 z unfolding tdsql_mysql_command_decode_def Let_def len
    by (simp add: wire_bytes_def)
qed


section \<open>The parameters of the client are decoded\<close>

fun to_turbodb :: "mysql_stmt_value \<Rightarrow> turbodb_value" where
  "to_turbodb (MYSQL_STMT_VALUE_SINT64 v) = turbodb_i64 v"
| "to_turbodb (MYSQL_STMT_VALUE_UINT64 v) = turbodb_u64 v"
| "to_turbodb (MYSQL_STMT_VALUE_DOUBLE v) = turbodb_f64 v"
| "to_turbodb (MYSQL_STMT_VALUE_BOOL b) = turbodb_bool b"
| "to_turbodb (MYSQL_STMT_VALUE_TEXT data sz) = turbodb_text_v (Some (span data sz)) sz"
| "to_turbodb (MYSQL_STMT_VALUE_BLOB data sz) = turbodb_blob (Some (span data sz)) sz"
| "to_turbodb _ = turbodb_null"

fun retained_bytes :: "mysql_stmt_value \<Rightarrow> nat" where
  "retained_bytes (MYSQL_STMT_VALUE_TEXT data sz) = sz"
| "retained_bytes (MYSQL_STMT_VALUE_BLOB data sz) = sz"
| "retained_bytes _ = 0"

fun sendable :: "mysql_stmt_value \<Rightarrow> bool" where
  "sendable (MYSQL_STMT_VALUE_DOUBLE v) \<longleftrightarrow> f64_isfinite v"
| "sendable v \<longleftrightarrow> stmt_value_ok v"

definition type_word :: "mysql_stmt_value \<Rightarrow> u16" where
  "type_word v = ucast (stmt_type_bytes v ! 0) OR push_bit 8 (ucast (stmt_type_bytes v ! 1))"

lemma sendable_ok: "sendable v \<Longrightarrow> stmt_value_ok v"
  by (cases v) simp_all

lemma type_word_simps:
  "type_word MYSQL_STMT_VALUE_NULL = 0x06"
  "type_word (MYSQL_STMT_VALUE_SINT64 v) = 0x08"
  "type_word (MYSQL_STMT_VALUE_UINT64 v) = 0x8008"
  "type_word (MYSQL_STMT_VALUE_DOUBLE v) = 0x05"
  "b \<le> 1 \<Longrightarrow> type_word (MYSQL_STMT_VALUE_BOOL b) = 0x01"
  "span_ok data sz \<Longrightarrow> type_word (MYSQL_STMT_VALUE_TEXT data sz) = 0xfd"
  "span_ok data sz \<Longrightarrow> type_word (MYSQL_STMT_VALUE_BLOB data sz) = 0xfc"
  by (auto simp: type_word_def stmt_type_bytes_def not_less span_ok_def split: option.splits)

lemma parameter_type_ok: "sendable v \<Longrightarrow> parameter_type (type_word v) = TDSQL_MYSQL_OK"
  by (cases v) (simp_all add: type_word_simps parameter_type_def)

lemma parameter_value_seg:
  assumes "sendable v" and "v \<noteq> MYSQL_STMT_VALUE_NULL" and s: "seg d off (stmt_value_bytes v) off'"
    and room: "retained + retained_bytes v \<le> max_bytes"
  shows "parameter_value d off (type_word v) retained max_bytes = Inr (to_turbodb v, off', retained + retained_bytes v)"
proof (cases v)
  case (MYSQL_STMT_VALUE_BOOL b)
  then show ?thesis
    using s assms(1) by (simp add: parameter_value_def type_word_simps seg_Cons)
next
  case (MYSQL_STMT_VALUE_TEXT data sz)
  then have "mysql_wire_read_lenenc_bytes (Some d) off = Inr (wire_bytes (span data sz), off')"
    using s assms(1) by (intro lenenc_bytes_seg) (simp_all, simp add: span_ok_def)
  then show ?thesis
    using MYSQL_STMT_VALUE_TEXT assms(1) room by (simp add: parameter_value_def type_word_simps wire_bytes_def)
next
  case (MYSQL_STMT_VALUE_BLOB data sz)
  then have "mysql_wire_read_lenenc_bytes (Some d) off = Inr (wire_bytes (span data sz), off')"
    using s assms(1) by (intro lenenc_bytes_seg) (simp_all, simp add: span_ok_def)
  then show ?thesis
    using MYSQL_STMT_VALUE_BLOB assms(1) room by (simp add: parameter_value_def type_word_simps wire_bytes_def)
qed (use assms u64c.dec_seg [OF TrueI, of d off _ off'] in \<open>simp_all add: parameter_value_def type_word_simps\<close>)

text \<open>The positions in an EXECUTE payload.\<close>

definition client_layout :: "mysql_stmt_value list \<Rightarrow> execute_layout" where
  "client_layout vs = \<lparr>lay_bitmap = 10, lay_types = 11 + (length vs + 7) div 8,
     lay_values = 11 + (length vs + 7) div 8 + length vs * 2, lay_new_types = True\<rparr>"

lemma execute_payload_segs:
  fixes sid :: u32
  assumes "vs \<noteq> []" and "list_all sendable vs"
  defines "d \<equiv> execute_payload sid vs"
  shows "seg d 10 (null_bitmap vs) (10 + (length vs + 7) div 8)"
    and "d ! (10 + (length vs + 7) div 8) = 1" and "10 + (length vs + 7) div 8 < length d"
    and "seg d (lay_types (client_layout vs)) (concat (map stmt_type_bytes vs)) (lay_values (client_layout vs))"
    and "seg d (lay_values (client_layout vs)) (concat (map stmt_value_bytes vs)) (length d)"
proof -
  have tl: "length (concat (map stmt_type_bytes vs)) = length vs * 2"
    using assms(2) by (induction vs) (simp_all add: length_stmt_type_bytes sendable_ok)
  let ?H = "execute_header sid" and ?B = "null_bitmap vs" and ?T = "concat (map stmt_type_bytes vs)"
    and ?V = "concat (map stmt_value_bytes vs)"
  have d: "d = ?H @ ?B @ 1 # ?T @ ?V" using assms(1) by (simp add: d_def execute_payload_def)
  show "seg d 10 ?B (10 + (length vs + 7) div 8)"
    by (rule segI [of _ ?H _ "1 # ?T @ ?V"]) (simp_all add: d)
  show "d ! (10 + (length vs + 7) div 8) = 1" unfolding d by (simp add: nth_append)
  show "10 + (length vs + 7) div 8 < length d" unfolding d by simp
  show "seg d (lay_types (client_layout vs)) ?T (lay_values (client_layout vs))"
    by (rule segI [of _ "?H @ ?B @ [1]" _ ?V]) (simp_all add: d client_layout_def tl)
  show "seg d (lay_values (client_layout vs)) ?V (length d)"
    by (rule segI [of _ "?H @ ?B @ 1 # ?T" _ "[]"]) (simp_all add: d client_layout_def tl)
qed

lemma concat_types_nth:
  assumes "list_all stmt_value_ok vs" and "i < length vs" and "j < 2"
  shows "concat (map stmt_type_bytes vs) ! (i * 2 + j) = stmt_type_bytes (vs ! i) ! j"
  using assms
proof (induction vs arbitrary: i)
  case (Cons v vs)
  then show ?case by (cases i) (simp_all add: nth_append length_stmt_type_bytes)
qed simp

lemma length_concat_types: "list_all stmt_value_ok vs \<Longrightarrow> length (concat (map stmt_type_bytes vs)) = length vs * 2"
  by (induction vs) (simp_all add: length_stmt_type_bytes)

lemma list_all_sendable_ok: "list_all sendable vs \<Longrightarrow> list_all stmt_value_ok vs"
  by (induction vs) (simp_all add: sendable_ok)

lemma execute_type_client:
  assumes "i < length vs" and "list_all sendable vs"
  shows "execute_type (execute_payload sid vs) (client_layout vs) types i = type_word (vs ! i)"
proof -
  have ne: "vs \<noteq> []" using assms(1) by auto
  note s = execute_payload_segs(4) [OF ne assms(2), of sid]
  have "execute_payload sid vs ! (lay_types (client_layout vs) + (i * 2 + j)) = stmt_type_bytes (vs ! i) ! j" if "j < 2" for j
    using seg_nth [OF s, of "i * 2 + j"] concat_types_nth [OF list_all_sendable_ok [OF assms(2)] assms(1) that]
      length_concat_types [OF list_all_sendable_ok [OF assms(2)]] assms(1) that
    by simp
  from this [of 0] this [of 1] show ?thesis
    by (simp add: execute_type_def type_word_def client_layout_def add.assoc)
qed

lemma payload_null_bit:
  assumes "i < length vs" and "list_all sendable vs"
  shows "bit (execute_payload sid vs ! (10 + i div 8)) (i mod 8) \<longleftrightarrow> vs ! i = MYSQL_STMT_VALUE_NULL"
proof -
  have ne: "vs \<noteq> []" using assms(1) by auto
  have ib: "i div 8 < (length vs + 7) div 8" using assms(1) by (rule bitmap_index)
  then show ?thesis
    using seg_nth [OF execute_payload_segs(1) [OF ne assms(2), of sid], of "i div 8"] bit_null_bitmap [OF ib] assms(1)
    by simp
qed

lemma execute_layout_client:
  assumes "vs \<noteq> []" and "list_all sendable vs"
  shows "execute_layout_open (execute_payload sid vs) (length vs) valid = Inr (Some (client_layout vs))"
proof -
  let ?d = "execute_payload sid vs" and ?n = "length vs" and ?k = "(length vs + 7) div 8"
  note segs = execute_payload_segs [OF assms, of sid]
  have k: "0 < ?k" using bitmap_index [of 0 ?n] assms(1) by simp
  have last: "drop_bit (?n mod 8) (?d ! (10 + ?k - 1)) = 0" if "?n mod 8 \<noteq> 0"
  proof -
    have kn: "?k - 1 = ?n div 8"
    proof -
      have "?n + 7 = ?n div 8 * 8 + (?n mod 8 + 7)" by simp
      moreover have "(?n mod 8 + 7) div 8 = 1" using that by (simp add: div_nat_eqI)
      ultimately have "?k = ?n div 8 + 1" by (metis div_mult_self3 zero_neq_numeral)
      then show ?thesis by simp
    qed
    have byte: "?d ! (10 + ?k - 1) = null_bitmap vs ! (?n div 8)"
      using seg_nth [OF segs(1), of "?k - 1"] k kn by simp
    show ?thesis
    proof (rule bit_word_eqI)
      fix b
      show "bit (drop_bit (?n mod 8) (?d ! (10 + ?k - 1))) b \<longleftrightarrow> bit (0 :: u8) b"
      proof (cases "?n mod 8 + b < 8")
        case True
        let ?j = "8 * (?n div 8) + (?n mod 8 + b)"
        have "(8 * q + r) div 8 = q" "(8 * q + r) mod 8 = r" if "r < 8" for q r :: nat using that by simp_all
        from this [OF True] have j: "?j div 8 = ?n div 8" "?j mod 8 = ?n mod 8 + b" .
        have "?n \<le> ?j" by simp
        have "?j div 8 < ?k" using k kn j(1) by simp
        then show ?thesis using bit_null_bitmap [of ?j vs] j byte \<open>?n \<le> ?j\<close> by (simp add: bit_drop_bit_eq)
      next
        case False
        then show ?thesis using not_bit_u8 [of "?n mod 8 + b"] by (simp add: bit_drop_bit_eq)
      qed
    qed
  qed
  have room: "?n \<le> (length ?d - (11 + ?k)) div 2"
    using seg_le [OF segs(4)] length_concat_types [OF list_all_sendable_ok [OF assms(2)]]
    by (simp add: client_layout_def less_eq_div_iff_mult_less_eq)
  define k where "k = ?k"
  have k8: "(?n + 8 - 1) div 8 = k" by (simp add: k_def)
  have lay: "client_layout vs = \<lparr>lay_bitmap = 10, lay_types = 11 + k, lay_values = 11 + k + ?n * 2, lay_new_types = True\<rparr>"
    by (simp add: client_layout_def k_def)
  have "?d ! (10 + k) = 1" "10 + k < length ?d" "?n \<le> (length ?d - Suc (10 + k)) div 2"
    "?n mod 8 = 0 \<or> drop_bit (?n mod 8) (?d ! (10 + k - 1)) = 0"
    using segs(2,3) last room unfolding k_def by (simp_all, blast)
  then show ?thesis
    using assms(1) unfolding execute_layout_open_def Let_def k8 lay by (auto simp: not_less)
qed

text \<open>The value loop, started at parameter \<open>i\<close>.\<close>

lemma execute_values_client:
  assumes send: "list_all sendable vs" and "i + n = length vs"
    and s: "seg (execute_payload sid vs) off (concat (map stmt_value_bytes (drop i vs))) (length (execute_payload sid vs))"
    and room: "retained + sum_list (map retained_bytes (drop i vs)) \<le> max_bytes"
    and vals: "case vals of None \<Rightarrow> True | Some xs \<Rightarrow> length xs = length vs"
  shows "execute_values_loop n i (execute_payload sid vs) types (client_layout vs) vals max_bytes off retained =
     (TDSQL_MYSQL_OK, map_option (\<lambda>xs. take i xs @ map to_turbodb (drop i vs)) vals)"
  using assms
proof (induction n arbitrary: i off retained vals)
  case 0
  then show ?case by (cases vals) auto
next
  case (Suc n)
  let ?d = "execute_payload sid vs" and ?v = "vs ! i"
  have i: "i < length vs" using Suc(3) by simp
  have dr: "drop i vs = ?v # drop (Suc i) vs" using i by (simp add: Cons_nth_drop_Suc)
  have sv: "sendable ?v" using Suc(2) i by (simp add: list_all_length)
  obtain off' where s1: "seg ?d off (stmt_value_bytes ?v) off'"
    and s2: "seg ?d off' (concat (map stmt_value_bytes (drop (Suc i) vs))) (length ?d)"
    using Suc(4) unfolding dr by (auto simp: seg_append)
  have room1: "retained + retained_bytes ?v \<le> max_bytes" using Suc(5) unfolding dr by simp
  have val: "(if bit (?d ! (lay_bitmap (client_layout vs) + i div 8)) (i mod 8) then Inr (turbodb_null, off, retained)
       else parameter_value ?d off (type_word ?v) retained max_bytes) = Inr (to_turbodb ?v, off', retained + retained_bytes ?v)"
  proof (cases "?v = MYSQL_STMT_VALUE_NULL")
    case True
    then show ?thesis
      using payload_null_bit [OF i Suc(2), of sid] seg_end [OF s1] by (simp add: client_layout_def)
  next
    case False
    then show ?thesis
      using payload_null_bit [OF i Suc(2), of sid] parameter_value_seg [OF sv False s1 room1]
      by (simp add: client_layout_def)
  qed
  let ?vals = "map_option (\<lambda>xs. xs[i := to_turbodb ?v]) vals"
  have "execute_values_loop n (Suc i) ?d types (client_layout vs) ?vals max_bytes off' (retained + retained_bytes ?v) =
     (TDSQL_MYSQL_OK, map_option (\<lambda>xs. take (Suc i) xs @ map to_turbodb (drop (Suc i) vs)) ?vals)"
    using Suc(2-6) s2 unfolding dr by (intro Suc(1)) (auto split: option.splits)
  moreover have "map_option (\<lambda>xs. take (Suc i) xs @ map to_turbodb (drop (Suc i) vs)) ?vals =
      map_option (\<lambda>xs. take i xs @ map to_turbodb (drop i vs)) vals"
    using Suc(6) i unfolding dr by (cases vals) (simp_all add: take_Suc_conv_app_nth)
  ultimately show ?case
    using val by (simp add: execute_type_client [OF i Suc(2)] parameter_type_ok [OF sv] Let_def)
qed


section \<open>Failed decoding leaves no trace\<close>

lemma execute_values_status:
  "fst (execute_values_loop n i d types layout vals max_bytes off retained) =
   fst (execute_values_loop n i d types layout vals' max_bytes off retained)"
  by (induction n arbitrary: i vals vals' off retained) (simp_all add: Let_def split: sum.splits prod.splits)

lemma execute_decode_atomic:
  assumes "tdsql_mysql_execute_decode command count types tcap valid vals vcap max_bytes = (st, types', valid', vals')"
    and "st \<noteq> TDSQL_MYSQL_OK"
  shows "types' = types \<and> valid' = valid \<and> vals' = vals"
proof -
  have same: "fst (execute_values d count cache layout None max_bytes) = fst (execute_values d count cache layout vals max_bytes)"
    for d cache layout
    unfolding execute_values_def by (rule execute_values_status)
  show ?thesis
    using assms same
    by (auto simp: tdsql_mysql_execute_decode_def Let_def split: if_splits sum.splits option.splits prod.splits)
       (metis fst_conv)+
qed


section \<open>Properties\<close>

text \<open>
  C2. Parameters survive the protocol: the EXECUTE command that the client builds from a list of
  values (at most 65535, doubles finite, text and blobs within the server's limit) for a statement whose identifier is not
  zero is accepted by the server for the same statement and decoded to exactly these values.
\<close>

theorem execute_parameters_roundtrip:
  assumes "cap \<le> length buf" and "length (execute_payload sid vs) \<le> cap" and "sid \<noteq> 0"
    and "length vs \<le> 65535" and "list_all sendable vs"
    and "0 < max_bytes" and "sum_list (map retained_bytes vs) \<le> max_bytes"
    and "length types = length vs" and "length slots = length vs"
  shows "\<exists>sent n command types'.
     mysql_wire_build_stmt_execute sid (Some vs) (length vs) (Some buf) cap = (MYSQL_WIRE_STATUS_OK, Some sent, Some n) \<and>
     tdsql_mysql_command_decode (Some sent) n n = Inr command \<and>
     cmd_kind command = MYSQL_COM_STMT_EXECUTE \<and> cmd_statement_id command = sid \<and>
     tdsql_mysql_execute_decode command (length vs) (Some types) (length vs) valid (Some slots) (length vs) max_bytes =
       (TDSQL_MYSQL_OK, Some types', (vs \<noteq> [] \<or> valid), Some (map to_turbodb vs))"
proof -
  let ?p = "execute_payload sid vs" and ?n = "length vs"
  obtain sent where sent: "mysql_wire_build_stmt_execute sid (Some vs) ?n (Some buf) cap = (MYSQL_WIRE_STATUS_OK, Some sent, Some (length ?p))"
    "take (length ?p) sent = ?p"
    using build_execute_builds [OF assms(1,4) list_all_sendable_ok [OF assms(5)], of sid] assms(2)
    by (auto simp: builds_def)
  define command where "command = \<lparr>cmd_kind = MYSQL_COM_STMT_EXECUTE, cmd_statement_id = sid,
     cmd_sql = wire_bytes_zero, cmd_payload = wire_bytes ?p\<rparr>"
  have p: "?p = execute_header sid @ drop 10 ?p" by (simp add: execute_payload_def)
  have dec: "tdsql_mysql_command_decode (Some (?p @ rest)) (length ?p) (length ?p) = Inr command" for rest
    using command_decode_execute [OF assms(3), of "drop 10 ?p" "length ?p" rest] p by (simp add: command_def)
  have "sent = ?p @ drop (length ?p) sent" using sent(2) by (metis append_take_drop_id)
  with dec [of "drop (length ?p) sent"] have d1: "tdsql_mysql_command_decode (Some sent) (length ?p) (length ?p) = Inr command" by simp
  have d2: "tdsql_mysql_command_decode (Some ?p) (length ?p) (length ?p) = Inr command" using dec [of "[]"] by simp
  show ?thesis
  proof (cases "vs = []")
    case True
    have "length ?p = 10" using True by (simp add: execute_payload_def)
    then have "tdsql_mysql_execute_decode command ?n (Some types) ?n valid (Some slots) ?n max_bytes =
        (TDSQL_MYSQL_OK, Some types, valid, Some [])"
      using True d2 assms(6,8,9)
      by (simp add: tdsql_mysql_execute_decode_def command_def wire_bytes_def execute_layout_open_def Let_def)
    then show ?thesis using sent d1 True by (auto simp: command_def)
  next
    case False
    have v: "execute_values ?p ?n types (client_layout vs) vals max_bytes =
        (TDSQL_MYSQL_OK, map_option (\<lambda>xs. map to_turbodb vs) vals)"
      if "vals = None \<or> vals = Some slots" for vals
      using execute_values_client [OF assms(5), of 0 ?n sid "lay_values (client_layout vs)" 0 max_bytes vals types]
        execute_payload_segs(5) [OF False assms(5), of sid] assms(7,9) that
      by (auto simp: execute_values_def)
    have "tdsql_mysql_execute_decode command ?n (Some types) ?n valid (Some slots) ?n max_bytes =
        (TDSQL_MYSQL_OK, Some (fold (\<lambda>i t. t[i := execute_type ?p (client_layout vs) types i]) [0..<?n] types), True,
         Some (map to_turbodb vs))"
      using d2 assms(4,6) v execute_layout_client [OF False assms(5), of sid valid]
      by (simp add: tdsql_mysql_execute_decode_def command_def wire_bytes_def Let_def) (simp add: client_layout_def)
    then show ?thesis using sent d1 False by (auto simp: command_def)
  qed
qed

theorem execute_parameters_roundtrip_witness:
  "\<exists>sent n command types'.
     mysql_wire_build_stmt_execute 7 (Some [MYSQL_STMT_VALUE_NULL, MYSQL_STMT_VALUE_UINT64 5]) 2 (Some (replicate 30 0)) 30 =
       (MYSQL_WIRE_STATUS_OK, Some sent, Some n) \<and>
     tdsql_mysql_command_decode (Some sent) n n = Inr command \<and>
     tdsql_mysql_execute_decode command 2 (Some [0, 0]) 2 False (Some [turbodb_null, turbodb_null]) 2 100 =
       (TDSQL_MYSQL_OK, Some types', True, Some [turbodb_null, turbodb_u64 5])"
proof -
  let ?vs = "[MYSQL_STMT_VALUE_NULL, MYSQL_STMT_VALUE_UINT64 5]"
  have len: "length (execute_payload 7 ?vs) \<le> 30" by code_simp
  have n: "length ?vs = 2" by simp
  show ?thesis
    using execute_parameters_roundtrip [of 30 "replicate 30 0" 7 ?vs 100 "[0, 0]" "[turbodb_null, turbodb_null]" False,
        unfolded n] len
    by auto
qed

text \<open>
  C12. SQL text survives the protocol: the QUERY and PREPARE commands that the client builds from a
  non-empty text without NUL bytes are decoded to the same command with the same text.
\<close>

theorem sql_commands_roundtrip:
  assumes "cap \<le> length buf" and "cap \<le> SIZE_MAX" and "sql \<noteq> []" and "0 \<notin> set sql" and "length sql < cap"
    and "cap \<le> max_bytes"
  shows "(\<exists>sent n command. mysql_wire_build_query (Some sql) (length sql) (Some buf) cap = (MYSQL_WIRE_STATUS_OK, Some sent, Some n) \<and>
            tdsql_mysql_command_decode (Some sent) n max_bytes = Inr command \<and>
            cmd_kind command = TDSQL_MYSQL_QUERY \<and> cmd_sql command = wire_bytes sql) \<and>
         (\<exists>sent n command. mysql_wire_build_stmt_prepare (Some sql) (length sql) (Some buf) cap = (MYSQL_WIRE_STATUS_OK, Some sent, Some n) \<and>
            tdsql_mysql_command_decode (Some sent) n max_bytes = Inr command \<and>
            cmd_kind command = MYSQL_COM_STMT_PREPARE \<and> cmd_sql command = wire_bytes sql)"
proof -
  have dec: "\<exists>command. tdsql_mysql_command_decode (Some sent) (Suc (length sql)) max_bytes = Inr command \<and>
      cmd_kind command = kind \<and> cmd_sql command = wire_bytes sql"
    if "take (Suc (length sql)) sent = kind # sql" "kind = TDSQL_MYSQL_QUERY \<or> kind = MYSQL_COM_STMT_PREPARE" for sent kind
  proof -
    have "sent = kind # sql @ drop (Suc (length sql)) sent"
      using that(1) by (metis append_Cons append_take_drop_id)
    then show ?thesis
      using command_decode_sql [OF that(2) assms(3,4), of max_bytes "drop (Suc (length sql)) sent"] assms(5,6) by simp
  qed
  show ?thesis
    using build_query_builds [OF assms(1-3)] build_prepare_builds [OF assms(1,3)] assms(5) dec
    by (fastforce simp: builds_def query_payload_def prepare_payload_def)
qed

theorem sql_commands_roundtrip_witness:
  "\<exists>sent n command. mysql_wire_build_query (Some [66, 69]) 2 (Some (replicate 8 0)) 8 = (MYSQL_WIRE_STATUS_OK, Some sent, Some n) \<and>
     tdsql_mysql_command_decode (Some sent) n 100 = Inr command \<and> cmd_sql command = wire_bytes [66, 69]"
proof -
  have n: "length [66, 69 :: u8] = 2" by simp
  show ?thesis
    using sql_commands_roundtrip [of 8 "replicate 8 0" "[66, 69]" 100, unfolded n] by (auto simp: SIZE_MAX_def)
qed

text \<open>
  C13. Statement identifiers survive the protocol: CLOSE and RESET of a statement with a non-zero
  identifier, and QUIT, are decoded to the same command and identifier.
\<close>

theorem statement_commands_roundtrip:
  assumes "cap \<le> length buf" and "5 \<le> cap" and "sid \<noteq> 0" and "5 \<le> max_bytes"
  shows "(\<exists>sent command. mysql_wire_build_stmt_close sid (Some buf) cap = (MYSQL_WIRE_STATUS_OK, Some sent, Some 5) \<and>
            tdsql_mysql_command_decode (Some sent) 5 max_bytes = Inr command \<and>
            cmd_kind command = MYSQL_COM_STMT_CLOSE \<and> cmd_statement_id command = sid) \<and>
         (\<exists>sent command. mysql_wire_build_stmt_reset sid (Some buf) cap = (MYSQL_WIRE_STATUS_OK, Some sent, Some 5) \<and>
            tdsql_mysql_command_decode (Some sent) 5 max_bytes = Inr command \<and>
            cmd_kind command = MYSQL_COM_STMT_RESET \<and> cmd_statement_id command = sid) \<and>
         (\<exists>sent command. mysql_wire_build_quit (Some buf) cap = (MYSQL_WIRE_STATUS_OK, Some sent, Some 1) \<and>
            tdsql_mysql_command_decode (Some sent) 1 max_bytes = Inr command \<and> cmd_kind command = TDSQL_MYSQL_QUIT)"
proof -
  have dec: "\<exists>command. tdsql_mysql_command_decode (Some sent) 5 max_bytes = Inr command \<and>
      cmd_kind command = kind \<and> cmd_statement_id command = sid"
    if "take 5 sent = kind # u32_bytes sid" "kind = MYSQL_COM_STMT_CLOSE \<or> kind = MYSQL_COM_STMT_RESET" for sent kind
  proof -
    have "sent = kind # u32_bytes sid @ drop 5 sent"
      using that(1) by (metis append_Cons append_take_drop_id)
    then show ?thesis
      using command_decode_statement [OF that(2) assms(3,4), of "drop 5 sent"] by simp
  qed
  have quit: "\<exists>command. tdsql_mysql_command_decode (Some sent) 1 max_bytes = Inr command \<and> cmd_kind command = TDSQL_MYSQL_QUIT"
    if "take 1 sent = [TDSQL_MYSQL_QUIT]" for sent
    using that assms(4) by (simp add: tdsql_mysql_command_decode_def Let_def)
  show ?thesis
    using build_close_builds [OF assms(1), of sid] build_reset_builds [OF assms(1,3)] build_quit_builds [OF assms(1)]
      assms(2) dec quit
    by (fastforce simp: builds_def close_payload_def reset_payload_def)
qed

theorem statement_commands_roundtrip_witness:
  "\<exists>sent command. mysql_wire_build_stmt_close 9 (Some (replicate 8 0)) 8 = (MYSQL_WIRE_STATUS_OK, Some sent, Some 5) \<and>
     tdsql_mysql_command_decode (Some sent) 5 100 = Inr command \<and> cmd_statement_id command = 9"
  using statement_commands_roundtrip [of 8 "replicate 8 0" 9 100] by auto

text \<open>
  C10. Decoding EXECUTE is all or nothing: unless it succeeds, the type cache, its validity and the
  values are as before the call.
\<close>

theorem execute_decode_all_or_nothing:
  assumes "tdsql_mysql_execute_decode command count types tcap valid vals vcap max_bytes = (st, types', valid', vals')"
    and "st \<noteq> TDSQL_MYSQL_OK"
  shows "types' = types \<and> valid' = valid \<and> vals' = vals"
  using assms by (rule execute_decode_atomic)

theorem execute_decode_all_or_nothing_witness:
  "tdsql_mysql_execute_decode \<lparr>cmd_kind = 0x17, cmd_statement_id = 1, cmd_sql = wire_bytes_zero, cmd_payload = wire_bytes [0x17]\<rparr>
     1 (Some [5]) 1 True (Some [turbodb_null]) 1 10 = (TDSQL_MYSQL_INVALID, Some [5], True, Some [turbodb_null])"
proof -
  define r where "r = tdsql_mysql_execute_decode \<lparr>cmd_kind = 0x17, cmd_statement_id = 1, cmd_sql = wire_bytes_zero,
    cmd_payload = wire_bytes [0x17]\<rparr> 1 (Some [5]) 1 True (Some [turbodb_null]) 1 10"
  have st: "fst r = TDSQL_MYSQL_INVALID"
    by (simp add: r_def tdsql_mysql_execute_decode_def tdsql_mysql_command_decode_def wire_bytes_def)
  obtain st' t v vs where r: "r = (st', t, v, vs)" by (metis prod_cases4)
  show ?thesis
    using execute_decode_all_or_nothing [OF r [unfolded r_def]] st r by (simp add: r_def)
qed

end
