(* ===== verification/Wire_Result.thy ===== *)
theory Wire_Result
  imports Wire_Codec
begin

unbundle bit_operations_syntax

text \<open>
  The client's decoders of command results, \<open>src/mysql/wire/result.c\<close>: OK, ERR and EOF packets and
  rows of the text protocol.

  A decoder that succeeds returns the struct it filled; what a failed call leaves in the caller's
  struct is not modelled, except for \<open>mysql_wire_decode_text_row\<close>, whose column array is passed in and
  returned because the code takes care to clear it on failure.

  Each packet has an encoding (\<open>ok_payload\<close> and so on) and a lemma that decodes it.
\<close>

section \<open>Data\<close>

abbreviation (input) "MYSQL_WIRE_CLIENT_PROTOCOL_41 \<equiv> 0x00000200 :: u32"
abbreviation (input) "MYSQL_WIRE_CLIENT_SESSION_TRACK \<equiv> 0x00800000 :: u32"
abbreviation (input) "MYSQL_WIRE_CLIENT_DEPRECATE_EOF \<equiv> 0x01000000 :: u32"
abbreviation (input) "MYSQL_WIRE_SERVER_SESSION_STATE_CHANGED \<equiv> 0x4000 :: u16"

record mysql_wire_ok_packet =
  ok_header :: u8
  ok_affected_rows :: u64
  ok_last_insert_id :: u64
  ok_status_flags :: u16
  ok_warnings :: u16
  ok_info :: mysql_wire_bytes
  ok_session_state :: mysql_wire_bytes

record mysql_wire_err_packet =
  err_error_code :: u16
  err_has_sql_state :: bool
  err_sql_state :: bytes
  err_message :: mysql_wire_bytes

record mysql_wire_eof_packet =
  eof_warnings :: u16
  eof_status_flags :: u16


section \<open>Operations\<close>

definition mysql_wire_complete_packet_status :: "mysql_wire_status \<Rightarrow> mysql_wire_status" where
  "mysql_wire_complete_packet_status status =
     (if status = MYSQL_WIRE_STATUS_NEED_MORE then MYSQL_WIRE_STATUS_INVALID else status)"

definition complete_packet :: "mysql_wire_status + 'a \<Rightarrow> mysql_wire_status + 'a" where
  "complete_packet r = (case r of Inl status \<Rightarrow> Inl (mysql_wire_complete_packet_status status) | Inr x \<Rightarrow> Inr x)"

definition mysql_wire_decode_ok_packet :: "ptr \<Rightarrow> u32 \<Rightarrow> mysql_wire_status + mysql_wire_ok_packet" where
  "mysql_wire_decode_ok_packet payload capabilities =
     (case payload of None \<Rightarrow> Inl MYSQL_WIRE_STATUS_INVALID
      | Some d \<Rightarrow>
        if length d = 0 then Inl MYSQL_WIRE_STATUS_INVALID
        else if d ! 0 \<noteq> 0 \<and> (d ! 0 \<noteq> 0xfe \<or> capabilities AND MYSQL_WIRE_CLIENT_DEPRECATE_EOF = 0 \<or> length d < 7)
        then Inl MYSQL_WIRE_STATUS_INVALID
        else
          and_then (complete_packet (mysql_wire_read_lenenc_uint payload 1)) (\<lambda>((affected_rows, is_null), offset).
          if is_null then Inl MYSQL_WIRE_STATUS_INVALID else
          and_then (complete_packet (mysql_wire_read_lenenc_uint payload offset)) (\<lambda>((last_insert_id, is_null), offset).
          if is_null then Inl MYSQL_WIRE_STATUS_INVALID else
          and_then
            (if capabilities AND MYSQL_WIRE_CLIENT_PROTOCOL_41 \<noteq> 0 then
               and_then (complete_packet (mysql_wire_read_u16_le payload offset)) (\<lambda>(status_flags, offset).
               and_then (complete_packet (mysql_wire_read_u16_le payload offset)) (\<lambda>(warnings, offset).
               Inr (status_flags, warnings, offset)))
             else Inr (0, 0, offset)) (\<lambda>(status_flags, warnings, offset).
          let packet = (\<lambda>info session_state.
                \<lparr>ok_header = d ! 0, ok_affected_rows = affected_rows, ok_last_insert_id = last_insert_id,
                 ok_status_flags = status_flags, ok_warnings = warnings, ok_info = info,
                 ok_session_state = session_state\<rparr>) in
          if capabilities AND MYSQL_WIRE_CLIENT_SESSION_TRACK \<noteq> 0 then
            and_then (complete_packet (mysql_wire_read_lenenc_bytes payload offset)) (\<lambda>(info, offset).
            if wb_is_null info then Inl MYSQL_WIRE_STATUS_INVALID else
            and_then
              (if status_flags AND MYSQL_WIRE_SERVER_SESSION_STATE_CHANGED \<noteq> 0 then
                 and_then (complete_packet (mysql_wire_read_lenenc_bytes payload offset)) (\<lambda>(session_state, offset).
                 if wb_is_null session_state then Inl MYSQL_WIRE_STATUS_INVALID else Inr (session_state, offset))
               else Inr (wire_bytes_zero, offset)) (\<lambda>(session_state, offset).
            if offset \<noteq> length d then Inl MYSQL_WIRE_STATUS_INVALID else Inr (packet info session_state)))
          else
            Inr (packet \<lparr>wb_data = Some (drop offset d), wb_length = length d - offset, wb_is_null = False\<rparr>
                   wire_bytes_zero)))))"

definition mysql_wire_decode_err_packet :: "ptr \<Rightarrow> u32 \<Rightarrow> mysql_wire_status + mysql_wire_err_packet" where
  "mysql_wire_decode_err_packet payload capabilities =
     (case payload of None \<Rightarrow> Inl MYSQL_WIRE_STATUS_INVALID
      | Some d \<Rightarrow>
        if length d < 3 \<or> d ! 0 \<noteq> 0xff then Inl MYSQL_WIRE_STATUS_INVALID
        else
          and_then (complete_packet (mysql_wire_read_u16_le payload 1)) (\<lambda>(error_code, offset).
          let message = (\<lambda>offset. \<lparr>wb_data = Some (drop offset d), wb_length = length d - offset, wb_is_null = False\<rparr>) in
          if capabilities AND MYSQL_WIRE_CLIENT_PROTOCOL_41 \<noteq> 0 then
            (if length d - offset < 6 \<or> d ! offset \<noteq> 0x23 then Inl MYSQL_WIRE_STATUS_INVALID
             else Inr \<lparr>err_error_code = error_code, err_has_sql_state = True,
                       err_sql_state = take 5 (drop (offset + 1) d) @ [0], err_message = message (offset + 6)\<rparr>)
          else Inr \<lparr>err_error_code = error_code, err_has_sql_state = False, err_sql_state = replicate 6 0,
                    err_message = message offset\<rparr>))"

definition mysql_wire_decode_eof_packet :: "ptr \<Rightarrow> u32 \<Rightarrow> mysql_wire_status + mysql_wire_eof_packet" where
  "mysql_wire_decode_eof_packet payload capabilities =
     (case payload of None \<Rightarrow> Inl MYSQL_WIRE_STATUS_INVALID
      | Some d \<Rightarrow>
        if length d = 0 \<or> d ! 0 \<noteq> 0xfe \<or> length d \<ge> 9 then Inl MYSQL_WIRE_STATUS_INVALID
        else if capabilities AND MYSQL_WIRE_CLIENT_PROTOCOL_41 = 0 then
          (if length d = 1 then Inr \<lparr>eof_warnings = 0, eof_status_flags = 0\<rparr> else Inl MYSQL_WIRE_STATUS_INVALID)
        else if length d \<noteq> 5 then Inl MYSQL_WIRE_STATUS_INVALID
        else
          and_then (complete_packet (mysql_wire_read_u16_le payload 1)) (\<lambda>(warnings, offset).
          and_then (complete_packet (mysql_wire_read_u16_le payload offset)) (\<lambda>(status_flags, offset).
          if offset = length d then Inr \<lparr>eof_warnings = warnings, eof_status_flags = status_flags\<rparr>
          else Inl MYSQL_WIRE_STATUS_INVALID)))"

text \<open>\<open>memset(out_columns, 0, column_count * sizeof(*out_columns))\<close>\<close>

definition clear_columns :: "nat \<Rightarrow> mysql_wire_bytes list \<Rightarrow> mysql_wire_bytes list" where
  "clear_columns column_count columns = replicate column_count wire_bytes_zero @ drop column_count columns"

text \<open>The column loop, with \<open>n\<close> columns to go.\<close>

primrec text_row_loop ::
    "nat \<Rightarrow> nat \<Rightarrow> nat \<Rightarrow> bytes \<Rightarrow> nat \<Rightarrow> mysql_wire_bytes list \<Rightarrow> mysql_wire_status \<times> mysql_wire_bytes list" where
  "text_row_loop 0 index column_count d offset columns =
     (if offset \<noteq> length d then (MYSQL_WIRE_STATUS_INVALID, clear_columns column_count columns)
      else (MYSQL_WIRE_STATUS_OK, columns))"
| "text_row_loop (Suc n) index column_count d offset columns =
     (case complete_packet (mysql_wire_read_lenenc_bytes (Some d) offset) of
        Inl status \<Rightarrow> (status, clear_columns column_count columns)
      | Inr (column, offset) \<Rightarrow> text_row_loop n (index + 1) column_count d offset (columns[index := column]))"

definition mysql_wire_decode_text_row ::
    "ptr \<Rightarrow> nat \<Rightarrow> mysql_wire_bytes list option \<Rightarrow> nat \<Rightarrow> mysql_wire_status \<times> mysql_wire_bytes list option" where
  "mysql_wire_decode_text_row payload column_count out_columns out_capacity =
     (case (payload, out_columns) of
        (Some d, Some columns) \<Rightarrow>
          if column_count = 0 then (MYSQL_WIRE_STATUS_INVALID, out_columns)
          else if column_count > out_capacity then (MYSQL_WIRE_STATUS_LIMIT, out_columns)
          else map_prod id Some (text_row_loop column_count 0 column_count d 0 (clear_columns column_count columns))
      | _ \<Rightarrow> (MYSQL_WIRE_STATUS_INVALID, out_columns))"


section \<open>Decoding the encodings\<close>

lemma complete_packet_simps [simp]:
  "complete_packet (Inr x) = Inr x"
  "complete_packet (Inl s) = Inl (mysql_wire_complete_packet_status s)"
  by (simp_all add: complete_packet_def)

text \<open>The OK packet without session tracking: the info text runs to the end of the packet.\<close>

definition ok_payload :: "u8 \<Rightarrow> u64 \<Rightarrow> u64 \<Rightarrow> u16 \<Rightarrow> u16 \<Rightarrow> bytes \<Rightarrow> bytes" where
  "ok_payload header rows last_id flags warnings info =
     [header] @ lenenc_int rows @ lenenc_int last_id @ u16_bytes flags @ u16_bytes warnings @ info"

lemma decode_ok_payload:
  assumes caps: "capabilities AND MYSQL_WIRE_CLIENT_PROTOCOL_41 \<noteq> 0" "capabilities AND MYSQL_WIRE_CLIENT_SESSION_TRACK = 0"
    and h: "header = 0 \<or> header = 0xfe \<and> capabilities AND MYSQL_WIRE_CLIENT_DEPRECATE_EOF \<noteq> 0"
  shows "mysql_wire_decode_ok_packet (Some (ok_payload header rows last_id flags warnings info)) capabilities =
     Inr \<lparr>ok_header = header, ok_affected_rows = rows, ok_last_insert_id = last_id, ok_status_flags = flags,
          ok_warnings = warnings, ok_info = wire_bytes info, ok_session_state = wire_bytes_zero\<rparr>"
proof -
  let ?d = "ok_payload header rows last_id flags warnings info"
  have "seg ?d 0 ?d (length ?d)" by (rule seg_whole)
  then obtain o1 o2 o3 o4 o5 where s0: "seg ?d 0 [header] o1" and s1: "seg ?d o1 (lenenc_int rows) o2"
    and s2: "seg ?d o2 (lenenc_int last_id) o3" and s3: "seg ?d o3 (u16_bytes flags) o4"
    and s4: "seg ?d o4 (u16_bytes warnings) o5" and s5: "seg ?d o5 info (length ?d)"
    unfolding ok_payload_def seg_append by blast
  have o1: "o1 = 1" and hd: "?d ! 0 = header" and ne: "?d \<noteq> []" using seg_end [OF s0] by (auto simp: ok_payload_def)
  have len: "\<not> length ?d < 7"
    using length_lenenc_int_bounds [of rows] length_lenenc_int_bounds [of last_id] by (simp add: ok_payload_def)
  have info: "drop o5 ?d = info" "length ?d - o5 = length info"
    using seg_le [OF s5] seg_rest [of o5 ?d info] s5 seg_end [OF s5] by simp_all
  have r: "mysql_wire_read_lenenc_uint (Some ?d) 1 = Inr ((rows, False), o2)"
    "mysql_wire_read_lenenc_uint (Some ?d) o2 = Inr ((last_id, False), o3)"
    "mysql_wire_read_u16_le (Some ?d) o3 = Inr (flags, o4)"
    "mysql_wire_read_u16_le (Some ?d) o4 = Inr (warnings, o5)"
    using s1 s2 s3 s4 o1 by (simp_all add: lenenc_int_seg u16c.dec_seg)
  show ?thesis
    using assms ne len hd r info unfolding mysql_wire_decode_ok_packet_def
    by (simp add: Let_def wire_bytes_def)
qed

definition err_payload :: "u16 \<Rightarrow> bytes \<Rightarrow> bytes \<Rightarrow> bytes" where
  "err_payload code sqlstate message = [0xff] @ u16_bytes code @ [0x23] @ sqlstate @ message"

lemma decode_err_payload:
  assumes "capabilities AND MYSQL_WIRE_CLIENT_PROTOCOL_41 \<noteq> 0" and "length sqlstate = 5"
  shows "mysql_wire_decode_err_packet (Some (err_payload code sqlstate message)) capabilities =
     Inr \<lparr>err_error_code = code, err_has_sql_state = True, err_sql_state = sqlstate @ [0], err_message = wire_bytes message\<rparr>"
proof -
  let ?d = "err_payload code sqlstate message"
  have r: "mysql_wire_read_u16_le (Some ?d) 1 = Inr (code, 3)"
    by (intro u16c.dec_seg segI [where pre = "[0xff]" and post = "[0x23] @ sqlstate @ message"]) (simp_all add: err_payload_def)
  have "?d ! 0 = 0xff" "?d ! 3 = 0x23" "drop 9 ?d = message" "take 5 (drop 4 ?d) = sqlstate" "length ?d = 9 + length message"
    using assms(2) by (simp_all add: err_payload_def nth_append)
  then show ?thesis
    using assms(1) r by (simp add: mysql_wire_decode_err_packet_def wire_bytes_def Let_def)
qed

definition eof_payload :: "u16 \<Rightarrow> u16 \<Rightarrow> bytes" where
  "eof_payload warnings flags = [0xfe] @ u16_bytes warnings @ u16_bytes flags"

lemma decode_eof_payload:
  assumes "capabilities AND MYSQL_WIRE_CLIENT_PROTOCOL_41 \<noteq> 0"
  shows "mysql_wire_decode_eof_packet (Some (eof_payload warnings flags)) capabilities =
     Inr \<lparr>eof_warnings = warnings, eof_status_flags = flags\<rparr>"
proof -
  let ?d = "eof_payload warnings flags"
  have r: "mysql_wire_read_u16_le (Some ?d) 1 = Inr (warnings, 3)" "mysql_wire_read_u16_le (Some ?d) 3 = Inr (flags, 5)"
    by (intro u16c.dec_seg segI [where pre = "[0xfe]" and post = "u16_bytes flags"];
        simp add: eof_payload_def)
       (intro u16c.dec_seg segI [where pre = "[0xfe] @ u16_bytes warnings" and post = "[]"];
        simp add: eof_payload_def)
  have "?d ! 0 = 0xfe" "length ?d = 5" by (simp_all add: eof_payload_def)
  then show ?thesis using assms r unfolding mysql_wire_decode_eof_packet_def by simp
qed


section \<open>Text rows\<close>

lemma length_clear_columns [simp]: "count \<le> length columns \<Longrightarrow> length (clear_columns count columns) = length columns"
  by (simp add: clear_columns_def)

lemma text_row_loop_seg:
  assumes "i + n = length cols" and "list_all wire_bytes_ok cols" and "length cols \<le> length columns"
    and "seg d off (concat (map wire_bytes_enc (drop i cols))) (length d)"
  shows "text_row_loop n i (length cols) d off columns =
     (MYSQL_WIRE_STATUS_OK, take i columns @ drop i cols @ drop (length cols) columns)"
  using assms
proof (induction n arbitrary: i off columns)
  case 0
  then show ?case by simp
next
  case (Suc n)
  have i: "i < length cols" using Suc(2) by simp
  have dr: "drop i cols = cols ! i # drop (Suc i) cols" using i by (simp add: Cons_nth_drop_Suc)
  obtain off' where s1: "seg d off (wire_bytes_enc (cols ! i)) off'"
    and s2: "seg d off' (concat (map wire_bytes_enc (drop (Suc i) cols))) (length d)"
    using Suc(5) unfolding dr by (auto simp: seg_append)
  have "wire_bytes_ok (cols ! i)" using Suc(3) i by (simp add: list_all_length)
  from lbc.dec_seg [OF this s1] Suc(1) [of "Suc i" "columns[i := cols ! i]" off'] Suc(2-4) s2 i
  show ?case by (simp add: dr take_Suc_conv_app_nth)
qed

text \<open>On success the columns are filled, and on any failure of the payload they are all cleared.\<close>

lemma text_row_loop_failure:
  "text_row_loop n i count d off columns = (st, columns') \<Longrightarrow> st \<noteq> MYSQL_WIRE_STATUS_OK \<Longrightarrow> i + n = count \<Longrightarrow>
   columns' = clear_columns count columns \<and> st \<noteq> MYSQL_WIRE_STATUS_NEED_MORE"
proof (induction n arbitrary: i off columns)
  case (Suc n)
  have "clear_columns count (columns[i := c]) = clear_columns count columns" for c
    using Suc(4) by (simp add: clear_columns_def)
  then show ?case
    using Suc(1) [of "Suc i"] Suc(2-4)
    by (auto simp: complete_packet_def mysql_wire_complete_packet_status_def split: if_splits sum.splits prod.splits)
qed (auto split: if_splits)


section \<open>Properties\<close>

text \<open>
  Text rows decode exactly: a row payload that is the sequence of the encodings of its columns,
  nulls included, is decoded to these columns.
\<close>

theorem text_row_decodes:
  assumes "list_all wire_bytes_ok cols" and "cols \<noteq> []" and "length cols \<le> capacity" and "length slots = length cols"
  shows "mysql_wire_decode_text_row (Some (concat (map wire_bytes_enc cols))) (length cols) (Some slots) capacity =
     (MYSQL_WIRE_STATUS_OK, Some cols)"
  using text_row_loop_seg [of 0 "length cols" cols "clear_columns (length cols) slots" "concat (map wire_bytes_enc cols)" 0]
    assms seg_whole [of "concat (map wire_bytes_enc cols)"]
  by (simp add: mysql_wire_decode_text_row_def clear_columns_def)

theorem text_row_decodes_witness:
  "mysql_wire_decode_text_row (Some [0xfb, 2, 65, 66]) 2 (Some [wire_bytes_zero, wire_bytes_zero]) 4 =
     (MYSQL_WIRE_STATUS_OK, Some [wire_bytes_null, wire_bytes [65, 66]])"
proof -
  let ?cols = "[wire_bytes_null, wire_bytes [65, 66]]"
  have ok: "list_all wire_bytes_ok ?cols" by (simp add: SIZE_MAX_def)
  have enc: "concat (map wire_bytes_enc ?cols) = [0xfb, 2, 65, 66]"
    by (simp add: wire_bytes_enc_def lenenc_bytes_def lenenc_int_def)
  have n: "length ?cols = 2" by simp
  show ?thesis
    using text_row_decodes [OF ok, of 4 "[wire_bytes_zero, wire_bytes_zero]", unfolded enc n] by simp
qed

text \<open>
  A malformed text row leaves no columns behind: whenever the decoder rejects the payload, every
  column of the caller's array is cleared, and a truncated row is reported as invalid, never as a
  request for more data.
\<close>

theorem text_row_rejected_is_cleared:
  assumes "mysql_wire_decode_text_row (Some d) count (Some columns) capacity = (st, columns')"
    and "st \<noteq> MYSQL_WIRE_STATUS_OK" and "0 < count" and "count \<le> capacity" and "count \<le> length columns"
  shows "columns' = Some (clear_columns count columns) \<and> st \<noteq> MYSQL_WIRE_STATUS_NEED_MORE"
proof -
  obtain cs where "text_row_loop count 0 count d 0 (clear_columns count columns) = (st, cs)" "columns' = Some cs"
    using assms by (cases "text_row_loop count 0 count d 0 (clear_columns count columns)")
      (auto simp: mysql_wire_decode_text_row_def)
  then show ?thesis
    using text_row_loop_failure [of count 0 count d 0 "clear_columns count columns" st cs] assms(2,5)
    by (simp add: clear_columns_def)
qed

theorem text_row_rejected_is_cleared_witness:
  "mysql_wire_decode_text_row (Some [1, 65, 9]) 2 (Some [wire_bytes [1], wire_bytes [2]]) 2 =
     (MYSQL_WIRE_STATUS_INVALID, Some [wire_bytes_zero, wire_bytes_zero])"
proof -
  define r where "r = mysql_wire_decode_text_row (Some [1, 65, 9]) 2 (Some [wire_bytes [1], wire_bytes [2]]) 2"
  have st: "fst r = MYSQL_WIRE_STATUS_INVALID" unfolding r_def by code_simp
  obtain st' cs where r: "r = (st', cs)" by (cases r)
  show ?thesis
    using text_row_rejected_is_cleared [OF r [unfolded r_def]] st r
    by (simp add: r_def clear_columns_def numeral_2_eq_2)
qed

end
