(* ===== verification/Wire_Row.thy ===== *)
theory Wire_Row
  imports Wire_Statement Turbodb_Types
begin

unbundle bit_operations_syntax

text \<open>
  Column definitions and rows of the binary protocol, \<open>src/mysql/wire/row.c\<close>.

  The kind and the union of a binary value are one constructor of \<open>mysql_binary_data\<close>.  A decoder of
  one value returns it with the advanced cursor.  The row decoder is given the caller's array of
  values and returns it, because a failed row leaves the values decoded so far in it.
\<close>

section \<open>Data\<close>

abbreviation (input) "MYSQL_COLUMN_FLAG_UNSIGNED \<equiv> 0x0020 :: u16"

record mysql_column_definition =
  col_catalog :: mysql_wire_bytes
  col_schema :: mysql_wire_bytes
  col_table :: mysql_wire_bytes
  col_org_table :: mysql_wire_bytes
  col_name :: mysql_wire_bytes
  col_org_name :: mysql_wire_bytes
  col_character_set :: u16
  col_column_length :: u32
  col_type :: u8
  col_flags :: u16
  col_decimals :: u8

record mysql_binary_datetime =
  dt_year :: u16
  dt_month :: u8
  dt_day :: u8
  dt_hour :: u8
  dt_minute :: u8
  dt_second :: u8
  dt_microsecond :: u32
  dt_wire_length :: u8

record mysql_binary_time =
  tm_negative :: bool
  tm_days :: u32
  tm_hour :: u8
  tm_minute :: u8
  tm_second :: u8
  tm_microsecond :: u32
  tm_wire_length :: u8

datatype mysql_binary_data =
    MYSQL_BINARY_VALUE_NULL
  | MYSQL_BINARY_VALUE_SINT64 i64
  | MYSQL_BINARY_VALUE_UINT64 u64
  | MYSQL_BINARY_VALUE_DOUBLE f64
  | MYSQL_BINARY_VALUE_BYTES mysql_wire_bytes
  | MYSQL_BINARY_VALUE_DATETIME mysql_binary_datetime
  | MYSQL_BINARY_VALUE_TIME mysql_binary_time

record mysql_binary_value =
  bv_data :: mysql_binary_data
  bv_mysql_type :: u8


section \<open>Column definitions\<close>

definition mysql_row_read_required_bytes :: "ptr \<Rightarrow> nat \<Rightarrow> mysql_wire_bytes wire_read" where
  "mysql_row_read_required_bytes payload offset =
     and_then (mysql_wire_read_lenenc_bytes payload offset) (\<lambda>(out, offset).
       if wb_is_null out then Inl MYSQL_WIRE_STATUS_INVALID else Inr (out, offset))"

definition mysql_wire_decode_column_definition41 :: "ptr \<Rightarrow> mysql_wire_status + mysql_column_definition" where
  "mysql_wire_decode_column_definition41 payload =
     (case payload of None \<Rightarrow> Inl MYSQL_WIRE_STATUS_INVALID
      | Some d \<Rightarrow>
        and_then (mysql_row_read_required_bytes payload 0) (\<lambda>(catalog, offset).
        and_then (mysql_row_read_required_bytes payload offset) (\<lambda>(schema, offset).
        and_then (mysql_row_read_required_bytes payload offset) (\<lambda>(table, offset).
        and_then (mysql_row_read_required_bytes payload offset) (\<lambda>(org_table, offset).
        and_then (mysql_row_read_required_bytes payload offset) (\<lambda>(name, offset).
        and_then (mysql_row_read_required_bytes payload offset) (\<lambda>(org_name, offset).
        and_then (mysql_wire_read_lenenc_uint payload offset) (\<lambda>((fixed_length, is_null), offset).
        if is_null \<or> fixed_length \<noteq> 0x0c then Inl MYSQL_WIRE_STATUS_INVALID else
        and_then (mysql_wire_read_u16_le payload offset) (\<lambda>(character_set, offset).
        and_then (mysql_wire_read_u32_le payload offset) (\<lambda>(column_length, offset).
        if offset \<ge> length d then Inl MYSQL_WIRE_STATUS_NEED_MORE else
        and_then (mysql_wire_read_u16_le payload (offset + 1)) (\<lambda>(flags, offset').
        if offset' \<ge> length d then Inl MYSQL_WIRE_STATUS_NEED_MORE
        else if offset' + 1 > length d \<or> length d - (offset' + 1) < 2 then Inl MYSQL_WIRE_STATUS_NEED_MORE
        else if d ! (offset' + 1) \<noteq> 0 \<or> d ! (offset' + 2) \<noteq> 0 then Inl MYSQL_WIRE_STATUS_INVALID
        else if offset' + 3 = length d then
          Inr \<lparr>col_catalog = catalog, col_schema = schema, col_table = table, col_org_table = org_table,
               col_name = name, col_org_name = org_name, col_character_set = character_set,
               col_column_length = column_length, col_type = d ! offset, col_flags = flags,
               col_decimals = d ! offset'\<rparr>
        else Inl MYSQL_WIRE_STATUS_INVALID)))))))))))"


section \<open>Values\<close>

text \<open>Signed arithmetic on \<open>int64_t\<close> never overflows here, so it is word arithmetic.\<close>

definition mysql_row_sign_extend :: "u64 \<Rightarrow> nat \<Rightarrow> i64" where
  "mysql_row_sign_extend raw bits =
     (if bits = 64 then
        (if raw \<le> 0x7fffffffffffffff then raw
         else if raw = push_bit 63 1 then push_bit 63 1
         else - (NOT raw + 1))
      else
        let sign = push_bit (bits - 1) 1;
            mask = push_bit bits 1 - 1;
            raw = raw AND mask
        in if raw AND sign = 0 then raw else - ((NOT raw AND mask) + 1))"

definition mysql_row_decode_integer :: "bytes \<Rightarrow> nat \<Rightarrow> mysql_column_definition \<Rightarrow> nat \<Rightarrow> mysql_binary_data wire_read" where
  "mysql_row_decode_integer payload offset column width =
     and_then
       (if width = 1 then
          (if offset \<ge> length payload then Inl MYSQL_WIRE_STATUS_NEED_MORE
           else Inr (ucast (payload ! offset), offset + 1))
        else if width = 2 then
          and_then (mysql_wire_read_u16_le (Some payload) offset) (\<lambda>(value, offset). Inr (ucast value, offset))
        else if width = 4 then
          and_then (mysql_wire_read_u32_le (Some payload) offset) (\<lambda>(value, offset). Inr (ucast value, offset))
        else if width = 8 then mysql_wire_read_u64_le (Some payload) offset
        else Inl MYSQL_WIRE_STATUS_INVALID)
       (\<lambda>(raw, offset).
          if col_flags column AND MYSQL_COLUMN_FLAG_UNSIGNED \<noteq> 0 then Inr (MYSQL_BINARY_VALUE_UINT64 raw, offset)
          else Inr (MYSQL_BINARY_VALUE_SINT64 (mysql_row_sign_extend raw (width * 8)), offset))"

definition mysql_row_decode_float :: "bytes \<Rightarrow> nat \<Rightarrow> mysql_binary_data wire_read" where
  "mysql_row_decode_float payload offset =
     and_then (mysql_wire_read_u32_le (Some payload) offset) (\<lambda>(raw, offset).
       Inr (MYSQL_BINARY_VALUE_DOUBLE (f32_to_f64 raw), offset))"

definition mysql_row_decode_double :: "bytes \<Rightarrow> nat \<Rightarrow> mysql_binary_data wire_read" where
  "mysql_row_decode_double payload offset =
     and_then (mysql_wire_read_u64_le (Some payload) offset) (\<lambda>(raw, offset).
       Inr (MYSQL_BINARY_VALUE_DOUBLE raw, offset))"

definition mysql_row_decode_bytes :: "bytes \<Rightarrow> nat \<Rightarrow> mysql_binary_data wire_read" where
  "mysql_row_decode_bytes payload offset =
     and_then (mysql_wire_read_lenenc_bytes (Some payload) offset) (\<lambda>(bytes, offset).
       if wb_is_null bytes then Inl MYSQL_WIRE_STATUS_INVALID else Inr (MYSQL_BINARY_VALUE_BYTES bytes, offset))"

definition mysql_row_valid_datetime :: "mysql_binary_datetime \<Rightarrow> bool \<Rightarrow> bool" where
  "mysql_row_valid_datetime value date_only =
     (if dt_month value > 12 \<or> dt_day value > 31 \<or> dt_microsecond value > 999999 then False
      else if date_only then dt_hour value = 0 \<and> dt_minute value = 0 \<and> dt_second value = 0 \<and> dt_microsecond value = 0
      else dt_hour value \<le> 23 \<and> dt_minute value \<le> 59 \<and> dt_second value \<le> 59)"

definition datetime_zero :: "u8 \<Rightarrow> mysql_binary_datetime" where
  "datetime_zero wire_length = \<lparr>dt_year = 0, dt_month = 0, dt_day = 0, dt_hour = 0, dt_minute = 0, dt_second = 0,
     dt_microsecond = 0, dt_wire_length = wire_length\<rparr>"

definition mysql_row_decode_datetime :: "bytes \<Rightarrow> nat \<Rightarrow> bool \<Rightarrow> mysql_binary_data wire_read" where
  "mysql_row_decode_datetime payload offset date_only =
     (if offset \<ge> length payload then Inl MYSQL_WIRE_STATUS_NEED_MORE
      else
        let len = payload ! offset; offset = offset + 1; value = datetime_zero len in
        if len = 0 then Inr (MYSQL_BINARY_VALUE_DATETIME value, offset)
        else if (if date_only then len \<noteq> 4 else len \<noteq> 4 \<and> len \<noteq> 7 \<and> len \<noteq> 11) then Inl MYSQL_WIRE_STATUS_INVALID
        else
          and_then (mysql_wire_read_u16_le (Some payload) offset) (\<lambda>(year, offset).
          if offset > length payload \<or> length payload - offset < 2 then Inl MYSQL_WIRE_STATUS_NEED_MORE
          else
            let value = value\<lparr>dt_year := year, dt_month := payload ! offset, dt_day := payload ! (offset + 1)\<rparr>;
                offset = offset + 2 in
            and_then
              (if len \<ge> 7 then
                 (if offset > length payload \<or> length payload - offset < 3 then Inl MYSQL_WIRE_STATUS_NEED_MORE
                  else Inr (value\<lparr>dt_hour := payload ! offset, dt_minute := payload ! (offset + 1),
                                  dt_second := payload ! (offset + 2)\<rparr>, offset + 3))
               else Inr (value, offset)) (\<lambda>(value, offset).
            and_then
              (if len = 11 then
                 and_then (mysql_wire_read_u32_le (Some payload) offset) (\<lambda>(microsecond, offset).
                   Inr (value\<lparr>dt_microsecond := microsecond\<rparr>, offset))
               else Inr (value, offset)) (\<lambda>(value, offset).
            if \<not> mysql_row_valid_datetime value date_only then Inl MYSQL_WIRE_STATUS_INVALID
            else Inr (MYSQL_BINARY_VALUE_DATETIME value, offset)))))"

definition time_zero :: "u8 \<Rightarrow> mysql_binary_time" where
  "time_zero wire_length = \<lparr>tm_negative = False, tm_days = 0, tm_hour = 0, tm_minute = 0, tm_second = 0,
     tm_microsecond = 0, tm_wire_length = wire_length\<rparr>"

definition mysql_row_decode_time :: "bytes \<Rightarrow> nat \<Rightarrow> mysql_binary_data wire_read" where
  "mysql_row_decode_time payload offset =
     (if offset \<ge> length payload then Inl MYSQL_WIRE_STATUS_NEED_MORE
      else
        let len = payload ! offset; offset = offset + 1; value = time_zero len in
        if len = 0 then Inr (MYSQL_BINARY_VALUE_TIME value, offset)
        else if len \<noteq> 8 \<and> len \<noteq> 12 then Inl MYSQL_WIRE_STATUS_INVALID
        else if offset \<ge> length payload then Inl MYSQL_WIRE_STATUS_NEED_MORE
        else if payload ! offset > 1 then Inl MYSQL_WIRE_STATUS_INVALID
        else
          let value = value\<lparr>tm_negative := (payload ! offset \<noteq> 0)\<rparr> in
          and_then (mysql_wire_read_u32_le (Some payload) (offset + 1)) (\<lambda>(days, offset).
          if offset > length payload \<or> length payload - offset < 3 then Inl MYSQL_WIRE_STATUS_NEED_MORE
          else
            let value = value\<lparr>tm_days := days, tm_hour := payload ! offset, tm_minute := payload ! (offset + 1),
                          tm_second := payload ! (offset + 2)\<rparr>;
                offset = offset + 3 in
            and_then
              (if len = 12 then
                 and_then (mysql_wire_read_u32_le (Some payload) offset) (\<lambda>(microsecond, offset).
                   Inr (value\<lparr>tm_microsecond := microsecond\<rparr>, offset))
               else Inr (value, offset)) (\<lambda>(value, offset).
            if tm_hour value > 23 \<or> tm_minute value > 59 \<or> tm_second value > 59 \<or> tm_microsecond value > 999999
            then Inl MYSQL_WIRE_STATUS_INVALID
            else Inr (MYSQL_BINARY_VALUE_TIME value, offset))))"

definition mysql_row_decode_value :: "bytes \<Rightarrow> nat \<Rightarrow> mysql_column_definition \<Rightarrow> mysql_binary_data wire_read" where
  "mysql_row_decode_value payload offset column =
     (let type = col_type column in
      if type = MYSQL_FIELD_TYPE_NULL then Inr (MYSQL_BINARY_VALUE_NULL, offset)
      else if type = MYSQL_FIELD_TYPE_TINY then mysql_row_decode_integer payload offset column 1
      else if type \<in> {MYSQL_FIELD_TYPE_SHORT, MYSQL_FIELD_TYPE_YEAR} then mysql_row_decode_integer payload offset column 2
      else if type \<in> {MYSQL_FIELD_TYPE_LONG, MYSQL_FIELD_TYPE_INT24} then mysql_row_decode_integer payload offset column 4
      else if type = MYSQL_FIELD_TYPE_LONGLONG then mysql_row_decode_integer payload offset column 8
      else if type = MYSQL_FIELD_TYPE_FLOAT then mysql_row_decode_float payload offset
      else if type = MYSQL_FIELD_TYPE_DOUBLE then mysql_row_decode_double payload offset
      else if type = MYSQL_FIELD_TYPE_DATE then mysql_row_decode_datetime payload offset True
      else if type \<in> {MYSQL_FIELD_TYPE_DATETIME, MYSQL_FIELD_TYPE_TIMESTAMP} then mysql_row_decode_datetime payload offset False
      else if type = MYSQL_FIELD_TYPE_TIME then mysql_row_decode_time payload offset
      else if type \<in> {MYSQL_FIELD_TYPE_DECIMAL, MYSQL_FIELD_TYPE_VARCHAR, MYSQL_FIELD_TYPE_BIT, MYSQL_FIELD_TYPE_JSON,
                      MYSQL_FIELD_TYPE_NEWDECIMAL, MYSQL_FIELD_TYPE_ENUM, MYSQL_FIELD_TYPE_SET, MYSQL_FIELD_TYPE_TINY_BLOB,
                      MYSQL_FIELD_TYPE_MEDIUM_BLOB, MYSQL_FIELD_TYPE_LONG_BLOB, MYSQL_FIELD_TYPE_BLOB,
                      MYSQL_FIELD_TYPE_VAR_STRING, MYSQL_FIELD_TYPE_STRING, MYSQL_FIELD_TYPE_GEOMETRY}
      then mysql_row_decode_bytes payload offset
      else Inl MYSQL_WIRE_STATUS_INVALID)"


section \<open>Rows\<close>

text \<open>The column loop, with the columns still to decode; the element of a failed column is zeroed but for its type.\<close>

primrec binary_row_loop ::
    "mysql_column_definition list \<Rightarrow> nat \<Rightarrow> bytes \<Rightarrow> nat \<Rightarrow> mysql_binary_value list \<Rightarrow>
     mysql_wire_status \<times> mysql_binary_value list" where
  "binary_row_loop [] i payload offset values =
     (if offset = length payload then MYSQL_WIRE_STATUS_OK else MYSQL_WIRE_STATUS_INVALID, values)"
| "binary_row_loop (column # columns) i payload offset values =
     (let bit_index = i + 2;
          values = values[i := \<lparr>bv_data = MYSQL_BINARY_VALUE_NULL, bv_mysql_type = col_type column\<rparr>] in
      if bit (payload ! (1 + bit_index div 8)) (bit_index mod 8) then
        binary_row_loop columns (i + 1) payload offset values
      else
        case mysql_row_decode_value payload offset column of
          Inl status \<Rightarrow> (status, values)
        | Inr (data, offset) \<Rightarrow>
            binary_row_loop columns (i + 1) payload offset
              (values[i := \<lparr>bv_data = data, bv_mysql_type = col_type column\<rparr>]))"

definition mysql_wire_decode_binary_row ::
    "ptr \<Rightarrow> mysql_column_definition list option \<Rightarrow> nat \<Rightarrow> mysql_binary_value list option \<Rightarrow> nat \<Rightarrow>
     mysql_wire_status \<times> mysql_binary_value list option" where
  "mysql_wire_decode_binary_row payload columns column_count values value_capacity =
     (case payload of None \<Rightarrow> (MYSQL_WIRE_STATUS_INVALID, values)
      | Some d \<Rightarrow>
        if (columns = None \<and> column_count \<noteq> 0) \<or> (values = None \<and> column_count \<noteq> 0) then (MYSQL_WIRE_STATUS_INVALID, values)
        else if column_count > value_capacity then (MYSQL_WIRE_STATUS_LIMIT, values)
        else if column_count > SIZE_MAX - 9 then (MYSQL_WIRE_STATUS_LIMIT, values)
        else if length d < 1 then (MYSQL_WIRE_STATUS_NEED_MORE, values)
        else if d ! 0 \<noteq> 0 then (MYSQL_WIRE_STATUS_INVALID, values)
        else
          let null_bitmap_size = (column_count + 9) div 8 in
          if length d - 1 < null_bitmap_size then (MYSQL_WIRE_STATUS_NEED_MORE, values)
          else
            let cols = take column_count (case columns of None \<Rightarrow> [] | Some cs \<Rightarrow> cs) in
            (case values of
               None \<Rightarrow> (fst (binary_row_loop cols 0 d (1 + null_bitmap_size) []), None)
             | Some vs \<Rightarrow> map_prod id Some (binary_row_loop cols 0 d (1 + null_bitmap_size) vs)))"


section \<open>Sign extension\<close>

lemma minus_plus_1: "- (x + 1) = NOT (x :: 'a::len word)"
  by (simp add: minus_eq_not_plus_1 [of "x + 1"] not_eq_complement)

lemma signed_take_bit_63: "signed_take_bit 63 raw = (raw :: u64)"
proof (rule bit_word_eqI)
  fix n assume "n < LENGTH(64)"
  then have "min n 63 = n" by simp
  then show "bit (signed_take_bit 63 raw) n \<longleftrightarrow> bit raw n" using \<open>n < LENGTH(64)\<close> by (simp add: bit_signed_take_bit_iff)
qed

lemma mysql_row_sign_extend_correct:
  assumes "0 < bits" and "bits \<le> 64"
  shows "mysql_row_sign_extend raw bits = signed_take_bit (bits - 1) raw"
proof (cases "bits = 64")
  case True
  have "- (NOT raw + 1) = raw" unfolding minus_plus_1 by simp
  then show ?thesis using True by (simp add: mysql_row_sign_extend_def signed_take_bit_63)
next
  case False
  then have b: "bits < 64" using assms by simp
  let ?mask = "push_bit bits 1 - 1 :: u64"
  have m: "?mask = mask bits" by (simp add: mask_eq_exp_minus_1 push_bit_eq_mult)
  have low: "bit (raw AND mask bits) k \<longleftrightarrow> k < bits \<and> bit raw k" for k
    using b by (auto simp: bit_simps dest: bit_imp_le_length)
  have sgn: "(raw AND mask bits) AND push_bit (bits - 1) 1 = 0 \<longleftrightarrow> \<not> bit raw (bits - 1)"
  proof
    assume z: "(raw AND mask bits) AND push_bit (bits - 1) 1 = 0"
    have "bit ((raw AND mask bits) AND push_bit (bits - 1) 1) (bits - 1) \<longleftrightarrow> bit raw (bits - 1)"
      using assms b by (auto simp: bit_simps)
    with z show "\<not> bit raw (bits - 1)" by simp
  next
    assume "\<not> bit raw (bits - 1)"
    then show "(raw AND mask bits) AND push_bit (bits - 1) 1 = 0"
      by (intro bit_word_eqI) (auto simp: bit_simps)
  qed
  show ?thesis
  proof (cases "bit raw (bits - 1)")
    case True
    have "NOT (NOT (raw AND mask bits) AND mask bits) = signed_take_bit (bits - 1) raw"
    proof (rule bit_word_eqI)
      fix k assume k: "k < LENGTH(64)"
      show "bit (NOT (NOT (raw AND mask bits) AND mask bits)) k \<longleftrightarrow> bit (signed_take_bit (bits - 1) raw) k"
      proof (cases "k < bits")
        case True
        then have "min k (bits - 1) = k" by simp
        then show ?thesis using True k b by (auto simp: bit_simps)
      next
        case False
        then have "min k (bits - 1) = bits - 1" by simp
        then show ?thesis using False k b \<open>bit raw (bits - 1)\<close> by (auto simp: bit_simps)
      qed
    qed
    then show ?thesis
      using \<open>bits \<noteq> 64\<close> True sgn unfolding mysql_row_sign_extend_def Let_def m minus_plus_1
      by (simp only: if_False simp_thms)
  next
    case False
    have "raw AND mask bits = signed_take_bit (bits - 1) raw"
    proof (rule bit_word_eqI)
      fix k assume k: "k < LENGTH(64)"
      show "bit (raw AND mask bits) k \<longleftrightarrow> bit (signed_take_bit (bits - 1) raw) k"
      proof (cases "k < bits")
        case True
        then have "min k (bits - 1) = k" by simp
        then show ?thesis using True k b by (auto simp: bit_simps)
      next
        case kb: False
        then have "min k (bits - 1) = bits - 1" by simp
        then show ?thesis using kb k b \<open>\<not> bit raw (bits - 1)\<close> by (auto simp: bit_simps)
      qed
    qed
    then show ?thesis
      using \<open>bits \<noteq> 64\<close> False sgn unfolding mysql_row_sign_extend_def Let_def m
      by (simp only: if_False if_True simp_thms)
  qed
qed


section \<open>Decoding the encodings\<close>

definition column_ok :: "mysql_column_definition \<Rightarrow> bool" where
  "column_ok c \<longleftrightarrow>
     (\<forall>b \<in> {col_catalog c, col_schema c, col_table c, col_org_table c, col_name c, col_org_name c}.
        \<exists>bs. b = wire_bytes bs \<and> length bs \<le> SIZE_MAX)"

text \<open>The bytes of a string that is not null.\<close>

definition wire_text :: "mysql_wire_bytes \<Rightarrow> bytes" where
  "wire_text b = (case wire_value b of None \<Rightarrow> [] | Some bs \<Rightarrow> bs)"

lemma wire_text_simps [simp]: "wire_text (wire_bytes bs) = bs" "wire_text wire_bytes_zero = []"
  by (simp_all add: wire_text_def)

definition column_payload :: "mysql_column_definition \<Rightarrow> bytes" where
  "column_payload c =
     lenenc_bytes (wire_text (col_catalog c)) @ lenenc_bytes (wire_text (col_schema c)) @
     lenenc_bytes (wire_text (col_table c)) @ lenenc_bytes (wire_text (col_org_table c)) @
     lenenc_bytes (wire_text (col_name c)) @ lenenc_bytes (wire_text (col_org_name c)) @
     [0x0c] @ u16_bytes (col_character_set c) @ u32_bytes (col_column_length c) @
     [col_type c] @ u16_bytes (col_flags c) @ [col_decimals c] @ [0, 0]"

lemma required_bytes_seg:
  assumes "b = wire_bytes bs" and "length bs \<le> SIZE_MAX" and "seg d off (lenenc_bytes (wire_text b)) off'"
  shows "mysql_row_read_required_bytes (Some d) off = Inr (b, off')"
  using assms lenenc_bytes_seg [of bs d off off']
  by (simp add: mysql_row_read_required_bytes_def) (simp add: wire_bytes_def)

lemma lenenc_int_12: "[0x0c] = lenenc_int 12"
  by (simp add: lenenc_int_def)

lemma decode_column_payload:
  assumes "column_ok c"
  shows "mysql_wire_decode_column_definition41 (Some (column_payload c)) = Inr c"
proof -
  let ?d = "column_payload c"
  have "seg ?d 0 (column_payload c) (length ?d)" by (rule seg_whole)
  then obtain o1 o2 o3 o4 o5 o6 o7 o8 o9 o10 o11 o12 where
    s: "seg ?d 0 (lenenc_bytes (wire_text (col_catalog c))) o1" "seg ?d o1 (lenenc_bytes (wire_text (col_schema c))) o2"
      "seg ?d o2 (lenenc_bytes (wire_text (col_table c))) o3" "seg ?d o3 (lenenc_bytes (wire_text (col_org_table c))) o4"
      "seg ?d o4 (lenenc_bytes (wire_text (col_name c))) o5" "seg ?d o5 (lenenc_bytes (wire_text (col_org_name c))) o6"
    and i: "seg ?d o6 (lenenc_int 12) o7" "seg ?d o7 (u16_bytes (col_character_set c)) o8"
      "seg ?d o8 (u32_bytes (col_column_length c)) o9"
    and t: "seg ?d o9 [col_type c] o10" and f: "seg ?d o10 (u16_bytes (col_flags c)) o11"
    and e: "seg ?d o11 [col_decimals c] o12" and z: "seg ?d o12 [0, 0] (length ?d)"
    unfolding column_payload_def seg_append lenenc_int_12 by blast
  have tt: "o9 < length ?d" "?d ! o9 = col_type c" "o10 = Suc o9" using t by (auto simp: seg_Cons)
  have ee: "o11 < length ?d" "?d ! o11 = col_decimals c" "o12 = Suc o11" using e by (auto simp: seg_Cons)
  have zz: "?d ! Suc o11 = 0" "?d ! Suc (Suc o11) = 0" "length ?d = Suc (Suc (Suc o11))"
    using z ee by (auto simp: seg_Cons)
  have strings: "mysql_row_read_required_bytes (Some ?d) 0 = Inr (col_catalog c, o1)"
    "mysql_row_read_required_bytes (Some ?d) o1 = Inr (col_schema c, o2)"
    "mysql_row_read_required_bytes (Some ?d) o2 = Inr (col_table c, o3)"
    "mysql_row_read_required_bytes (Some ?d) o3 = Inr (col_org_table c, o4)"
    "mysql_row_read_required_bytes (Some ?d) o4 = Inr (col_name c, o5)"
    "mysql_row_read_required_bytes (Some ?d) o5 = Inr (col_org_name c, o6)"
    using assms s required_bytes_seg unfolding column_ok_def by (blast, blast, blast, blast, blast, blast)
  have ints: "mysql_wire_read_lenenc_uint (Some ?d) o6 = Inr ((12, False), o7)"
    "mysql_wire_read_u16_le (Some ?d) o7 = Inr (col_character_set c, o8)"
    "mysql_wire_read_u32_le (Some ?d) o8 = Inr (col_column_length c, o9)"
    "mysql_wire_read_u16_le (Some ?d) (Suc o9) = Inr (col_flags c, o11)"
    using i f tt(3) by (simp_all add: lenenc_int_seg u16c.dec_seg u32c.dec_seg)
  show ?thesis
    using tt ee zz unfolding mysql_wire_decode_column_definition41_def
    by (simp add: strings ints)
qed

text \<open>
  A row whose bitmap, shifted by two bits, marks the nulls, and whose other values lie one after the
  other, is decoded column by column.  \<open>items\<close> gives for each column its data and its bytes.
\<close>

definition item_decodes :: "bytes \<Rightarrow> mysql_column_definition \<Rightarrow> mysql_binary_data \<times> bytes \<Rightarrow> bool" where
  "item_decodes d c item \<longleftrightarrow>
     (\<forall>off off'. seg d off (snd item) off' \<longrightarrow> mysql_row_decode_value d off c = Inr (fst item, off'))"

lemma binary_row_loop_seg:
  assumes "length cols = length items" and "i + length cols \<le> length vals"
    and nulls: "\<forall>j < length items. bit (d ! (1 + (i + j + 2) div 8)) ((i + j + 2) mod 8) \<longleftrightarrow> null (items ! j)"
    and null: "\<forall>j < length items. null (items ! j) \<longrightarrow> items ! j = (MYSQL_BINARY_VALUE_NULL, [])"
    and item: "\<forall>j < length items. \<not> null (items ! j) \<longrightarrow> item_decodes d (cols ! j) (items ! j)"
    and "seg d off (concat (map snd items)) (length d)"
  shows "binary_row_loop cols i d off vals =
     (MYSQL_WIRE_STATUS_OK,
      take i vals @ map2 (\<lambda>c item. \<lparr>bv_data = fst item, bv_mysql_type = col_type c\<rparr>) cols items @
      drop (i + length cols) vals)"
  using assms
proof (induction cols arbitrary: i items off vals)
  case Nil
  then show ?case by simp
next
  case (Cons c cols)
  obtain it items' where items: "items = it # items'" using Cons(2) by (cases items) auto
  have len: "length cols = length items'" using Cons(2) items by simp
  have bit0: "bit (d ! (1 + (i + 2) div 8)) ((i + 2) mod 8) \<longleftrightarrow> null it" using Cons(4) items by force
  have bits: "\<forall>j < length items'. bit (d ! (1 + (Suc i + j + 2) div 8)) ((Suc i + j + 2) mod 8) \<longleftrightarrow> null (items' ! j)"
  proof (intro allI impI)
    fix j assume "j < length items'"
    then show "bit (d ! (1 + (Suc i + j + 2) div 8)) ((Suc i + j + 2) mod 8) \<longleftrightarrow> null (items' ! j)"
      using Cons(4) [rule_format, of "Suc j"] items by simp
  qed
  have nl: "\<forall>j < length items'. null (items' ! j) \<longrightarrow> items' ! j = (MYSQL_BINARY_VALUE_NULL, [])"
    using Cons(5) items by auto
  have its: "\<forall>j < length items'. \<not> null (items' ! j) \<longrightarrow> item_decodes d (cols ! j) (items' ! j)"
    using Cons(6) items by auto
  obtain off' where s1: "seg d off (snd it) off'" and s2: "seg d off' (concat (map snd items')) (length d)"
    using Cons(7) items by (auto simp: seg_append)
  let ?v = "\<lparr>bv_data = fst it, bv_mysql_type = col_type c\<rparr>"
  let ?null = "\<lparr>bv_data = MYSQL_BINARY_VALUE_NULL, bv_mysql_type = col_type c\<rparr>"
  have step: "binary_row_loop (c # cols) i d off vals = binary_row_loop cols (Suc i) d off' (vals[i := ?v])"
  proof (cases "null it")
    case True
    then have it: "it = (MYSQL_BINARY_VALUE_NULL, [])" using Cons(5) items by force
    then have "off' = off" using s1 by simp
    then show ?thesis using True bit0 it by (simp add: Let_def)
  next
    case False
    then have "mysql_row_decode_value d off c = Inr (fst it, off')"
      using Cons(6) items s1 by (fastforce simp: item_decodes_def)
    then show ?thesis using False bit0 by (simp add: Let_def)
  qed
  have "binary_row_loop cols (Suc i) d off' (vals[i := ?v]) =
     (MYSQL_WIRE_STATUS_OK,
      take (Suc i) (vals[i := ?v]) @ map2 (\<lambda>c item. \<lparr>bv_data = fst item, bv_mysql_type = col_type c\<rparr>) cols items' @
      drop (Suc i + length cols) (vals[i := ?v]))"
    using Cons(3) by (intro Cons(1) [OF len _ bits nl its s2]) simp
  then show ?case
    using step Cons(3) items by (simp add: take_Suc_conv_app_nth)
qed


section \<open>Properties\<close>

text \<open>
  C18. The hand-written sign extension of row integers, which avoids every implementation-defined
  conversion, is the two's complement reading of the low \<open>bits\<close> bits, for every width from 1 to 64.
\<close>

theorem sign_extend_twos_complement:
  assumes "0 < bits" and "bits \<le> 64"
  shows "sint (mysql_row_sign_extend raw bits) = signed_take_bit (bits - 1) (uint raw)"
proof -
  have "sint (signed_take_bit (bits - 1) raw) = signed_take_bit (bits - 1) (uint raw)"
  proof (rule bit_eqI)
    fix n
    show "bit (sint (signed_take_bit (bits - 1) raw)) n \<longleftrightarrow> bit (signed_take_bit (bits - 1) (uint raw)) n"
    proof (cases "n < 64")
      case True
      then have "min (min n 63) (bits - 1) = min n (bits - 1)" by simp
      then show ?thesis using assms True by (auto simp: bit_signed_take_bit_iff bit_sint_iff bit_uint_iff min_def)
    next
      case False
      then have "min n (bits - 1) = bits - 1" "min 63 (bits - 1) = bits - 1" using assms by simp_all
      then show ?thesis using assms False by (auto simp: bit_signed_take_bit_iff bit_sint_iff bit_uint_iff)
    qed
  qed
  then show ?thesis using mysql_row_sign_extend_correct [OF assms] by simp
qed

theorem sign_extend_twos_complement_witness: "sint (mysql_row_sign_extend 0xfe 8) = - 2"
proof -
  have "signed_take_bit (8 - 1) (uint (0xfe :: u64)) = (- 2 :: int)" by simp
  with sign_extend_twos_complement [of 8 "0xfe"] show ?thesis by simp
qed

end
