(* ===== verification/C_Printf.thy ===== *)
theory C_Printf
  imports Turbodb_Types
begin

text \<open>
  What the sources use of the C library's number formatting: \<open>%\<close>\<open>PRIu64\<close>, \<open>%\<close>\<open>PRId64\<close> and \<open>%.17g\<close>.
  A double is formatted from the exact number it denotes: its first 17 significant digits, rounded
  half to even, in positional or exponent style by the size of the decimal exponent, without
  trailing zeros of the fraction.
\<close>

section \<open>Integers\<close>

definition digit :: "nat \<Rightarrow> u8" where
  "digit d = of_nat (48 + d)"

fun decimal :: "nat \<Rightarrow> bytes" where
  "decimal n = (if n < 10 then [digit n] else decimal (n div 10) @ [digit (n mod 10)])"

declare decimal.simps [simp del]

definition print_u64 :: "u64 \<Rightarrow> bytes" where
  "print_u64 v = decimal (unat v)"

definition print_i64 :: "i64 \<Rightarrow> bytes" where
  "print_i64 v = (if sint v < 0 then 0x2d # decimal (nat (- sint v)) else decimal (nat (sint v)))"

text \<open>Reading the digits back.\<close>

definition decimal_value :: "bytes \<Rightarrow> nat" where
  "decimal_value ds = foldl (\<lambda>n c. n * 10 + (unat c - 48)) 0 ds"

lemma unat_digit: "d < 10 \<Longrightarrow> unat (digit d) = 48 + d"
  unfolding digit_def unsigned_of_nat by (simp add: take_bit_nat_eq_self)

lemma decimal_value_decimal: "decimal_value (decimal n) = n"
proof (induction n rule: decimal.induct)
  case (1 n)
  show ?case
  proof (cases "n < 10")
    case True
    then show ?thesis by (simp add: decimal.simps [of n] decimal_value_def unat_digit)
  next
    case False
    then show ?thesis
      using 1 by (simp add: decimal.simps [of n] decimal_value_def unat_digit)
  qed
qed

lemma length_decimal: "0 < k \<Longrightarrow> n < 10 ^ k \<Longrightarrow> length (decimal n) \<le> k"
proof (induction n arbitrary: k rule: decimal.induct)
  case (1 n)
  show ?case
  proof (cases "n < 10")
    case True
    then show ?thesis using 1(2) by (simp add: decimal.simps [of n])
  next
    case False
    then obtain j where j: "k = Suc j" "0 < j" using 1(2,3) by (cases k; cases "k - 1") auto
    then have "n div 10 < 10 ^ j" using 1(3) by (simp add: less_mult_imp_div_less mult.commute)
    then show ?thesis using 1(1) [OF False j(2)] False j by (simp add: decimal.simps [of n])
  qed
qed

lemma length_print_u64: "length (print_u64 v) \<le> 20"
proof -
  have "unat v < 2 ^ LENGTH(64)" by (rule unsigned_less)
  then show ?thesis unfolding print_u64_def by (intro length_decimal) simp_all
qed

lemma length_print_i64: "length (print_i64 v) \<le> 20"
proof -
  have "- (2 ^ 63) \<le> sint v" "sint v < 2 ^ 63" using sint_ge [of v] sint_lt [of v] by simp_all
  then have "nat (- sint v) < 10 ^ 19" "nat (sint v) < 10 ^ 19" by simp_all
  then have "length (decimal (nat (- sint v))) \<le> 19" "length (decimal (nat (sint v))) \<le> 19"
    by (intro length_decimal; simp)+
  then show ?thesis by (simp add: print_i64_def)
qed


section \<open>Doubles\<close>

text \<open>Division rounded half to even.\<close>

definition round_div :: "nat \<Rightarrow> nat \<Rightarrow> nat" where
  "round_div a b =
     (let q = a div b; r = a mod b in
      if 2 * r < b \<or> 2 * r = b \<and> even q then q else q + 1)"

text \<open>
  The decimal exponent of \<open>num / den\<close>: for numbers from 1 on the number of digits of the integral
  part, and else the number of tenfold steps that lead to 1.
\<close>

fun tenfold_steps :: "nat \<Rightarrow> nat \<Rightarrow> nat \<Rightarrow> nat" where
  "tenfold_steps 0 num den = 0"
| "tenfold_steps (Suc fuel) num den = (if num \<ge> den then 0 else Suc (tenfold_steps fuel (num * 10) den))"

definition decimal_exponent :: "nat \<Rightarrow> nat \<Rightarrow> int" where
  "decimal_exponent num den =
     (if num \<ge> den then int (length (decimal (num div den))) - 1 else - int (tenfold_steps 400 num den))"

definition strip_zeros :: "bytes \<Rightarrow> bytes" where
  "strip_zeros ds = rev (dropWhile (\<lambda>c. c = 0x30) (rev ds))"

definition with_fraction :: "bytes \<Rightarrow> bytes \<Rightarrow> bytes" where
  "with_fraction whole fraction = (let f = strip_zeros fraction in if f = [] then whole else whole @ 0x2e # f)"

text \<open>17 significant digits and their exponent, after rounding.\<close>

definition significant :: "nat \<Rightarrow> nat \<Rightarrow> nat \<times> int" where
  "significant num den =
     (let x = decimal_exponent num den;
          n = (if x \<le> 16 then round_div (num * 10 ^ nat (16 - x)) den else round_div num (den * 10 ^ nat (x - 16)))
      in if n = 10 ^ 17 then (10 ^ 16, x + 1) else (n, x))"

definition print_17g :: "f64 \<Rightarrow> bytes" where
  "print_17g w =
     (let sign = (if bit w 63 then [0x2d] else []);
          num = nat \<bar>f64_scaled w\<bar>; den = 2 ^ 1074 in
      if num = 0 then sign @ [0x30]
      else
        let (n, x) = significant num den; ds = decimal n in
        if - 4 \<le> x \<and> x < 17 then
          (if x \<ge> 0 then sign @ with_fraction (take (nat x + 1) ds) (drop (nat x + 1) ds)
           else sign @ with_fraction [0x30] (replicate (nat (- x) - 1) 0x30 @ ds))
        else
          sign @ with_fraction (take 1 ds) (drop 1 ds) @
            [0x65, if x < 0 then 0x2d else 0x2b] @
            (let e = decimal (nat \<bar>x\<bar>) in if length e < 2 then 0x30 # e else e))"


subsection \<open>A formatted double fits a 64-byte buffer\<close>

lemma decimal_bound: "n < 10 ^ length (decimal n)"
proof (induction n rule: decimal.induct)
  case (1 n)
  show ?case
  proof (cases "n < 10")
    case True
    then show ?thesis by (simp add: decimal.simps [of n])
  next
    case False
    have "n = n div 10 * 10 + n mod 10" by simp
    also have "\<dots> < (n div 10 + 1) * 10" by simp
    also have "\<dots> \<le> 10 ^ length (decimal (n div 10)) * 10"
      using 1 [OF False] by (intro mult_right_mono) simp_all
    finally show ?thesis using False by (simp add: decimal.simps [of n])
  qed
qed

lemma decimal_nonempty: "0 < length (decimal n)"
  by (subst decimal.simps) simp

lemma tenfold_steps_below:
  "0 < tenfold_steps fuel num den \<Longrightarrow> num * 10 ^ (tenfold_steps fuel num den - 1) < den"
proof (induction fuel arbitrary: num)
  case (Suc fuel)
  show ?case
  proof (cases "tenfold_steps fuel (num * 10) den = 0")
    case True
    then show ?thesis using Suc(2) by (auto split: if_splits)
  next
    case False
    then obtain k where k: "tenfold_steps fuel (num * 10) den = Suc k" by (cases "tenfold_steps fuel (num * 10) den") auto
    then have "num * 10 * 10 ^ k < den" using Suc(1) [of "num * 10"] by simp
    then show ?thesis using Suc(2) k by (auto split: if_splits simp: mult.assoc)
  qed
qed simp

lemma tenfold_steps_pos: "num < den \<Longrightarrow> 0 < fuel \<Longrightarrow> 0 < tenfold_steps fuel num den"
  by (cases fuel) simp_all

lemma tenfold_steps_fuel: "tenfold_steps fuel num den \<le> fuel"
  by (induction fuel arbitrary: num) simp_all

lemma decimal_exponent_upper:
  fixes num :: nat
  assumes "0 < den"
  defines "x \<equiv> decimal_exponent num den"
  shows "if x \<le> 16 then num * 10 ^ nat (16 - x) < den * 10 ^ 17 else num < den * 10 ^ nat (x - 16) * 10 ^ 17"
proof (cases "num \<ge> den")
  case True
  define L where "L = length (decimal (num div den))"
  have L: "0 < L" unfolding L_def by (rule decimal_nonempty)
  have "num < den * (num div den + 1)" using assms(1) by (simp add: dividend_less_times_div)
  also have "\<dots> \<le> den * 10 ^ L" using decimal_bound [of "num div den"] unfolding L_def by (intro mult_left_mono) simp_all
  finally have lt: "num < den * 10 ^ L" .
  have x: "x = int L - 1" using True by (simp add: x_def decimal_exponent_def L_def)
  show ?thesis
  proof (cases "x \<le> 16")
    case le: True
    then have e: "nat (16 - x) = 17 - L" "L \<le> 17" using x L by auto
    have "num * 10 ^ (17 - L) < den * 10 ^ L * 10 ^ (17 - L)" using lt by simp
    also have "\<dots> = den * 10 ^ 17" using e(2) by (simp only: mult.assoc power_add [symmetric]) simp
    finally show ?thesis using le e by simp
  next
    case False
    then have e: "nat (x - 16) = L - 17" "17 \<le> L" using x by auto
    have "den * 10 ^ (L - 17) * 10 ^ 17 = den * 10 ^ L" using e(2) by (simp only: mult.assoc power_add [symmetric]) simp
    then have "num < den * 10 ^ nat (x - 16) * 10 ^ 17" unfolding e(1) using lt by (simp only:)
    then show ?thesis using False by (simp only: if_False)
  qed
next
  case False
  define k where "k = tenfold_steps 400 num den"
  have k: "0 < k" unfolding k_def using False by (intro tenfold_steps_pos) simp_all
  have lt: "num * 10 ^ (k - 1) < den" using k unfolding k_def by (rule tenfold_steps_below)
  have x: "x = - int k" using False by (simp add: x_def decimal_exponent_def k_def)
  then have "nat (16 - x) = (k - 1) + 17" using k by simp
  then have "num * 10 ^ nat (16 - x) = num * 10 ^ (k - 1) * 10 ^ 17" by (simp only: power_add mult.assoc)
  also have "\<dots> < den * 10 ^ 17" by (rule mult_strict_right_mono [OF lt]) simp
  finally show ?thesis using x by (simp only:) simp
qed

lemma round_div_le: "0 < b \<Longrightarrow> a < b * c \<Longrightarrow> round_div a b \<le> c"
proof -
  assume "0 < b" "a < b * c"
  then have "a div b < c" by (simp add: less_mult_imp_div_less mult.commute)
  then show ?thesis by (simp add: round_div_def Let_def)
qed

lemma significant_digits:
  assumes "0 < den"
  shows "length (decimal (fst (significant num den))) \<le> 17"
proof -
  define x where "x = decimal_exponent num den"
  define n where "n = (if x \<le> 16 then round_div (num * 10 ^ nat (16 - x)) den else round_div num (den * 10 ^ nat (x - 16)))"
  have "n \<le> 10 ^ 17"
    using decimal_exponent_upper [OF assms, of num] assms
    by (auto simp: n_def x_def [symmetric] split: if_splits intro!: round_div_le)
  moreover have "significant num den = (if n = 10 ^ 17 then (10 ^ 16, x + 1) else (n, x))"
    by (simp add: significant_def n_def x_def Let_def)
  ultimately have "fst (significant num den) < 10 ^ 17" by auto
  then show ?thesis by (intro length_decimal) simp_all
qed

lemma significant_exponent: "\<bar>snd (significant num den)\<bar> \<le> \<bar>decimal_exponent num den\<bar> + 1"
  unfolding significant_def Let_def by (auto split: if_splits)

lemma length_strip_zeros: "length (strip_zeros ds) \<le> length ds"
  using length_dropWhile_le [of "\<lambda>c. c = 0x30" "rev ds"] by (simp add: strip_zeros_def)

lemma length_with_fraction: "length (with_fraction whole fraction) \<le> length whole + 1 + length fraction"
  using length_strip_zeros [of fraction] by (simp add: with_fraction_def Let_def)

lemma f64_scaled_bound:
  assumes "f64_isfinite w"
  shows "nat \<bar>f64_scaled w\<bar> < 2 ^ 2098"
proof -
  have e: "f64_exponent w < 2047"
    using assms f64_exponent_nat [of w] by (simp add: f64_isfinite_def)
  have m: "f64_mantissa w < 2 ^ 52" unfolding f64_mantissa_nat by simp
  have "(2 ^ 52 + f64_mantissa w) * 2 ^ (f64_exponent w - 1) < 2 ^ 53 * 2 ^ 2045"
  proof (rule mult_less_le_imp_less)
    show "2 ^ 52 + f64_mantissa w < 2 ^ 53" using m by simp
    show "(2 :: nat) ^ (f64_exponent w - 1) \<le> 2 ^ 2045" using e by (intro power_increasing) simp_all
  qed simp_all
  also have "\<dots> = 2 ^ 2098" by (simp only: power_add [symmetric]) simp
  finally have big: "(2 ^ 52 + f64_mantissa w) * 2 ^ (f64_exponent w - 1) < 2 ^ 2098" .
  have small: "f64_mantissa w < 2 ^ 2098" using m by (rule less_le_trans) (intro power_increasing, simp_all)
  have "nat \<bar>f64_scaled w\<bar> = (if f64_exponent w = 0 then f64_mantissa w else (2 ^ 52 + f64_mantissa w) * 2 ^ (f64_exponent w - 1))"
    by (simp add: f64_scaled_def Let_def nat_mult_distrib nat_power_eq nat_add_distrib)
  then show ?thesis using big small by simp
qed

lemma decimal_exponent_range:
  assumes "num < 2 ^ 2098"
  shows "\<bar>decimal_exponent num (2 ^ 1074)\<bar> \<le> 400"
proof (cases "num \<ge> 2 ^ 1074")
  case True
  have "num div 2 ^ 1074 < 2 ^ 1024"
    using assms by (intro less_mult_imp_div_less) (simp only: power_add [symmetric], simp)
  also have "(2 :: nat) ^ 1024 \<le> 10 ^ 390" by simp
  finally have "length (decimal (num div 2 ^ 1074)) \<le> 390" by (intro length_decimal) simp_all
  then show ?thesis using True decimal_nonempty [of "num div 2 ^ 1074"] by (simp add: decimal_exponent_def)
next
  case False
  then show ?thesis using tenfold_steps_fuel [of 400 num "2 ^ 1074"] by (simp add: decimal_exponent_def)
qed

lemma length_print_17g:
  assumes "f64_isfinite w"
  shows "length (print_17g w) \<le> 24"
proof -
  define num where "num = nat \<bar>f64_scaled w\<bar>"
  obtain n x where s: "significant num (2 ^ 1074) = (n, x)" by fastforce
  have ds: "length (decimal n) \<le> 17" using significant_digits [of "2 ^ 1074" num] unfolding s by simp
  have "num < 2 ^ 2098" unfolding num_def using assms by (rule f64_scaled_bound)
  then have "\<bar>x\<bar> < 1000"
    using significant_exponent [of num "2 ^ 1074"] decimal_exponent_range unfolding s by fastforce
  then have e: "length (decimal (nat \<bar>x\<bar>)) \<le> 3" by (intro length_decimal) simp_all
  define sg where "sg = (if bit w 63 then [0x2d :: u8] else [])"
  define a where "a = with_fraction (take (nat x + 1) (decimal n)) (drop (nat x + 1) (decimal n))"
  define b where "b = with_fraction [0x30] (replicate (nat (- x) - 1) 0x30 @ decimal n)"
  define c where "c = with_fraction (take 1 (decimal n)) (drop 1 (decimal n))"
  define f where "f = (if length (decimal (nat \<bar>x\<bar>)) < 2 then 0x30 # decimal (nat \<bar>x\<bar>) else decimal (nat \<bar>x\<bar>))"
  have lengths: "length sg \<le> 1" "length a \<le> 18" "- 4 \<le> x \<Longrightarrow> length b \<le> 23" "length c \<le> 18" "length f \<le> 3"
  proof -
    show "length sg \<le> 1" by (simp add: sg_def)
    have split: "length (take k ds) + length (drop k ds) = length ds" for k and ds :: bytes by simp
    show "length a \<le> 18"
      using ds length_with_fraction [of "take (nat x + 1) (decimal n)" "drop (nat x + 1) (decimal n)"]
        split [of "nat x + 1" "decimal n"] unfolding a_def by linarith
    show "length c \<le> 18"
      using ds length_with_fraction [of "take 1 (decimal n)" "drop 1 (decimal n)"]
        split [of 1 "decimal n"] unfolding c_def by linarith
    show "length b \<le> 23" if "- 4 \<le> x"
      using that ds length_with_fraction [of "[0x30]" "replicate (nat (- x) - 1) 0x30 @ decimal n"]
      unfolding b_def by simp
    show "length f \<le> 3" using e by (simp add: f_def)
  qed
  have "print_17g w = (if num = 0 then sg @ [0x30] else if - 4 \<le> x \<and> x < 17 then (if 0 \<le> x then sg @ a else sg @ b)
    else sg @ c @ [0x65, if x < 0 then 0x2d else 0x2b] @ f)"
    unfolding print_17g_def num_def [symmetric] Let_def s sg_def a_def b_def c_def f_def prod.case by (rule refl)
  then show ?thesis using lengths by (cases "- 4 \<le> x") auto
qed

end
