(* ===== verification/Server_Response.thy ===== *)
theory Server_Response
  imports Server_Command Wire_Result Wire_Row C_Printf
begin

unbundle bit_operations_syntax

text \<open>
  The response encoders of the server, \<open>src/tidessql/server/mysql/response.c\<close>: OK, ERR, EOF and
  PREPARE packets, column definitions, column counts and rows of both protocols.

  Every encoder runs twice over the same code: once without a buffer, to measure, and once into the
  caller's buffer.  The writer is passed through the steps as a record.  The decimal point of the C
  locale, which \<open>text_value\<close> asks for, is an argument.

  \<open>forget\<close> drops the buffer of a writer; that every step commutes with it makes the measuring pass
  decide the outcome of the writing pass.  \<open>puts\<close> gives the bytes a step appends.
\<close>

section \<open>Data\<close>

abbreviation (input) "TDSQL_MYSQL_SERVER_IN_TRANS \<equiv> 0x0001 :: u16"
abbreviation (input) "TDSQL_MYSQL_SERVER_AUTOCOMMIT \<equiv> 0x0002 :: u16"
abbreviation (input) "TDSQL_MYSQL_SERVER_IN_TRANS_READONLY \<equiv> 0x2000 :: u16"
abbreviation (input) "TDSQL_MYSQL_ERRMSG_MAX \<equiv> 512 :: nat"
abbreviation (input) "UINT16_MAX \<equiv> 65535 :: nat"

record writer =
  w_data :: ptr
  w_size :: nat
  w_capacity :: nat
  w_status :: tdsql_mysql_status

datatype response =
    RESPONSE_OK "mysql_wire_ok_packet option" bool
  | RESPONSE_ERR u16 ptr mysql_wire_bytes
  | RESPONSE_EOF "mysql_wire_eof_packet option"
  | RESPONSE_PREPARE "mysql_stmt_prepare_ok option"
  | RESPONSE_COLUMN "mysql_column_definition option"
  | RESPONSE_COUNT nat
  | RESPONSE_ROW "turbodb_value list option" nat bool


section \<open>Operations\<close>

definition emit :: "writer \<Rightarrow> ptr \<Rightarrow> nat \<Rightarrow> writer" where
  "emit w data sz =
     (if w_status w \<noteq> TDSQL_MYSQL_OK then w
      else if (data = None \<and> sz \<noteq> 0) \<or> w_size w > w_capacity w then w\<lparr>w_status := TDSQL_MYSQL_INVALID\<rparr>
      else if sz > w_capacity w - w_size w then w\<lparr>w_status := TDSQL_MYSQL_LIMIT\<rparr>
      else
        w\<lparr>w_data := (case (w_data w, data) of
                       (Some d, Some bs) \<Rightarrow> Some (memcpy d (w_size w) (take sz bs))
                     | _ \<Rightarrow> w_data w),
          w_size := w_size w + sz\<rparr>)"

definition fail_with :: "writer \<Rightarrow> mysql_wire_status \<Rightarrow> writer" where
  "fail_with w status = (if w_status w = TDSQL_MYSQL_OK then w\<lparr>w_status := of_wire status\<rparr> else w)"

definition response_integer :: "writer \<Rightarrow> u64 \<Rightarrow> nat \<Rightarrow> writer" where
  "response_integer w v width =
     (let bytes = replicate 8 0;
          r = (if width = 1 then (MYSQL_WIRE_STATUS_OK, Some (bytes[0 := ucast v]), 0)
               else if width = 2 then mysql_wire_write_u16_le (Some bytes) 8 0 (ucast v)
               else if width = 4 then mysql_wire_write_u32_le (Some bytes) 8 0 (ucast v)
               else if width = 8 then mysql_wire_write_u64_le (Some bytes) 8 0 v
               else (MYSQL_WIRE_STATUS_INVALID, Some bytes, 0))
      in case r of (status, bytes, offset) \<Rightarrow>
           if status \<noteq> MYSQL_WIRE_STATUS_OK then fail_with w status else emit w bytes width)"

definition response_lenenc :: "writer \<Rightarrow> u64 \<Rightarrow> writer" where
  "response_lenenc w v =
     (case mysql_wire_write_lenenc_uint (Some (replicate 9 0)) 9 0 v of (status, bytes, sz) \<Rightarrow>
        if status \<noteq> MYSQL_WIRE_STATUS_OK then fail_with w status else emit w bytes sz)"

definition response_bytes :: "writer \<Rightarrow> mysql_wire_bytes \<Rightarrow> writer" where
  "response_bytes w v =
     (if wb_is_null v \<or> (wb_data v = None \<and> wb_length v \<noteq> 0) then w\<lparr>w_status := TDSQL_MYSQL_INVALID\<rparr>
      else emit (response_lenenc w (of_nat (wb_length v))) (wb_data v) (wb_length v))"

definition status_flags :: "u16 \<Rightarrow> tdsql_mysql_status" where
  "status_flags flags =
     (let supported = TDSQL_MYSQL_SERVER_IN_TRANS OR TDSQL_MYSQL_SERVER_AUTOCOMMIT OR TDSQL_MYSQL_SERVER_IN_TRANS_READONLY in
      if flags AND NOT supported \<noteq> 0 then TDSQL_MYSQL_UNSUPPORTED
      else if flags AND TDSQL_MYSQL_SERVER_IN_TRANS_READONLY \<noteq> 0 \<and> flags AND TDSQL_MYSQL_SERVER_IN_TRANS = 0
      then TDSQL_MYSQL_INVALID
      else TDSQL_MYSQL_OK)"

definition ok_write :: "writer \<Rightarrow> mysql_wire_ok_packet option \<Rightarrow> bool \<Rightarrow> writer" where
  "ok_write w packet deprecated =
     (case packet of None \<Rightarrow> w\<lparr>w_status := TDSQL_MYSQL_INVALID\<rparr>
      | Some p \<Rightarrow>
        if ok_header p \<noteq> 0 \<and> ok_header p \<noteq> 0xfe then w\<lparr>w_status := TDSQL_MYSQL_INVALID\<rparr>
        else if (ok_header p = 0xfe \<and> \<not> deprecated) \<or> wb_length (ok_session_state p) \<noteq> 0
        then w\<lparr>w_status := TDSQL_MYSQL_UNSUPPORTED\<rparr>
        else
          let w = w\<lparr>w_status := status_flags (ok_status_flags p)\<rparr>;
              w = response_integer w (ucast (ok_header p)) 1;
              w = response_lenenc w (ok_affected_rows p);
              w = response_lenenc w (ok_last_insert_id p);
              w = response_integer w (ucast (ok_status_flags p)) 2;
              w = response_integer w (ucast (ok_warnings p)) 2
          in if wb_is_null (ok_info p) \<or> (wb_data (ok_info p) = None \<and> wb_length (ok_info p) \<noteq> 0)
             then w\<lparr>w_status := TDSQL_MYSQL_INVALID\<rparr>
             else emit w (wb_data (ok_info p)) (wb_length (ok_info p)))"

definition column_write :: "writer \<Rightarrow> mysql_column_definition option \<Rightarrow> writer" where
  "column_write w column =
     (case column of None \<Rightarrow> w\<lparr>w_status := TDSQL_MYSQL_INVALID\<rparr>
      | Some c \<Rightarrow>
        if col_type c \<notin> {MYSQL_TYPE_TINY, MYSQL_TYPE_DOUBLE, MYSQL_TYPE_NULL, MYSQL_TYPE_LONGLONG,
                          MYSQL_TYPE_BLOB, MYSQL_TYPE_VAR_STRING}
        then w\<lparr>w_status := TDSQL_MYSQL_UNSUPPORTED\<rparr>
        else
          let w = foldl response_bytes w [col_catalog c, col_schema c, col_table c, col_org_table c, col_name c, col_org_name c];
              w = response_integer w 12 1;
              w = response_integer w (ucast (col_character_set c)) 2;
              w = response_integer w (ucast (col_column_length c)) 4;
              w = response_integer w (ucast (col_type c)) 1;
              w = response_integer w (ucast (col_flags c)) 2;
              w = response_integer w (ucast (col_decimals c)) 1
          in response_integer w 0 2)"

definition value_check :: "turbodb_value \<Rightarrow> tdsql_mysql_status" where
  "value_check v =
     (if tv_reserved v \<noteq> 0 then TDSQL_MYSQL_INVALID
      else case tv_data v of
        TURBODB_VALUE_NULL \<Rightarrow> TDSQL_MYSQL_OK
      | TURBODB_VALUE_INT64 _ \<Rightarrow> TDSQL_MYSQL_OK
      | TURBODB_VALUE_UINT64 _ \<Rightarrow> TDSQL_MYSQL_OK
      | TURBODB_VALUE_DOUBLE d \<Rightarrow> if f64_isfinite d then TDSQL_MYSQL_OK else TDSQL_MYSQL_INVALID
      | TURBODB_VALUE_BOOLEAN b \<Rightarrow> if b \<le> 1 then TDSQL_MYSQL_OK else TDSQL_MYSQL_INVALID
      | TURBODB_VALUE_TEXT data len \<Rightarrow> if data \<noteq> None \<or> len = 0 then TDSQL_MYSQL_OK else TDSQL_MYSQL_INVALID
      | TURBODB_VALUE_BLOB data len \<Rightarrow> if data \<noteq> None \<or> len = 0 then TDSQL_MYSQL_OK else TDSQL_MYSQL_INVALID
      | TURBODB_VALUE_OTHER \<Rightarrow> TDSQL_MYSQL_UNSUPPORTED)"

text \<open>The bytes an \<open>snprintf\<close> into the 64-byte number buffer leaves, unless they did not fit.\<close>

definition number_text :: "bytes \<Rightarrow> tdsql_mysql_status + mysql_wire_bytes" where
  "number_text printed =
     (if length printed \<ge> 64 then Inl TDSQL_MYSQL_LIMIT
      else Inr \<lparr>wb_data = Some printed, wb_length = length printed, wb_is_null = False\<rparr>)"

definition text_value :: "bytes \<Rightarrow> turbodb_value \<Rightarrow> tdsql_mysql_status + mysql_wire_bytes" where
  "text_value decimal_point v =
     (case tv_data v of
        TURBODB_VALUE_TEXT data len \<Rightarrow> Inr \<lparr>wb_data = data, wb_length = len, wb_is_null = False\<rparr>
      | TURBODB_VALUE_BLOB data len \<Rightarrow> Inr \<lparr>wb_data = data, wb_length = len, wb_is_null = False\<rparr>
      | TURBODB_VALUE_INT64 i \<Rightarrow> number_text (print_i64 i)
      | TURBODB_VALUE_UINT64 u \<Rightarrow> number_text (print_u64 u)
      | TURBODB_VALUE_BOOLEAN b \<Rightarrow> number_text [if b \<noteq> 0 then 0x31 else 0x30]
      | TURBODB_VALUE_DOUBLE d \<Rightarrow>
          if decimal_point \<noteq> [0x2e] then Inl TDSQL_MYSQL_UNSUPPORTED else number_text (print_17g d)
      | _ \<Rightarrow> Inl TDSQL_MYSQL_INVALID)"

definition row_value :: "bytes \<Rightarrow> writer \<Rightarrow> nat \<Rightarrow> nat \<Rightarrow> turbodb_value \<Rightarrow> bool \<Rightarrow> writer" where
  "row_value decimal_point w bitmap_offset i v binary =
     (let w = w\<lparr>w_status := value_check v\<rparr> in
      if w_status w \<noteq> TDSQL_MYSQL_OK then w
      else if tv_data v = TURBODB_VALUE_NULL then
        (if \<not> binary then response_integer w 0xfb 1
         else w\<lparr>w_data := map_option (set_null_bit bitmap_offset (i + 2)) (w_data w)\<rparr>)
      else if \<not> binary then
        (case text_value decimal_point v of
           Inl status \<Rightarrow> w\<lparr>w_status := status\<rparr>
         | Inr text \<Rightarrow> response_bytes w text)
      else case tv_data v of
        TURBODB_VALUE_INT64 x \<Rightarrow> response_integer w x 8
      | TURBODB_VALUE_UINT64 x \<Rightarrow> response_integer w x 8
      | TURBODB_VALUE_DOUBLE x \<Rightarrow> response_integer w x 8
      | TURBODB_VALUE_BOOLEAN b \<Rightarrow> response_integer w (ucast b) 1
      | TURBODB_VALUE_TEXT data len \<Rightarrow> response_bytes w \<lparr>wb_data = data, wb_length = len, wb_is_null = False\<rparr>
      | TURBODB_VALUE_BLOB data len \<Rightarrow> response_bytes w \<lparr>wb_data = data, wb_length = len, wb_is_null = False\<rparr>
      | _ \<Rightarrow> w\<lparr>w_status := TDSQL_MYSQL_UNSUPPORTED\<rparr>)"

primrec row_values :: "bytes \<Rightarrow> writer \<Rightarrow> nat \<Rightarrow> bool \<Rightarrow> nat \<Rightarrow> turbodb_value list \<Rightarrow> writer" where
  "row_values decimal_point w bitmap_offset binary i [] = w"
| "row_values decimal_point w bitmap_offset binary i (v # vs) =
     (if w_status w \<noteq> TDSQL_MYSQL_OK then w
      else row_values decimal_point (row_value decimal_point w bitmap_offset i v binary) bitmap_offset binary (i + 1) vs)"

definition row_write :: "bytes \<Rightarrow> writer \<Rightarrow> turbodb_value list option \<Rightarrow> nat \<Rightarrow> bool \<Rightarrow> writer" where
  "row_write decimal_point w vals count binary =
     (case vals of None \<Rightarrow> w\<lparr>w_status := TDSQL_MYSQL_INVALID\<rparr>
      | Some vs \<Rightarrow>
        if count = 0 then w\<lparr>w_status := TDSQL_MYSQL_INVALID\<rparr>
        else if count > UINT16_MAX then w\<lparr>w_status := TDSQL_MYSQL_LIMIT\<rparr>
        else
          let bitmap = (count + 8 - 1 + 2) div 8 in
          if binary then
            let w = response_integer w 0 1 in
            row_values decimal_point (((\<lambda>w. response_integer w 0 1) ^^ bitmap) w) (w_size w) binary 0 (take count vs)
          else row_values decimal_point w 0 binary 0 (take count vs))"

definition sqlstate_ok :: "bytes \<Rightarrow> bool" where
  "sqlstate_ok s \<longleftrightarrow> list_all (\<lambda>c. (0x41 \<le> c \<and> c \<le> 0x5a) \<or> (0x30 \<le> c \<and> c \<le> 0x39)) (take 5 s)"

definition response_write :: "bytes \<Rightarrow> response \<Rightarrow> writer \<Rightarrow> writer" where
  "response_write decimal_point r w =
     (case r of
        RESPONSE_OK packet deprecated \<Rightarrow> ok_write w packet deprecated
      | RESPONSE_ERR code sqlstate message \<Rightarrow>
          (case sqlstate of None \<Rightarrow> w\<lparr>w_status := TDSQL_MYSQL_INVALID\<rparr>
           | Some s \<Rightarrow>
             if code = 0 \<or> wb_is_null message \<or> (wb_data message = None \<and> wb_length message \<noteq> 0)
             then w\<lparr>w_status := TDSQL_MYSQL_INVALID\<rparr>
             else if wb_length message > TDSQL_MYSQL_ERRMSG_MAX then w\<lparr>w_status := TDSQL_MYSQL_LIMIT\<rparr>
             else if \<not> sqlstate_ok s then w\<lparr>w_status := TDSQL_MYSQL_INVALID\<rparr>
             else
               let w = response_integer w 0xff 1;
                   w = response_integer w (ucast code) 2;
                   w = response_integer w 0x23 1;
                   w = emit w sqlstate 5
               in emit w (wb_data message) (wb_length message))
      | RESPONSE_EOF eof \<Rightarrow>
          (case eof of None \<Rightarrow> w\<lparr>w_status := TDSQL_MYSQL_INVALID\<rparr>
           | Some e \<Rightarrow>
             let w = w\<lparr>w_status := status_flags (eof_status_flags e)\<rparr>;
                 w = response_integer w 0xfe 1;
                 w = response_integer w (ucast (eof_warnings e)) 2
             in response_integer w (ucast (eof_status_flags e)) 2)
      | RESPONSE_PREPARE prepare \<Rightarrow>
          (case prepare of None \<Rightarrow> w\<lparr>w_status := TDSQL_MYSQL_INVALID\<rparr>
           | Some p \<Rightarrow>
             if po_statement_id p = 0 then w\<lparr>w_status := TDSQL_MYSQL_INVALID\<rparr>
             else
               let w = response_integer w 0 1;
                   w = response_integer w (ucast (po_statement_id p)) 4;
                   w = response_integer w (ucast (po_column_count p)) 2;
                   w = response_integer w (ucast (po_parameter_count p)) 2;
                   w = response_integer w 0 1
               in response_integer w (ucast (po_warning_count p)) 2)
      | RESPONSE_COLUMN column \<Rightarrow> column_write w column
      | RESPONSE_COUNT count \<Rightarrow>
          if count = 0 then w\<lparr>w_status := TDSQL_MYSQL_INVALID\<rparr>
          else if count > UINT16_MAX then w\<lparr>w_status := TDSQL_MYSQL_LIMIT\<rparr>
          else response_lenenc w (of_nat count)
      | RESPONSE_ROW vals count binary \<Rightarrow> row_write decimal_point w vals count binary)"

definition new_writer :: "ptr \<Rightarrow> nat \<Rightarrow> writer" where
  "new_writer data capacity = \<lparr>w_data = data, w_size = 0, w_capacity = capacity, w_status = TDSQL_MYSQL_OK\<rparr>"

definition response_encode ::
    "bytes \<Rightarrow> response \<Rightarrow> tdsql_mysql_output option \<Rightarrow> tdsql_mysql_status \<times> tdsql_mysql_output option" where
  "response_encode decimal_point r out =
     (case out of None \<Rightarrow> (TDSQL_MYSQL_INVALID, None)
      | Some out \<Rightarrow>
        let measure = response_write decimal_point r (new_writer None (out_capacity out)) in
        if w_status measure \<noteq> TDSQL_MYSQL_OK then (w_status measure, Some out)
        else
          let (status, out) =
            (case out_data out of None \<Rightarrow> (TDSQL_MYSQL_OK, out)
             | Some d \<Rightarrow>
               let output = response_write decimal_point r (new_writer (Some d) (out_capacity out)) in
               (w_status output, out\<lparr>out_data := w_data output\<rparr>))
          in if status \<noteq> TDSQL_MYSQL_OK then (status, Some out)
             else (TDSQL_MYSQL_OK, Some (out\<lparr>out_size := w_size measure\<rparr>)))"

definition tdsql_mysql_ok_encode where
  "tdsql_mysql_ok_encode dp packet deprecated out = response_encode dp (RESPONSE_OK packet deprecated) out"

definition tdsql_mysql_err_encode where
  "tdsql_mysql_err_encode dp code sqlstate message out = response_encode dp (RESPONSE_ERR code sqlstate message) out"

definition tdsql_mysql_eof_encode where
  "tdsql_mysql_eof_encode dp packet out = response_encode dp (RESPONSE_EOF packet) out"

definition tdsql_mysql_prepare_encode where
  "tdsql_mysql_prepare_encode dp prepare out = response_encode dp (RESPONSE_PREPARE prepare) out"

definition tdsql_mysql_column_encode where
  "tdsql_mysql_column_encode dp column out = response_encode dp (RESPONSE_COLUMN column) out"

definition tdsql_mysql_count_encode where
  "tdsql_mysql_count_encode dp count out = response_encode dp (RESPONSE_COUNT count) out"

definition tdsql_mysql_row_encode where
  "tdsql_mysql_row_encode dp vals count binary out = response_encode dp (RESPONSE_ROW vals count binary) out"

lemmas encoder_defs = tdsql_mysql_ok_encode_def tdsql_mysql_err_encode_def tdsql_mysql_eof_encode_def
  tdsql_mysql_prepare_encode_def tdsql_mysql_column_encode_def tdsql_mysql_count_encode_def tdsql_mysql_row_encode_def


section \<open>Measuring and writing agree\<close>

definition forget :: "writer \<Rightarrow> writer" where
  "forget w = w\<lparr>w_data := None\<rparr>"

named_theorems forgets \<open>steps of the writer that do not depend on its buffer\<close>

lemma forget_sel [simp]:
  "w_size (forget w) = w_size w" "w_capacity (forget w) = w_capacity w" "w_status (forget w) = w_status w"
  "w_data (forget w) = None"
  by (simp_all add: forget_def)

lemma forget_status [forgets]: "forget (w\<lparr>w_status := s\<rparr>) = (forget w)\<lparr>w_status := s\<rparr>"
  by (simp add: forget_def)

lemma forget_data [forgets]: "forget (w\<lparr>w_data := d\<rparr>) = forget w"
  by (simp add: forget_def)

lemma forget_emit [forgets]: "forget (emit w data sz) = emit (forget w) data sz"
  by (simp add: emit_def forget_def)

lemma forget_fail [forgets]: "forget (fail_with w status) = fail_with (forget w) status"
  by (simp add: fail_with_def forget_status)

lemma forget_integer [forgets]: "forget (response_integer w v width) = response_integer (forget w) v width"
  by (simp add: response_integer_def Let_def forgets split: prod.splits)

lemma forget_lenenc [forgets]: "forget (response_lenenc w v) = response_lenenc (forget w) v"
  by (simp add: response_lenenc_def forgets split: prod.splits)

lemma forget_bytes [forgets]: "forget (response_bytes w v) = response_bytes (forget w) v"
  by (simp add: response_bytes_def forgets)

lemma forget_ok [forgets]: "forget (ok_write w packet deprecated) = ok_write (forget w) packet deprecated"
  by (simp add: ok_write_def forgets Let_def split: option.splits)

lemma forget_column [forgets]: "forget (column_write w column) = column_write (forget w) column"
  by (simp add: column_write_def forgets Let_def split: option.splits)

lemma forget_row_value [forgets]:
  "forget (row_value dp w base i v binary) = row_value dp (forget w) base i v binary"
proof -
  have "w\<lparr>w_data := map_option f (w_data w)\<rparr> = w" if "w_data w = None" for w :: writer and f
    using that by (cases w) simp
  then show ?thesis
    by (simp add: row_value_def forgets Let_def split: sum.splits turbodb_value_data.splits)
qed

lemma forget_row_values [forgets]:
  "forget (row_values dp w base binary i vs) = row_values dp (forget w) base binary i vs"
  by (induction vs arbitrary: w i) (simp_all add: forgets)

lemma forget_zeros [forgets]:
  "forget (((\<lambda>w. response_integer w 0 1) ^^ n) w) = ((\<lambda>w. response_integer w 0 1) ^^ n) (forget w)"
  by (induction n) (simp_all add: forgets)

lemma forget_row [forgets]: "forget (row_write dp w vals count binary) = row_write dp (forget w) vals count binary"
proof -
  have "w_size (response_integer (forget w) 0 1) = w_size (response_integer w 0 1)"
    by (metis forget_integer forget_sel(1))
  then show ?thesis
    unfolding row_write_def Let_def by (simp add: forgets del: One_nat_def split: option.splits)
qed

lemma forget_response [forgets]: "forget (response_write dp r w) = response_write dp r (forget w)"
  unfolding response_write_def Let_def
  by (cases r) (auto simp: if_distrib [of forget] forgets split: option.split)

lemma forget_new_writer: "forget (new_writer d cap) = new_writer None cap"
  by (simp add: forget_def new_writer_def)

text \<open>So the second pass never fails, and what a failed call has done to the output is nothing.\<close>

lemma response_encode_two_passes:
  "response_encode dp r (Some out) =
     (let m = response_write dp r (new_writer None (out_capacity out)) in
      if w_status m \<noteq> TDSQL_MYSQL_OK then (w_status m, Some out)
      else (TDSQL_MYSQL_OK,
            Some (out\<lparr>out_data := (case out_data out of None \<Rightarrow> None
                                    | Some d \<Rightarrow> w_data (response_write dp r (new_writer (Some d) (out_capacity out)))),
                      out_size := w_size m\<rparr>)))"
proof -
  have "w_status (response_write dp r (new_writer (Some d) cap)) = w_status (response_write dp r (new_writer None cap))" for d cap
    by (metis forget_new_writer forget_response forget_sel(3))
  then show ?thesis
    by (cases out) (simp add: response_encode_def Let_def split: option.splits)
qed


section \<open>The bytes a step appends\<close>

definition writer_ok :: "writer \<Rightarrow> bool" where
  "writer_ok w \<longleftrightarrow> w_size w \<le> w_capacity w \<and> (\<forall>d. w_data w = Some d \<longrightarrow> w_capacity w \<le> length d)"

definition written :: "writer \<Rightarrow> bytes \<Rightarrow> writer" where
  "written w xs = w\<lparr>w_data := map_option (\<lambda>d. memcpy d (w_size w) xs) (w_data w), w_size := w_size w + length xs\<rparr>"

definition puts :: "(writer \<Rightarrow> writer) \<Rightarrow> bytes \<Rightarrow> bool" where
  "puts f xs \<longleftrightarrow>
     (\<forall>w. (w_status w \<noteq> TDSQL_MYSQL_OK \<longrightarrow> f w = w) \<and>
          (writer_ok w \<longrightarrow> w_status w = TDSQL_MYSQL_OK \<longrightarrow>
             (if w_size w + length xs \<le> w_capacity w then f w = written w xs
              else w_status (f w) = TDSQL_MYSQL_LIMIT)))"

named_theorems puts_intro \<open>the bytes the writer's steps append\<close>

lemma written_ok [simp]:
  "writer_ok w \<Longrightarrow> w_size w + length xs \<le> w_capacity w \<Longrightarrow> writer_ok (written w xs)"
  "w_status (written w xs) = w_status w" "w_capacity (written w xs) = w_capacity w"
  "w_size (written w xs) = w_size w + length xs"
  by (auto simp: writer_ok_def written_def)

lemma written_written:
  assumes "writer_ok w" and "w_size w + length xs \<le> w_capacity w"
  shows "written (written w xs) ys = written w (xs @ ys)"
proof (cases "w_data w")
  case (Some d)
  then have "memcpy (memcpy d (w_size w) xs) (w_size w + length xs) ys = memcpy d (w_size w) (xs @ ys)"
    using assms by (intro memcpy_memcpy) (auto simp: writer_ok_def)
  then show ?thesis using Some by (simp add: written_def add.assoc)
qed (simp add: written_def add.assoc)

lemma puts_strict: "puts f xs \<Longrightarrow> w_status w \<noteq> TDSQL_MYSQL_OK \<Longrightarrow> f w = w"
  by (simp add: puts_def)

lemma puts_fits:
  "puts f xs \<Longrightarrow> writer_ok w \<Longrightarrow> w_status w = TDSQL_MYSQL_OK \<Longrightarrow> w_size w + length xs \<le> w_capacity w \<Longrightarrow> f w = written w xs"
  by (simp add: puts_def)

lemma puts_limit:
  "puts f xs \<Longrightarrow> writer_ok w \<Longrightarrow> w_status w = TDSQL_MYSQL_OK \<Longrightarrow> w_capacity w < w_size w + length xs \<Longrightarrow>
   w_status (f w) = TDSQL_MYSQL_LIMIT"
  by (simp add: puts_def)

lemma puts_comp:
  assumes f: "puts f xs" and g: "puts g ys"
  shows "puts (\<lambda>w. g (f w)) (xs @ ys)"
  unfolding puts_def
proof (intro allI conjI impI)
  fix w :: writer assume "w_status w \<noteq> TDSQL_MYSQL_OK"
  then show "g (f w) = w" using puts_strict [OF f] puts_strict [OF g] by simp
next
  fix w assume w: "writer_ok w" "w_status w = TDSQL_MYSQL_OK"
  show "if w_size w + length (xs @ ys) \<le> w_capacity w then g (f w) = written w (xs @ ys)
        else w_status (g (f w)) = TDSQL_MYSQL_LIMIT"
  proof (cases "w_size w + length xs \<le> w_capacity w")
    case True
    have fw: "f w = written w xs" by (rule puts_fits [OF f w True])
    have ok: "writer_ok (f w)" "w_status (f w) = TDSQL_MYSQL_OK" using w True fw by simp_all
    show ?thesis
      using puts_fits [OF g ok] puts_limit [OF g ok] written_written [OF w(1) True] fw by (simp add: add.assoc)
  next
    case False
    then have l: "w_status (f w) = TDSQL_MYSQL_LIMIT" using puts_limit [OF f w] by simp
    then have "g (f w) = f w" using puts_strict [OF g] by simp
    then show ?thesis using False l by simp
  qed
qed

lemma puts_emit:
  assumes "span_ok data sz"
  shows "puts (\<lambda>w. emit w data sz) (span data sz)"
proof -
  have len: "length (span data sz) = sz" using assms by simp
  show ?thesis unfolding puts_def len
    using assms by (auto simp: emit_def written_def span_def span_ok_def writer_ok_def split: option.splits)
qed

lemma puts_emit_prefix: "length xs \<le> SIZE_MAX \<Longrightarrow> puts (\<lambda>w. emit w (Some (xs @ rest)) (length xs)) xs"
  using puts_emit [of "Some (xs @ rest)" "length xs"] by (simp add: span_def span_ok_def)

lemma puts_integer:
  "puts (\<lambda>w. response_integer w v 1) [ucast v]"
  "puts (\<lambda>w. response_integer w v 2) (u16_bytes (ucast v))"
  "puts (\<lambda>w. response_integer w v 4) (u32_bytes (ucast v))"
  "puts (\<lambda>w. response_integer w v 8) (u64_bytes v)"
proof -
  have small: "n \<le> SIZE_MAX" if "n \<le> 8" for n using that by (simp add: SIZE_MAX_def)
  let ?z = "replicate 8 (0 :: u8)"
  have w: "mysql_wire_write_u16_le (Some ?z) 8 0 (ucast v) = (MYSQL_WIRE_STATUS_OK, Some (memcpy ?z 0 (u16_bytes (ucast v))), 2)"
    "mysql_wire_write_u32_le (Some ?z) 8 0 (ucast v) = (MYSQL_WIRE_STATUS_OK, Some (memcpy ?z 0 (u32_bytes (ucast v))), 4)"
    "mysql_wire_write_u64_le (Some ?z) 8 0 v = (MYSQL_WIRE_STATUS_OK, Some (memcpy ?z 0 (u64_bytes v)), 8)"
    using appends_fits [OF u16w.put_appends, of 8 ?z 0 "ucast v"] appends_fits [OF u32w.put_appends, of 8 ?z 0 "ucast v"]
      appends_fits [OF u64w.put_appends, of 8 ?z 0 v] by simp_all
  have z: "?z[0 := ucast v] = [ucast v] @ replicate 7 0" by (simp add: numeral_eq_Suc)
  show "puts (\<lambda>w. response_integer w v 1) [ucast v]"
    using puts_emit_prefix [of "[ucast v]" "replicate 7 0"] small [of 1] unfolding response_integer_def Let_def z by simp
  show "puts (\<lambda>w. response_integer w v 2) (u16_bytes (ucast v))"
    using puts_emit_prefix [of "u16_bytes (ucast v)" "drop 2 ?z"] small [of 2]
    unfolding response_integer_def w Let_def by (simp add: memcpy_def)
  show "puts (\<lambda>w. response_integer w v 4) (u32_bytes (ucast v))"
    using puts_emit_prefix [of "u32_bytes (ucast v)" "drop 4 ?z"] small [of 4]
    unfolding response_integer_def w Let_def by (simp add: memcpy_def)
  show "puts (\<lambda>w. response_integer w v 8) (u64_bytes v)"
    using puts_emit_prefix [of "u64_bytes v" "drop 8 ?z"] small [of 8]
    unfolding response_integer_def w Let_def by (simp add: memcpy_def)
qed

lemma puts_lenenc: "puts (\<lambda>w. response_lenenc w v) (lenenc_int v)"
proof -
  have l: "length (lenenc_int v) \<le> 9" using length_lenenc_int_bounds [of v] by simp
  then have w: "mysql_wire_write_lenenc_uint (Some (replicate 9 0)) 9 0 v =
      (MYSQL_WIRE_STATUS_OK, Some (memcpy (replicate 9 0) 0 (lenenc_int v)), length (lenenc_int v))"
    using appends_fits [OF lenw.put_appends, of 9 "replicate 9 0" 0 v] by simp
  show ?thesis
    using puts_emit_prefix [of "lenenc_int v" "drop (length (lenenc_int v)) (replicate 9 0)"] l
    unfolding response_lenenc_def w by (simp add: memcpy_def SIZE_MAX_def)
qed

definition wire_span_ok :: "mysql_wire_bytes \<Rightarrow> bool" where
  "wire_span_ok b \<longleftrightarrow> \<not> wb_is_null b \<and> span_ok (wb_data b) (wb_length b)"

lemma wire_span_ok_simps [simp]:
  "wire_span_ok (wire_bytes bs) \<longleftrightarrow> length bs \<le> SIZE_MAX" "wire_span_ok wire_bytes_zero"
  by (simp_all add: wire_span_ok_def wire_bytes_def wire_bytes_zero_def span_ok_def)

lemma wire_text_span: "wire_span_ok b \<Longrightarrow> span (wb_data b) (wb_length b) = wire_text b"
  by (auto simp: wire_span_ok_def wire_text_def wire_value_def span_def split: option.splits)

lemma length_wire_text: "wire_span_ok b \<Longrightarrow> length (wire_text b) = wb_length b"
  unfolding wire_text_span [symmetric] by (simp add: wire_span_ok_def)

lemma puts_text: "wire_span_ok b \<Longrightarrow> puts (\<lambda>w. emit w (wb_data b) (wb_length b)) (wire_text b)"
  using puts_emit [of "wb_data b" "wb_length b"] wire_text_span [of b] by (simp add: wire_span_ok_def)

lemma wire_span_ok_nonnull: "wire_span_ok b \<Longrightarrow> \<not> (wb_is_null b \<or> wb_data b = None \<and> wb_length b \<noteq> 0)"
  by (cases "wb_data b") (auto simp: wire_span_ok_def span_ok_def)

lemma puts_bytes: "wire_span_ok b \<Longrightarrow> puts (\<lambda>w. response_bytes w b) (lenenc_bytes (wire_text b))"
proof -
  assume b: "wire_span_ok b"
  have "response_bytes w b = emit (response_lenenc w (of_nat (wb_length b))) (wb_data b) (wb_length b)" for w
    unfolding response_bytes_def using wire_span_ok_nonnull [OF b] by (simp only: if_False)
  then show ?thesis
    using puts_comp [OF puts_lenenc puts_text, of b "of_nat (wb_length b)"] length_wire_text [OF b] b
    by (simp add: lenenc_bytes_def)
qed

text \<open>A sequence of steps, read from its last one.\<close>

lemma puts_id [puts_intro]: "puts (\<lambda>w. w) []"
  by (simp add: puts_def written_def map_option.identity writer_ok_def)

lemmas puts_thens [puts_intro] = puts_comp [OF _ puts_integer(1)] puts_comp [OF _ puts_integer(2)]
  puts_comp [OF _ puts_integer(3)] puts_comp [OF _ puts_integer(4)] puts_comp [OF _ puts_lenenc]
  puts_comp [OF _ puts_text] puts_comp [OF _ puts_bytes]

lemma puts_eq: "puts f xs \<Longrightarrow> ys = xs \<Longrightarrow> puts f ys"
  by simp

text \<open>From the bytes of a response to the call.\<close>

definition puts_new :: "(writer \<Rightarrow> writer) \<Rightarrow> bytes \<Rightarrow> bool" where
  "puts_new f xs \<longleftrightarrow>
     (\<forall>w. writer_ok w \<longrightarrow> w_status w = TDSQL_MYSQL_OK \<longrightarrow>
        (if w_size w + length xs \<le> w_capacity w then f w = written w xs else w_status (f w) = TDSQL_MYSQL_LIMIT))"

lemma puts_is_new: "puts f xs \<Longrightarrow> puts_new f xs"
  by (simp add: puts_def puts_new_def)

definition encoded :: "tdsql_mysql_output \<Rightarrow> bytes \<Rightarrow> tdsql_mysql_status \<times> tdsql_mysql_output option" where
  "encoded out xs =
     (if length xs \<le> out_capacity out
      then (TDSQL_MYSQL_OK, Some (out\<lparr>out_data := map_option (\<lambda>d. memcpy d 0 xs) (out_data out), out_size := length xs\<rparr>))
      else (TDSQL_MYSQL_LIMIT, Some out))"

definition output_ok :: "tdsql_mysql_output \<Rightarrow> bool" where
  "output_ok out \<longleftrightarrow> (\<forall>d. out_data out = Some d \<longrightarrow> out_capacity out \<le> length d)"

lemma response_encode_puts:
  assumes "puts_new (response_write dp r) xs" and "output_ok out"
  shows "response_encode dp r (Some out) = encoded out xs"
proof -
  have w: "if length xs \<le> out_capacity out then response_write dp r (new_writer p (out_capacity out)) = written (new_writer p (out_capacity out)) xs
      else w_status (response_write dp r (new_writer p (out_capacity out))) = TDSQL_MYSQL_LIMIT"
    if "p = None \<or> p = out_data out" for p
    using assms that unfolding puts_new_def
    by (auto dest!: spec [of _ "new_writer p (out_capacity out)"] simp: writer_ok_def new_writer_def output_ok_def)
  show ?thesis
  proof (cases "length xs \<le> out_capacity out")
    case True
    then show ?thesis
      using w [of None] w [of "out_data out"]
      by (cases "out_data out") (simp_all add: response_encode_two_passes encoded_def written_def new_writer_def)
  next
    case False
    then show ?thesis using w [of None] by (simp add: response_encode_two_passes encoded_def)
  qed
qed


section \<open>Packets\<close>

lemma puts_newI:
  assumes "\<And>w. w_status w = TDSQL_MYSQL_OK \<Longrightarrow> f w = g w" and "puts g xs"
  shows "puts_new f xs"
  using assms by (simp add: puts_def puts_new_def)

lemma status_ok_id: "w_status w = TDSQL_MYSQL_OK \<Longrightarrow> w\<lparr>w_status := TDSQL_MYSQL_OK\<rparr> = w"
  by (cases w) simp

lemmas narrow_wide [simp] = ucast_ucast_u64_id [where 'a = 8, simplified] ucast_ucast_u64_id [where 'a = 16, simplified]
  ucast_ucast_u64_id [where 'a = 32, simplified]

lemma u16_zero: "u16_bytes 0 = [0, 0]"
  by (simp add: u16_bytes_def numeral_2_eq_2)

definition ok_packet_valid :: "mysql_wire_ok_packet \<Rightarrow> bool \<Rightarrow> bool" where
  "ok_packet_valid p deprecated \<longleftrightarrow>
     (ok_header p = 0 \<or> ok_header p = 0xfe \<and> deprecated) \<and> wb_length (ok_session_state p) = 0 \<and>
     status_flags (ok_status_flags p) = TDSQL_MYSQL_OK \<and> wire_span_ok (ok_info p)"

lemma puts_ok:
  assumes "ok_packet_valid p deprecated"
  shows "puts_new (response_write dp (RESPONSE_OK (Some p) deprecated))
     (ok_payload (ok_header p) (ok_affected_rows p) (ok_last_insert_id p) (ok_status_flags p) (ok_warnings p) (wire_text (ok_info p)))"
proof -
  define g where "g = (\<lambda>w. emit (response_integer (response_integer (response_lenenc (response_lenenc
    (response_integer w (ucast (ok_header p)) 1) (ok_affected_rows p)) (ok_last_insert_id p))
    (ucast (ok_status_flags p)) 2) (ucast (ok_warnings p)) 2) (wb_data (ok_info p)) (wb_length (ok_info p)))"
  have "puts g (ok_payload (ok_header p) (ok_affected_rows p) (ok_last_insert_id p) (ok_status_flags p) (ok_warnings p) (wire_text (ok_info p)))"
    unfolding g_def by (rule puts_eq, (rule puts_intro)+) (use assms in \<open>simp_all add: ok_payload_def ok_packet_valid_def\<close>)
  moreover have "response_write dp (RESPONSE_OK (Some p) deprecated) w = g w" if "w_status w = TDSQL_MYSQL_OK" for w
    using assms wire_span_ok_nonnull [of "ok_info p"] that
    unfolding ok_packet_valid_def response_write_def ok_write_def Let_def g_def by (auto simp: status_ok_id)
  ultimately show ?thesis by (intro puts_newI [of _ g])
qed

definition err_valid :: "u16 \<Rightarrow> bytes \<Rightarrow> mysql_wire_bytes \<Rightarrow> bool" where
  "err_valid code sqlstate message \<longleftrightarrow>
     code \<noteq> 0 \<and> length sqlstate = 5 \<and> sqlstate_ok sqlstate \<and> wire_span_ok message \<and> wb_length message \<le> TDSQL_MYSQL_ERRMSG_MAX"

lemma puts_err:
  assumes "err_valid code sqlstate message"
  shows "puts_new (response_write dp (RESPONSE_ERR code (Some sqlstate) message)) (err_payload code sqlstate (wire_text message))"
proof -
  define g where "g = (\<lambda>w. emit (emit (response_integer (response_integer (response_integer w 0xff 1) (ucast code) 2) 0x23 1)
    (wb_data (wire_bytes sqlstate)) (wb_length (wire_bytes sqlstate))) (wb_data message) (wb_length message))"
  have "puts g (err_payload code sqlstate (wire_text message))"
    unfolding g_def by (rule puts_eq, (rule puts_intro)+) (use assms in \<open>simp_all add: err_payload_def err_valid_def SIZE_MAX_def\<close>)
  moreover have "response_write dp (RESPONSE_ERR code (Some sqlstate) message) w = g w" for w
    using assms wire_span_ok_nonnull [of message]
    unfolding err_valid_def response_write_def Let_def g_def by (auto simp: wire_bytes_def)
  ultimately show ?thesis by (intro puts_newI [of _ g])
qed

lemma puts_eof:
  assumes "status_flags (eof_status_flags e) = TDSQL_MYSQL_OK"
  shows "puts_new (response_write dp (RESPONSE_EOF (Some e))) (eof_payload (eof_warnings e) (eof_status_flags e))"
proof -
  define g where "g = (\<lambda>w. response_integer (response_integer (response_integer w 0xfe 1) (ucast (eof_warnings e)) 2) (ucast (eof_status_flags e)) 2)"
  have "puts g (eof_payload (eof_warnings e) (eof_status_flags e))"
    unfolding g_def by (rule puts_eq, (rule puts_intro)+) (use assms in \<open>simp_all add: eof_payload_def\<close>)
  moreover have "response_write dp (RESPONSE_EOF (Some e)) w = g w" if "w_status w = TDSQL_MYSQL_OK" for w
    using that assms unfolding response_write_def Let_def g_def by (simp add: status_ok_id)
  ultimately show ?thesis by (intro puts_newI [of _ g])
qed

definition prepare_ok_payload :: "mysql_stmt_prepare_ok \<Rightarrow> bytes" where
  "prepare_ok_payload p =
     [0] @ u32_bytes (po_statement_id p) @ u16_bytes (po_column_count p) @ u16_bytes (po_parameter_count p) @ [0] @
     u16_bytes (po_warning_count p)"

lemma puts_prepare:
  assumes "po_statement_id p \<noteq> 0"
  shows "puts_new (response_write dp (RESPONSE_PREPARE (Some p))) (prepare_ok_payload p)"
proof -
  define g where "g = (\<lambda>w. response_integer (response_integer (response_integer (response_integer (response_integer
    (response_integer w 0 1) (ucast (po_statement_id p)) 4) (ucast (po_column_count p)) 2) (ucast (po_parameter_count p)) 2) 0 1)
    (ucast (po_warning_count p)) 2)"
  have "puts g (prepare_ok_payload p)"
    unfolding g_def by (rule puts_eq, (rule puts_intro)+) (use assms in \<open>simp_all add: prepare_ok_payload_def\<close>)
  moreover have "response_write dp (RESPONSE_PREPARE (Some p)) w = g w" for w
    using assms unfolding response_write_def Let_def g_def by simp
  ultimately show ?thesis by (intro puts_newI [of _ g])
qed

definition column_valid :: "mysql_column_definition \<Rightarrow> bool" where
  "column_valid c \<longleftrightarrow>
     col_type c \<in> {MYSQL_TYPE_TINY, MYSQL_TYPE_DOUBLE, MYSQL_TYPE_NULL, MYSQL_TYPE_LONGLONG, MYSQL_TYPE_BLOB, MYSQL_TYPE_VAR_STRING} \<and>
     wire_span_ok (col_catalog c) \<and> wire_span_ok (col_schema c) \<and> wire_span_ok (col_table c) \<and>
     wire_span_ok (col_org_table c) \<and> wire_span_ok (col_name c) \<and> wire_span_ok (col_org_name c)"

lemma puts_column:
  assumes "column_valid c"
  shows "puts_new (response_write dp (RESPONSE_COLUMN (Some c))) (column_payload c)"
proof -
  define g where "g = (\<lambda>w. response_integer (response_integer (response_integer (response_integer (response_integer (response_integer
    (response_integer (response_bytes (response_bytes (response_bytes (response_bytes (response_bytes (response_bytes w
    (col_catalog c)) (col_schema c)) (col_table c)) (col_org_table c)) (col_name c)) (col_org_name c))
    12 1) (ucast (col_character_set c)) 2) (ucast (col_column_length c)) 4) (ucast (col_type c)) 1) (ucast (col_flags c)) 2)
    (ucast (col_decimals c)) 1) 0 2)"
  have "puts g (column_payload c)"
    unfolding g_def by (rule puts_eq, (rule puts_intro)+) (use assms in \<open>simp_all add: column_payload_def column_valid_def u16_zero\<close>)
  moreover have "response_write dp (RESPONSE_COLUMN (Some c)) w = g w" for w
  proof -
    have t: "col_type c \<in> {MYSQL_TYPE_TINY, MYSQL_TYPE_DOUBLE, MYSQL_TYPE_NULL, MYSQL_TYPE_LONGLONG, MYSQL_TYPE_BLOB, MYSQL_TYPE_VAR_STRING}"
      using assms by (simp add: column_valid_def)
    show ?thesis unfolding response_write_def column_write_def Let_def g_def using t by simp
  qed
  ultimately show ?thesis by (intro puts_newI [of _ g])
qed

lemma puts_count:
  assumes "0 < count" and "count \<le> UINT16_MAX"
  shows "puts_new (response_write dp (RESPONSE_COUNT count)) (lenenc_int (of_nat count))"
  using assms puts_lenenc by (intro puts_newI [of _ "\<lambda>w. response_lenenc w (of_nat count)"]) (simp_all add: response_write_def)


section \<open>Rows\<close>

definition value_null :: "turbodb_value \<Rightarrow> bool" where
  "value_null v \<longleftrightarrow> tv_data v = TURBODB_VALUE_NULL"

definition value_spans :: "turbodb_value \<Rightarrow> bool" where
  "value_spans v = (case tv_data v of
       TURBODB_VALUE_TEXT data len \<Rightarrow> span_ok data len
     | TURBODB_VALUE_BLOB data len \<Rightarrow> span_ok data len
     | _ \<Rightarrow> True)"

definition value_valid :: "turbodb_value \<Rightarrow> bool" where
  "value_valid v \<longleftrightarrow> value_check v = TDSQL_MYSQL_OK \<and> value_spans v"

definition value_text :: "turbodb_value \<Rightarrow> bytes option" where
  "value_text v = (case tv_data v of
       TURBODB_VALUE_INT64 x \<Rightarrow> Some (print_i64 x)
     | TURBODB_VALUE_UINT64 x \<Rightarrow> Some (print_u64 x)
     | TURBODB_VALUE_DOUBLE x \<Rightarrow> Some (print_17g x)
     | TURBODB_VALUE_BOOLEAN b \<Rightarrow> Some [if b \<noteq> 0 then 0x31 else 0x30]
     | TURBODB_VALUE_TEXT data len \<Rightarrow> Some (span data len)
     | TURBODB_VALUE_BLOB data len \<Rightarrow> Some (span data len)
     | _ \<Rightarrow> None)"

definition value_column :: "turbodb_value \<Rightarrow> mysql_wire_bytes" where
  "value_column v = (case value_text v of None \<Rightarrow> wire_bytes_null | Some bs \<Rightarrow> wire_bytes bs)"

definition binary_enc :: "turbodb_value \<Rightarrow> bytes" where
  "binary_enc v = (case tv_data v of
       TURBODB_VALUE_INT64 x \<Rightarrow> u64_bytes x
     | TURBODB_VALUE_UINT64 x \<Rightarrow> u64_bytes x
     | TURBODB_VALUE_DOUBLE x \<Rightarrow> u64_bytes x
     | TURBODB_VALUE_BOOLEAN b \<Rightarrow> [b]
     | TURBODB_VALUE_TEXT data len \<Rightarrow> lenenc_bytes (span data len)
     | TURBODB_VALUE_BLOB data len \<Rightarrow> lenenc_bytes (span data len)
     | _ \<Rightarrow> [])"

lemma puts_span_bytes:
  "span_ok data len \<Longrightarrow> puts (\<lambda>w. response_bytes w \<lparr>wb_data = data, wb_length = len, wb_is_null = False\<rparr>) (lenenc_bytes (span data len))"
  using puts_bytes [of "\<lparr>wb_data = data, wb_length = len, wb_is_null = False\<rparr>"]
    wire_text_span [of "\<lparr>wb_data = data, wb_length = len, wb_is_null = False\<rparr>"]
  by (simp add: wire_span_ok_def)

lemma number_text_fits: "length bs \<le> 24 \<Longrightarrow> number_text bs = Inr (wire_bytes bs)"
  by (simp add: number_text_def wire_bytes_def)

lemma puts_number: "length bs \<le> 24 \<Longrightarrow> puts (\<lambda>w. response_bytes w (wire_bytes bs)) (lenenc_bytes bs)"
  using puts_bytes [of "wire_bytes bs"] by (simp add: SIZE_MAX_def)

text \<open>One value of a text row, written by a writer that has not failed.\<close>

definition text_step :: "turbodb_value \<Rightarrow> writer \<Rightarrow> writer" where
  "text_step v w = (case tv_data v of
       TURBODB_VALUE_TEXT data len \<Rightarrow> response_bytes w \<lparr>wb_data = data, wb_length = len, wb_is_null = False\<rparr>
     | TURBODB_VALUE_BLOB data len \<Rightarrow> response_bytes w \<lparr>wb_data = data, wb_length = len, wb_is_null = False\<rparr>
     | _ \<Rightarrow> (case value_text v of None \<Rightarrow> response_integer w 0xfb 1 | Some bs \<Rightarrow> response_bytes w (wire_bytes bs)))"

lemma value_valid_kind: "value_valid v \<Longrightarrow> tv_data v \<noteq> TURBODB_VALUE_OTHER"
  by (auto simp: value_valid_def value_check_def split: if_splits)

lemma printed_fits:
  assumes "value_valid v" and "value_text v = Some bs"
    and "\<And>p n. tv_data v \<noteq> TURBODB_VALUE_TEXT p n" and "\<And>p n. tv_data v \<noteq> TURBODB_VALUE_BLOB p n"
  shows "length bs \<le> 24"
  using assms length_print_i64 length_print_u64 length_print_17g
  by (auto simp: value_valid_def value_check_def value_text_def split: turbodb_value_data.splits if_splits
      intro: order_trans [where y = 20])

lemma puts_text_step:
  assumes v: "value_valid v"
  shows "puts (text_step v) (wire_bytes_enc (value_column v))"
proof (cases "value_text v")
  case None
  then have k: "tv_data v = TURBODB_VALUE_NULL"
    using value_valid_kind [OF v] by (auto simp: value_text_def split: turbodb_value_data.splits)
  then have "text_step v = (\<lambda>w. response_integer w 0xfb 1)" using None by (auto simp: text_step_def)
  then show ?thesis
    using None puts_integer(1) [of "0xfb"] by (simp add: value_column_def wire_bytes_enc_def)
next
  case (Some bs)
  consider p n where "tv_data v = TURBODB_VALUE_TEXT p n \<or> tv_data v = TURBODB_VALUE_BLOB p n"
    | "\<And>p n. tv_data v \<noteq> TURBODB_VALUE_TEXT p n" "\<And>p n. tv_data v \<noteq> TURBODB_VALUE_BLOB p n" by blast
  then show ?thesis
  proof cases
    case 1
    then have "span_ok p n" "bs = span p n" "text_step v = (\<lambda>w. response_bytes w \<lparr>wb_data = p, wb_length = n, wb_is_null = False\<rparr>)"
      using v Some by (auto simp: value_valid_def value_spans_def value_text_def text_step_def)
    then show ?thesis using Some puts_span_bytes [of p n] by (simp add: value_column_def wire_bytes_enc_def)
  next
    case 2
    then have "text_step v = (\<lambda>w. response_bytes w (wire_bytes bs))"
      using Some by (auto simp: text_step_def split: turbodb_value_data.splits)
    then show ?thesis
      using Some puts_number [of bs] printed_fits [OF v Some] 2 by (simp add: value_column_def wire_bytes_enc_def)
  qed
qed

lemma row_value_text:
  assumes "value_valid v" and "w_status w = TDSQL_MYSQL_OK"
  shows "row_value [0x2e] w base i v False = text_step v w"
proof -
  have n: "number_text bs = Inr (wire_bytes bs)" if "value_text v = Some bs"
      "\<And>p n. tv_data v \<noteq> TURBODB_VALUE_TEXT p n" "\<And>p n. tv_data v \<noteq> TURBODB_VALUE_BLOB p n" for bs
    using printed_fits [OF assms(1) that(1)] that(2,3) by (intro number_text_fits) blast
  have "value_check v = TDSQL_MYSQL_OK" using assms(1) by (simp add: value_valid_def)
  then show ?thesis
    using n value_valid_kind [OF assms(1)]
    by (simp add: row_value_def text_value_def text_step_def value_text_def status_ok_id [OF assms(2)] assms(2) split: turbodb_value_data.splits)
qed

lemma row_values_text:
  "list_all value_valid vs \<Longrightarrow>
   puts (\<lambda>w. row_values [0x2e] w base False i vs) (concat (map (\<lambda>v. wire_bytes_enc (value_column v)) vs))"
proof (induction vs arbitrary: i)
  case Nil
  then show ?case using puts_id by simp
next
  case (Cons v vs)
  then have v: "value_valid v" by simp
  have ih: "puts (\<lambda>w. row_values [0x2e] w base False (i + 1) vs) (concat (map (\<lambda>v. wire_bytes_enc (value_column v)) vs))"
    using Cons by simp
  have "row_values [0x2e] w base False i (v # vs) = row_values [0x2e] (text_step v w) base False (i + 1) vs" for w
    using puts_strict [OF puts_text_step [OF v]] puts_strict [OF ih] row_value_text [OF v] by simp
  then show ?case using puts_comp [OF puts_text_step [OF v] ih] by simp
qed

text \<open>One value of a binary row that is not null.\<close>

definition binary_step :: "turbodb_value \<Rightarrow> writer \<Rightarrow> writer" where
  "binary_step v w = (case tv_data v of
       TURBODB_VALUE_INT64 x \<Rightarrow> response_integer w x 8
     | TURBODB_VALUE_UINT64 x \<Rightarrow> response_integer w x 8
     | TURBODB_VALUE_DOUBLE x \<Rightarrow> response_integer w x 8
     | TURBODB_VALUE_BOOLEAN b \<Rightarrow> response_integer w (ucast b) 1
     | TURBODB_VALUE_TEXT data len \<Rightarrow> response_bytes w \<lparr>wb_data = data, wb_length = len, wb_is_null = False\<rparr>
     | TURBODB_VALUE_BLOB data len \<Rightarrow> response_bytes w \<lparr>wb_data = data, wb_length = len, wb_is_null = False\<rparr>
     | _ \<Rightarrow> w)"

lemma puts_binary_step:
  assumes "value_valid v"
  shows "puts (binary_step v) (binary_enc v)"
proof -
  have s: "span_ok data len" if "tv_data v = TURBODB_VALUE_TEXT data len \<or> tv_data v = TURBODB_VALUE_BLOB data len" for data len
    using assms that by (auto simp: value_valid_def value_spans_def)
  show ?thesis
  proof (cases "tv_data v")
    case (TURBODB_VALUE_BOOLEAN b)
    then show ?thesis
      using puts_integer(1) [of "ucast b"] by (simp add: binary_step_def [abs_def] binary_enc_def)
  qed (use puts_id puts_integer(4) puts_span_bytes s in \<open>simp_all add: binary_step_def [abs_def] binary_enc_def\<close>)
qed

lemma row_value_binary:
  assumes "value_valid v" and "w_status w = TDSQL_MYSQL_OK"
  shows "row_value dp w base i v True =
     (if value_null v then w\<lparr>w_data := map_option (set_null_bit base (i + 2)) (w_data w)\<rparr> else binary_step v w)"
  using assms value_valid_kind [OF assms(1)]
  by (simp add: row_value_def binary_step_def value_null_def value_valid_def status_ok_id [OF assms(2)] split: turbodb_value_data.splits)

lemma binary_enc_null: "value_null v \<Longrightarrow> binary_enc v = []"
  by (simp add: value_null_def binary_enc_def)

lemma set_null_bit_memcpy:
  assumes "i div 8 < length bm" and "off \<le> length d"
  shows "set_null_bit (off + 1) i (memcpy d off (x # bm @ V)) = memcpy d off (x # set_null_bit 0 i bm @ V)"
proof -
  have "set_null_bit (length (take off d @ [x])) i ((take off d @ [x]) @ bm @ V @ drop (off + length (x # bm @ V)) d) =
      (take off d @ [x]) @ set_null_bit 0 i bm @ V @ drop (off + length (x # bm @ V)) d"
    by (rule set_null_bit_append [OF assms(1)])
  then show ?thesis using assms(2) by (simp add: memcpy_def)
qed

lemma written_null_bit:
  assumes "writer_ok w" and "i div 8 < length bm"
  shows "(written w (x # bm @ V))\<lparr>w_data := map_option (set_null_bit (w_size w + 1) i) (w_data (written w (x # bm @ V)))\<rparr> =
     written w (x # set_null_bit 0 i bm @ V)"
proof (cases "w_data w")
  case (Some d)
  then have "w_size w \<le> length d" using assms(1) by (auto simp: writer_ok_def)
  from set_null_bit_memcpy [OF assms(2) this, of x V] Some show ?thesis by (simp add: written_def)
qed (simp add: written_def)

lemma row_values_strict: "w_status w \<noteq> TDSQL_MYSQL_OK \<Longrightarrow> row_values dp w base binary i vs = w"
  by (cases vs) simp_all

lemma row_values_binary:
  assumes "list_all value_valid vs" and "(i + 2 + length vs + 7) div 8 \<le> length bm"
    and w: "writer_ok w" "w_status w = TDSQL_MYSQL_OK" and "w_size w + length (0 # bm @ V) \<le> w_capacity w"
  shows "if w_size w + length (0 # mark_nulls value_null (i + 2) vs bm @ V @ concat (map binary_enc vs)) \<le> w_capacity w
     then row_values dp (written w (0 # bm @ V)) (w_size w + 1) True i vs =
            written w (0 # mark_nulls value_null (i + 2) vs bm @ V @ concat (map binary_enc vs))
     else w_status (row_values dp (written w (0 # bm @ V)) (w_size w + 1) True i vs) = TDSQL_MYSQL_LIMIT"
  using assms(1,2,5)
proof (induction vs arbitrary: i bm V)
  case Nil
  then show ?case by simp
next
  case (Cons v vs)
  have v: "value_valid v" using Cons(2) by simp
  have ib: "(i + 2) div 8 < length bm"
    by (rule less_le_trans [OF bitmap_index Cons(3)]) simp
  let ?w = "written w (0 # bm @ V)"
  have ok: "w_status ?w = TDSQL_MYSQL_OK" "writer_ok ?w" using w Cons(4) by simp_all
  have step: "row_values dp ?w (w_size w + 1) True i (v # vs) =
      row_values dp (row_value dp ?w (w_size w + 1) i v True) (w_size w + 1) True (i + 1) vs" using ok by simp
  show ?case
  proof (cases "value_null v")
    case True
    have "row_value dp ?w (w_size w + 1) i v True = written w (0 # set_null_bit 0 (i + 2) bm @ V)"
      using row_value_binary [OF v ok(1)] True written_null_bit [OF w(1) ib] by simp
    then show ?thesis
      using Cons(1) [of "i + 1" "set_null_bit 0 (i + 2) bm" V] Cons(2-4) True step by (simp add: binary_enc_null split: if_splits)
  next
    case False
    have r: "row_value dp ?w (w_size w + 1) i v True = binary_step v ?w" using row_value_binary [OF v ok(1)] False by simp
    show ?thesis
    proof (cases "w_size ?w + length (binary_enc v) \<le> w_capacity ?w")
      case True
      have "binary_step v ?w = written w (0 # bm @ V @ binary_enc v)"
        using puts_fits [OF puts_binary_step [OF v] ok(2,1) True] written_written [OF w(1), of "0 # bm @ V" "binary_enc v"] Cons(4)
        by simp
      then show ?thesis
        using Cons(1) [of "i + 1" bm "V @ binary_enc v"] Cons(2-4) True False step r by (simp split: if_splits)
    next
      case nofit: False
      then have "w_status (binary_step v ?w) = TDSQL_MYSQL_LIMIT"
        using puts_limit [OF puts_binary_step [OF v] ok(2,1)] by simp
      then show ?thesis using nofit step r row_values_strict False by simp
    qed
  qed
qed

definition row_bitmap :: "turbodb_value list \<Rightarrow> bytes" where
  "row_bitmap vs = mark_nulls value_null 2 vs (replicate ((length vs + 9) div 8) 0)"

definition binary_row_payload :: "turbodb_value list \<Rightarrow> bytes" where
  "binary_row_payload vs = 0 # row_bitmap vs @ concat (map binary_enc vs)"

lemma puts_zeros: "puts ((\<lambda>w. response_integer w 0 1) ^^ n) (replicate n 0)"
proof (induction n)
  case 0
  then show ?case using puts_id by (simp add: id_def)
next
  case (Suc n)
  from puts_comp [OF Suc puts_integer(1) [of 0]] show ?case
    by (simp add: comp_def replicate_append_same)
qed

lemma puts_binary_row:
  assumes "list_all value_valid vs" and "0 < length vs" and "length vs \<le> UINT16_MAX"
  shows "puts_new (response_write dp (RESPONSE_ROW (Some vs) (length vs) True)) (binary_row_payload vs)"
  unfolding puts_new_def
proof (intro allI impI)
  fix w :: writer
  assume w: "writer_ok w" "w_status w = TDSQL_MYSQL_OK"
  define k where "k = (length vs + 9) div 8"
  let ?w1 = "response_integer w 0 1"
  let ?w2 = "((\<lambda>w. response_integer w 0 1) ^^ k) ?w1"
  have e: "response_write dp (RESPONSE_ROW (Some vs) (length vs) True) w = row_values dp ?w2 (w_size ?w1) True 0 vs"
    using assms(2,3) by (simp add: response_write_def row_write_def Let_def k_def add.commute)
  have len: "length (binary_row_payload vs) = 1 + k + length (concat (map binary_enc vs))"
    by (simp add: binary_row_payload_def row_bitmap_def k_def)
  have head: "puts (\<lambda>w. ((\<lambda>w. response_integer w 0 1) ^^ k) (response_integer w 0 1)) (0 # replicate k 0)"
    using puts_comp [OF puts_integer(1) [of 0] puts_zeros] by simp
  show "if w_size w + length (binary_row_payload vs) \<le> w_capacity w
        then response_write dp (RESPONSE_ROW (Some vs) (length vs) True) w = written w (binary_row_payload vs)
        else w_status (response_write dp (RESPONSE_ROW (Some vs) (length vs) True) w) = TDSQL_MYSQL_LIMIT"
  proof (cases "w_size w + length (0 # replicate k (0 :: u8)) \<le> w_capacity w")
    case True
    have w2: "?w2 = written w (0 # replicate k 0)" by (rule puts_fits [OF head w True])
    have w1: "w_size ?w1 = w_size w + 1" using puts_fits [OF puts_integer(1) [of 0] w] True by simp
    have k: "(0 + 2 + length vs + 7) div 8 \<le> length (replicate k (0 :: u8))" by (simp add: k_def)
    show ?thesis
      using row_values_binary [OF assms(1) k w, of "[]" dp] True
      unfolding e w2 w1 binary_row_payload_def row_bitmap_def k_def [symmetric] by (simp add: numeral_2_eq_2 split: if_splits)
  next
    case False
    then have l: "w_status ?w2 = TDSQL_MYSQL_LIMIT" using puts_limit [OF head w] by simp
    have "\<not> w_size w + length (binary_row_payload vs) \<le> w_capacity w" using False len by simp
    then show ?thesis unfolding e using l row_values_strict by simp
  qed
qed

lemma puts_text_row:
  assumes "list_all value_valid vs" and "0 < length vs" and "length vs \<le> UINT16_MAX"
  shows "puts_new (response_write [0x2e] (RESPONSE_ROW (Some vs) (length vs) False))
     (concat (map wire_bytes_enc (map value_column vs)))"
proof (rule puts_newI)
  show "puts (\<lambda>w. row_values [0x2e] w 0 False 0 vs) (concat (map wire_bytes_enc (map value_column vs)))"
    using row_values_text [OF assms(1)] by (simp add: comp_def)
qed (use assms(2,3) in \<open>simp add: response_write_def row_write_def\<close>)

text \<open>The columns in which a client reads the values back, and what it reads.\<close>

definition column_for :: "mysql_column_definition \<Rightarrow> turbodb_value \<Rightarrow> bool" where
  "column_for c v = (case tv_data v of
       TURBODB_VALUE_INT64 _ \<Rightarrow> col_type c = MYSQL_TYPE_LONGLONG \<and> col_flags c AND MYSQL_COLUMN_FLAG_UNSIGNED = 0
     | TURBODB_VALUE_UINT64 _ \<Rightarrow> col_type c = MYSQL_TYPE_LONGLONG \<and> col_flags c AND MYSQL_COLUMN_FLAG_UNSIGNED \<noteq> 0
     | TURBODB_VALUE_DOUBLE _ \<Rightarrow> col_type c = MYSQL_TYPE_DOUBLE
     | TURBODB_VALUE_BOOLEAN _ \<Rightarrow> col_type c = MYSQL_TYPE_TINY \<and> col_flags c AND MYSQL_COLUMN_FLAG_UNSIGNED = 0
     | TURBODB_VALUE_TEXT _ _ \<Rightarrow> col_type c = MYSQL_TYPE_VAR_STRING
     | TURBODB_VALUE_BLOB _ _ \<Rightarrow> col_type c = MYSQL_TYPE_BLOB
     | _ \<Rightarrow> True)"

definition received :: "turbodb_value \<Rightarrow> mysql_binary_data" where
  "received v = (case tv_data v of
       TURBODB_VALUE_INT64 x \<Rightarrow> MYSQL_BINARY_VALUE_SINT64 x
     | TURBODB_VALUE_UINT64 x \<Rightarrow> MYSQL_BINARY_VALUE_UINT64 x
     | TURBODB_VALUE_DOUBLE x \<Rightarrow> MYSQL_BINARY_VALUE_DOUBLE x
     | TURBODB_VALUE_BOOLEAN b \<Rightarrow> MYSQL_BINARY_VALUE_SINT64 (ucast b)
     | TURBODB_VALUE_TEXT data len \<Rightarrow> MYSQL_BINARY_VALUE_BYTES (wire_bytes (span data len))
     | TURBODB_VALUE_BLOB data len \<Rightarrow> MYSQL_BINARY_VALUE_BYTES (wire_bytes (span data len))
     | _ \<Rightarrow> MYSQL_BINARY_VALUE_NULL)"

lemma sign_extend_64: "mysql_row_sign_extend x 64 = x"
  using mysql_row_sign_extend_correct [of 64 x] by (simp add: signed_take_bit_63)

lemma sign_extend_bool: "b \<le> (1 :: u8) \<Longrightarrow> mysql_row_sign_extend (ucast b) 8 = ucast b"
proof -
  assume "b \<le> 1"
  then have "unat b \<le> 1" by (simp add: word_le_nat_alt)
  then have "unat b = unat (0 :: u8) \<or> unat b = unat (1 :: u8)" by (simp add: le_Suc_eq)
  then have "b = 0 \<or> b = 1" by (simp only: word_unat_eq_iff)
  then show ?thesis by (auto simp: mysql_row_sign_extend_def)
qed

lemma item_decodes_value:
  assumes v: "value_valid v" and "\<not> value_null v" and "column_for c v"
  shows "item_decodes d c (received v, binary_enc v)"
  unfolding item_decodes_def fst_conv snd_conv
proof (intro allI impI)
  fix off off' assume s: "seg d off (binary_enc v) off'"
  have chk: "value_check v = TDSQL_MYSQL_OK" using v by (simp add: value_valid_def)
  have sp: "mysql_wire_read_lenenc_bytes (Some d) off = Inr (wire_bytes (span data len), off')"
    if "span_ok data len" "seg d off (lenenc_bytes (span data len)) off'" for data len
    using lenenc_bytes_seg [OF _ that(2)] length_span [OF that(1)] that(1) by (simp add: span_ok_def)
  have i: "mysql_wire_read_u64_le (Some d) off = Inr (x, off')" if "seg d off (u64_bytes x) off'" for x
    using that by (rule u64c.dec_seg [OF TrueI])
  have nb: "\<not> wb_is_null (wire_bytes bs)" for bs by (simp add: wire_bytes_def)
  show "mysql_row_decode_value d off c = Inr (received v, off')"
  proof (cases "tv_data v")
    case (TURBODB_VALUE_BOOLEAN b)
    then have "b \<le> 1" using chk by (simp add: value_check_def split: if_splits)
    then show ?thesis
      using TURBODB_VALUE_BOOLEAN assms(3) s
      by (auto simp: mysql_row_decode_value_def mysql_row_decode_integer_def column_for_def received_def binary_enc_def seg_Cons sign_extend_bool)
  next
    case TURBODB_VALUE_NULL
    then show ?thesis using assms(2) by (simp add: value_null_def)
  next
    case TURBODB_VALUE_OTHER
    then show ?thesis using value_valid_kind [OF v] by simp
  next
    case (TURBODB_VALUE_INT64 x)
    then show ?thesis using assms(3) s i [of x]
      by (simp add: mysql_row_decode_value_def mysql_row_decode_integer_def column_for_def received_def binary_enc_def sign_extend_64)
  next
    case (TURBODB_VALUE_UINT64 x)
    then show ?thesis using assms(3) s i [of x]
      by (simp add: mysql_row_decode_value_def mysql_row_decode_integer_def column_for_def received_def binary_enc_def)
  next
    case (TURBODB_VALUE_DOUBLE x)
    then show ?thesis using assms(3) s i [of x]
      by (simp add: mysql_row_decode_value_def mysql_row_decode_double_def column_for_def received_def binary_enc_def)
  next
    case (TURBODB_VALUE_TEXT data len)
    then show ?thesis using assms(3) s sp [of data len] v nb
      by (simp add: mysql_row_decode_value_def mysql_row_decode_bytes_def column_for_def received_def binary_enc_def value_valid_def value_spans_def)
  next
    case (TURBODB_VALUE_BLOB data len)
    then show ?thesis using assms(3) s sp [of data len] v nb
      by (simp add: mysql_row_decode_value_def mysql_row_decode_bytes_def column_for_def received_def binary_enc_def value_valid_def value_spans_def)
  qed
qed

lemma decode_prepare_ok_payload: "mysql_wire_decode_stmt_prepare_ok (Some (prepare_ok_payload p)) = Inr p"
proof -
  let ?d = "prepare_ok_payload p"
  have "seg ?d 0 ?d (length ?d)" by (rule seg_whole)
  then obtain o1 o2 o3 o4 o5 where s: "seg ?d 0 [0] o1" "seg ?d o1 (u32_bytes (po_statement_id p)) o2"
      "seg ?d o2 (u16_bytes (po_column_count p)) o3" "seg ?d o3 (u16_bytes (po_parameter_count p)) o4"
      "seg ?d o4 [0] o5" "seg ?d o5 (u16_bytes (po_warning_count p)) (length ?d)"
    unfolding prepare_ok_payload_def seg_append by blast
  have h: "?d ! 0 = 0" "o1 = 1" "?d ! o4 = 0" "o5 = o4 + 1" "length ?d = 12"
    using s(1,5) by (auto simp: seg_Cons prepare_ok_payload_def)
  have r: "mysql_wire_read_u32_le (Some ?d) 1 = Inr (po_statement_id p, o2)"
    "mysql_wire_read_u16_le (Some ?d) o2 = Inr (po_column_count p, o3)"
    "mysql_wire_read_u16_le (Some ?d) o3 = Inr (po_parameter_count p, o4)"
    "mysql_wire_read_u16_le (Some ?d) (o4 + 1) = Inr (po_warning_count p, length ?d)"
    using s h by (simp_all add: u32c.dec_seg u16c.dec_seg)
  show ?thesis using h r by (simp add: mysql_wire_decode_stmt_prepare_ok_def)
qed

lemma bit_row_bitmap:
  assumes "j < length vs"
  shows "bit (row_bitmap vs ! ((j + 2) div 8)) ((j + 2) mod 8) \<longleftrightarrow> value_null (vs ! j)"
proof -
  have ix: "(j + 2) div 8 < (length vs + 9) div 8"
    using bitmap_index [of "j + 2" "length vs + 2"] assms by (simp add: add.commute)
  show ?thesis
    using bit_mark_nulls [of 2 vs "replicate ((length vs + 9) div 8) 0" value_null "j + 2"] assms ix
    unfolding row_bitmap_def by (simp add: add.commute)
qed

lemma decode_binary_row_payload:
  assumes "list_all value_valid vs" and "list_all2 column_for cols vs" and "length slots = length vs"
    and "length vs \<le> UINT16_MAX"
  shows "mysql_wire_decode_binary_row (Some (binary_row_payload vs)) (Some cols) (length vs) (Some slots) (length slots) =
     (MYSQL_WIRE_STATUS_OK, Some (map2 (\<lambda>c v. \<lparr>bv_data = received v, bv_mysql_type = col_type c\<rparr>) cols vs))"
proof -
  define d where "d = binary_row_payload vs"
  define k where "k = (length vs + 9) div 8"
  define items where "items = map (\<lambda>v. (received v, binary_enc v)) vs"
  have len: "length cols = length vs" using assms(2) by (rule list_all2_lengthD)
  have bm: "length (row_bitmap vs) = k" by (simp add: row_bitmap_def k_def)
  have at: "d ! (1 + j) = row_bitmap vs ! j" if "j < k" for j
    using that bm by (simp add: d_def binary_row_payload_def nth_append)
  have nulls: "bit (d ! (1 + (0 + j + 2) div 8)) ((0 + j + 2) mod 8) \<longleftrightarrow> value_null (vs ! j)" if "j < length vs" for j
  proof -
    have "(j + 2) div 8 < k" using bitmap_index [of "j + 2" "length vs + 2"] that by (simp add: k_def add.commute)
    then show ?thesis using at bit_row_bitmap [OF that] by simp
  qed
  have nullv: "value_null v \<Longrightarrow> (received v, binary_enc v) = (MYSQL_BINARY_VALUE_NULL, [])" for v
    by (simp add: value_null_def received_def binary_enc_def)
  have iff: "(received v = MYSQL_BINARY_VALUE_NULL) \<longleftrightarrow> value_null v" if "value_valid v" for v
    using value_valid_kind [OF that] by (auto simp: value_null_def received_def split: turbodb_value_data.splits)
  have s: "seg d (1 + k) (concat (map snd items)) (length d)"
    using bm by (intro segI [where pre = "0 # row_bitmap vs" and post = "[]"])
      (simp_all add: d_def binary_row_payload_def items_def comp_def)
  have "binary_row_loop cols 0 d (1 + k) slots = (MYSQL_WIRE_STATUS_OK, take 0 slots @
      map2 (\<lambda>c item. \<lparr>bv_data = fst item, bv_mysql_type = col_type c\<rparr>) cols items @ drop (0 + length cols) slots)"
  proof (rule binary_row_loop_seg [where null = "\<lambda>item. fst item = MYSQL_BINARY_VALUE_NULL", OF _ _ _ _ _ s])
    show "length cols = length items" "0 + length cols \<le> length slots" using len assms(3) by (simp_all add: items_def)
    show "\<forall>j<length items. bit (d ! (1 + (0 + j + 2) div 8)) ((0 + j + 2) mod 8) = (fst (items ! j) = MYSQL_BINARY_VALUE_NULL)"
      using nulls iff assms(1) by (simp add: items_def list_all_length)
    show "\<forall>j<length items. fst (items ! j) = MYSQL_BINARY_VALUE_NULL \<longrightarrow> items ! j = (MYSQL_BINARY_VALUE_NULL, [])"
      using nullv iff assms(1) by (simp add: items_def list_all_length)
    show "\<forall>j<length items. fst (items ! j) \<noteq> MYSQL_BINARY_VALUE_NULL \<longrightarrow> item_decodes d (cols ! j) (items ! j)"
      using item_decodes_value iff assms(1,2) by (simp add: items_def list_all_length list_all2_conv_all_nth)
  qed
  moreover have "map2 (\<lambda>c item. \<lparr>bv_data = fst item, bv_mysql_type = col_type c\<rparr>) cols items =
      map2 (\<lambda>c v. \<lparr>bv_data = received v, bv_mysql_type = col_type c\<rparr>) cols vs"
    by (simp add: items_def zip_map2 comp_def case_prod_beta)
  moreover have "length d = 1 + k + length (concat (map binary_enc vs))" "d ! 0 = 0"
    using bm by (simp_all add: d_def binary_row_payload_def)
  ultimately show ?thesis
    using len assms(3,4) unfolding d_def [symmetric] mysql_wire_decode_binary_row_def Let_def k_def [symmetric]
    by (simp add: SIZE_MAX_def)
qed


section \<open>Properties\<close>

text \<open>
  C7. Measuring decides the encoding: with or without a buffer an encoder returns the same status and
  announces the same size, and a call that fails leaves the whole output as it was.
\<close>

theorem encode_measures_first:
  "let measured = response_encode dp r (Some (out\<lparr>out_data := None\<rparr>));
       encoded = response_encode dp r (Some out)
   in fst encoded = fst measured \<and>
      map_option out_size (snd encoded) = map_option out_size (snd measured) \<and>
      (fst encoded = TDSQL_MYSQL_OK \<or> snd encoded = Some out)"
  by (cases out) (simp add: response_encode_two_passes Let_def)

text \<open>
  C9. Control packets reach the client: for every valid OK, ERR, EOF and PREPARE answer the server
  emits exactly the packet, or reports LIMIT and writes nothing when the buffer is too small, and the
  client decodes the packet to what the server was given.
\<close>

theorem control_packets_roundtrip:
  assumes "output_ok out"
    and "capabilities AND MYSQL_WIRE_CLIENT_PROTOCOL_41 \<noteq> 0" and "capabilities AND MYSQL_WIRE_CLIENT_SESSION_TRACK = 0"
    and "deprecated \<longleftrightarrow> capabilities AND MYSQL_WIRE_CLIENT_DEPRECATE_EOF \<noteq> 0"
    and "ok_packet_valid p deprecated" and "err_valid code sqlstate message"
    and "status_flags (eof_status_flags e) = TDSQL_MYSQL_OK" and "po_statement_id prepared \<noteq> 0"
  shows "\<exists>ok err eof prep.
     tdsql_mysql_ok_encode dp (Some p) deprecated (Some out) = encoded out ok \<and>
     mysql_wire_decode_ok_packet (Some ok) capabilities =
       Inr (p\<lparr>ok_info := wire_bytes (wire_text (ok_info p)), ok_session_state := wire_bytes_zero\<rparr>) \<and>
     tdsql_mysql_err_encode dp code (Some sqlstate) message (Some out) = encoded out err \<and>
     mysql_wire_decode_err_packet (Some err) capabilities =
       Inr \<lparr>err_error_code = code, err_has_sql_state = True, err_sql_state = sqlstate @ [0],
            err_message = wire_bytes (wire_text message)\<rparr> \<and>
     tdsql_mysql_eof_encode dp (Some e) (Some out) = encoded out eof \<and>
     mysql_wire_decode_eof_packet (Some eof) capabilities = Inr e \<and>
     tdsql_mysql_prepare_encode dp (Some prepared) (Some out) = encoded out prep \<and>
     mysql_wire_decode_stmt_prepare_ok (Some prep) = Inr prepared"
proof (intro exI conjI)
  have h: "ok_header p = 0 \<or> ok_header p = 0xfe \<and> capabilities AND MYSQL_WIRE_CLIENT_DEPRECATE_EOF \<noteq> 0"
    using assms(4,5) by (auto simp: ok_packet_valid_def)
  show "tdsql_mysql_ok_encode dp (Some p) deprecated (Some out) = encoded out
     (ok_payload (ok_header p) (ok_affected_rows p) (ok_last_insert_id p) (ok_status_flags p) (ok_warnings p) (wire_text (ok_info p)))"
    unfolding encoder_defs by (rule response_encode_puts [OF puts_ok [OF assms(5)] assms(1)])
  show "mysql_wire_decode_ok_packet (Some (ok_payload (ok_header p) (ok_affected_rows p) (ok_last_insert_id p)
      (ok_status_flags p) (ok_warnings p) (wire_text (ok_info p)))) capabilities =
      Inr (p\<lparr>ok_info := wire_bytes (wire_text (ok_info p)), ok_session_state := wire_bytes_zero\<rparr>)"
    using decode_ok_payload [OF assms(2,3) h] by simp
  show "tdsql_mysql_err_encode dp code (Some sqlstate) message (Some out) = encoded out (err_payload code sqlstate (wire_text message))"
    unfolding encoder_defs by (rule response_encode_puts [OF puts_err [OF assms(6)] assms(1)])
  show "mysql_wire_decode_err_packet (Some (err_payload code sqlstate (wire_text message))) capabilities =
       Inr \<lparr>err_error_code = code, err_has_sql_state = True, err_sql_state = sqlstate @ [0],
            err_message = wire_bytes (wire_text message)\<rparr>"
    using assms(6) by (intro decode_err_payload [OF assms(2)]) (simp add: err_valid_def)
  show "tdsql_mysql_eof_encode dp (Some e) (Some out) = encoded out (eof_payload (eof_warnings e) (eof_status_flags e))"
    unfolding encoder_defs by (rule response_encode_puts [OF puts_eof [OF assms(7)] assms(1)])
  show "mysql_wire_decode_eof_packet (Some (eof_payload (eof_warnings e) (eof_status_flags e))) capabilities = Inr e"
    using decode_eof_payload [OF assms(2)] by simp
  show "tdsql_mysql_prepare_encode dp (Some prepared) (Some out) = encoded out (prepare_ok_payload prepared)"
    unfolding encoder_defs by (rule response_encode_puts [OF puts_prepare [OF assms(8)] assms(1)])
  show "mysql_wire_decode_stmt_prepare_ok (Some (prepare_ok_payload prepared)) = Inr prepared"
    by (rule decode_prepare_ok_payload)
qed

theorem control_packets_roundtrip_witness:
  "\<exists>ok. tdsql_mysql_ok_encode [0x2e] (Some \<lparr>ok_header = 0, ok_affected_rows = 3, ok_last_insert_id = 300, ok_status_flags = 2,
        ok_warnings = 0, ok_info = wire_bytes [72, 105], ok_session_state = wire_bytes_zero\<rparr>) False
        (Some \<lparr>out_data = Some (replicate 16 0), out_capacity = 16, out_size = 0\<rparr>) =
      encoded \<lparr>out_data = Some (replicate 16 0), out_capacity = 16, out_size = 0\<rparr> ok \<and>
      mysql_wire_decode_ok_packet (Some ok) 0x200 =
        Inr \<lparr>ok_header = 0, ok_affected_rows = 3, ok_last_insert_id = 300, ok_status_flags = 2,
        ok_warnings = 0, ok_info = wire_bytes [72, 105], ok_session_state = wire_bytes_zero\<rparr>"
proof -
  let ?p = "\<lparr>ok_header = 0, ok_affected_rows = 3, ok_last_insert_id = 300, ok_status_flags = 2,
        ok_warnings = 0, ok_info = wire_bytes [72, 105], ok_session_state = wire_bytes_zero\<rparr> :: mysql_wire_ok_packet"
  let ?out = "\<lparr>out_data = Some (replicate 16 0), out_capacity = 16, out_size = 0\<rparr> :: tdsql_mysql_output"
  have v: "ok_packet_valid ?p False" "err_valid 1064 [52, 50, 48, 48, 48] (wire_bytes [65])"
    by (simp_all add: ok_packet_valid_def err_valid_def status_flags_def wire_bytes_zero_def SIZE_MAX_def sqlstate_ok_def)
       (simp add: wire_bytes_def)
  show ?thesis
    using control_packets_roundtrip [of ?out "0x200" False ?p "1064" "[52, 50, 48, 48, 48]" "wire_bytes [65]"
        "\<lparr>eof_warnings = 0, eof_status_flags = 2\<rparr>"
        "\<lparr>po_statement_id = 1, po_column_count = 0, po_parameter_count = 0, po_warning_count = 0\<rparr>" "[0x2e]"] v
    by (auto simp: output_ok_def status_flags_def)
qed

text \<open>
  C14. Column definitions reach the client: the server writes the definition of a column of a supported
  type, and the client decodes it to the same definition.
\<close>

theorem column_roundtrip:
  assumes "output_ok out" and "column_valid c" and "column_ok c"
  shows "tdsql_mysql_column_encode dp (Some c) (Some out) = encoded out (column_payload c) \<and>
     mysql_wire_decode_column_definition41 (Some (column_payload c)) = Inr c"
  unfolding encoder_defs
  using response_encode_puts [OF puts_column [OF assms(2)] assms(1)] decode_column_payload [OF assms(3)] by simp

theorem column_roundtrip_witness:
  "let c = \<lparr>col_catalog = wire_bytes [100, 101, 102], col_schema = wire_bytes [], col_table = wire_bytes [116],
         col_org_table = wire_bytes [116], col_name = wire_bytes [97], col_org_name = wire_bytes [97],
         col_character_set = 63, col_column_length = 20, col_type = 8, col_flags = 0, col_decimals = 0\<rparr>
   in mysql_wire_decode_column_definition41 (Some (column_payload c)) = Inr c"
  unfolding Let_def
  by (rule conjunct2 [OF column_roundtrip [of "\<lparr>out_data = None, out_capacity = 64, out_size = 0\<rparr>"]])
     (auto simp: output_ok_def column_valid_def column_ok_def SIZE_MAX_def)

text \<open>
  C8. Text rows reach the client: in a locale whose decimal point is a period, a row of one to 65535 valid values is written, and
  the client decodes it to the printed values, nulls included.
\<close>

theorem text_row_roundtrip:
  assumes "output_ok out" and "list_all value_valid vs" and "vs \<noteq> []" and "length vs \<le> UINT16_MAX"
    and "length slots = length vs"
  shows "tdsql_mysql_row_encode [0x2e] (Some vs) (length vs) False (Some out) =
       encoded out (concat (map wire_bytes_enc (map value_column vs))) \<and>
     mysql_wire_decode_text_row (Some (concat (map wire_bytes_enc (map value_column vs)))) (length vs) (Some slots) (length vs) =
       (MYSQL_WIRE_STATUS_OK, Some (map value_column vs))"
proof -
  have ok: "wire_bytes_ok (value_column v)" if "value_valid v" for v
  proof (cases "value_text v")
    case (Some bs)
    have "length bs \<le> SIZE_MAX"
    proof (cases "(\<exists>p n. tv_data v = TURBODB_VALUE_TEXT p n) \<or> (\<exists>p n. tv_data v = TURBODB_VALUE_BLOB p n)")
      case True
      then show ?thesis using that Some length_span
        by (auto simp: value_valid_def value_spans_def value_text_def span_ok_def)
    next
      case False
      then show ?thesis using printed_fits [OF that Some] by (force simp: SIZE_MAX_def)
    qed
    then show ?thesis using Some by (simp add: value_column_def)
  qed (simp add: value_column_def)
  show ?thesis
    unfolding encoder_defs
    using response_encode_puts [OF puts_text_row [OF assms(2)] assms(1)] assms(3,4,5)
      text_row_loop_seg [of 0 "length vs" "map value_column vs" "clear_columns (length vs) slots"
        "concat (map wire_bytes_enc (map value_column vs))" 0]
      seg_whole [of "concat (map wire_bytes_enc (map value_column vs))"] ok assms(2)
    by (simp add: mysql_wire_decode_text_row_def list.pred_map comp_def list_all_length clear_columns_def)
qed

theorem text_row_roundtrip_witness:
  "mysql_wire_decode_text_row (Some (concat (map wire_bytes_enc (map value_column [turbodb_u64 7, turbodb_null])))) 2
     (Some [wire_bytes_zero, wire_bytes_zero]) 2 =
     (MYSQL_WIRE_STATUS_OK, Some [wire_bytes [0x37], wire_bytes_null])"
proof -
  let ?vs = "[turbodb_u64 7, turbodb_null]"
  have v: "list_all value_valid ?vs" by (simp add: value_valid_def value_check_def value_spans_def turbodb_value_defs)
  have n: "length ?vs = 2" by simp
  have m: "value_column (turbodb_u64 7) = wire_bytes [0x37]" "value_column turbodb_null = wire_bytes_null"
    by (simp_all add: value_column_def value_text_def turbodb_value_defs print_u64_def decimal.simps digit_def)
  show ?thesis
    using text_row_roundtrip [of "\<lparr>out_data = None, out_capacity = 64, out_size = 0\<rparr>" ?vs "[wire_bytes_zero, wire_bytes_zero]", unfolded n] v
    by (simp add: output_ok_def m)
qed

text \<open>
  C3. Binary rows reach the client: a row of one to 65535 valid values is written with its null bitmap, and the client,
  reading it with columns of the types the server announces for these values, receives every value.
\<close>

theorem binary_row_roundtrip:
  assumes "output_ok out" and "list_all value_valid vs" and "vs \<noteq> []" and "length vs \<le> UINT16_MAX"
    and "list_all2 column_for cols vs" and "length slots = length vs"
  shows "tdsql_mysql_row_encode dp (Some vs) (length vs) True (Some out) = encoded out (binary_row_payload vs) \<and>
     mysql_wire_decode_binary_row (Some (binary_row_payload vs)) (Some cols) (length vs) (Some slots) (length slots) =
       (MYSQL_WIRE_STATUS_OK, Some (map2 (\<lambda>c v. \<lparr>bv_data = received v, bv_mysql_type = col_type c\<rparr>) cols vs))"
  unfolding encoder_defs
  using response_encode_puts [OF puts_binary_row [OF assms(2)] assms(1)] assms(3,4)
    decode_binary_row_payload [OF assms(2,5,6,4)] by simp

theorem binary_row_roundtrip_witness:
  "\<exists>cols slots. mysql_wire_decode_binary_row (Some (binary_row_payload [turbodb_null, turbodb_i64 (- 5)])) (Some cols) 2 (Some slots) 2 =
     (MYSQL_WIRE_STATUS_OK, Some [\<lparr>bv_data = MYSQL_BINARY_VALUE_NULL, bv_mysql_type = 8\<rparr>,
        \<lparr>bv_data = MYSQL_BINARY_VALUE_SINT64 (- 5), bv_mysql_type = 8\<rparr>])"
proof -
  let ?vs = "[turbodb_null, turbodb_i64 (- 5)]"
  let ?c = "\<lparr>col_catalog = wire_bytes_zero, col_schema = wire_bytes_zero, col_table = wire_bytes_zero,
         col_org_table = wire_bytes_zero, col_name = wire_bytes_zero, col_org_name = wire_bytes_zero,
         col_character_set = 63, col_column_length = 20, col_type = 8, col_flags = 0, col_decimals = 0\<rparr> :: mysql_column_definition"
  let ?slot = "\<lparr>bv_data = MYSQL_BINARY_VALUE_NULL, bv_mysql_type = 0\<rparr> :: mysql_binary_value"
  have n: "length ?vs = 2" "length [?slot, ?slot] = 2" by simp_all
  have v: "list_all value_valid ?vs" "list_all2 column_for [?c, ?c] ?vs"
    by (simp_all add: value_valid_def value_check_def value_spans_def turbodb_value_defs column_for_def)
  have r: "received turbodb_null = MYSQL_BINARY_VALUE_NULL" "received (turbodb_i64 (- 5)) = MYSQL_BINARY_VALUE_SINT64 (- 5)"
    by (simp_all add: received_def turbodb_value_defs)
  show ?thesis
    using binary_row_roundtrip [of "\<lparr>out_data = None, out_capacity = 64, out_size = 0\<rparr>" ?vs "[?c, ?c]" "[?slot, ?slot]" "[]", unfolded n] v
    by (intro exI [of _ "[?c, ?c]"] exI [of _ "[?slot, ?slot]"]) (simp add: output_ok_def r)
qed

end
