(* ===== verification/Wire_Handshake.thy ===== *)
theory Wire_Handshake
  imports Wire_Statement Wire_Result
begin

unbundle bit_operations_syntax

text \<open>
  The client's half of the connection handshake, \<open>src/mysql/wire/handshake.c\<close>: parsing the greeting and
  an authentication switch, choosing capabilities, and building the TLS request and the login.

  The fixed character arrays of the structs are byte lists of their capacity, all zero before they are
  filled.  A C string is a byte list that contains its terminator; \<open>c_string\<close> is what lies before it.
\<close>

section \<open>Data\<close>

abbreviation (input) "MYSQL_WIRE_CLIENT_LONG_PASSWORD \<equiv> 0x00000001 :: u32"
abbreviation (input) "MYSQL_WIRE_CLIENT_LONG_FLAG \<equiv> 0x00000004 :: u32"
abbreviation (input) "MYSQL_WIRE_CLIENT_CONNECT_WITH_DB \<equiv> 0x00000008 :: u32"
abbreviation (input) "MYSQL_WIRE_CLIENT_SSL \<equiv> 0x00000800 :: u32"
abbreviation (input) "MYSQL_WIRE_CLIENT_TRANSACTIONS \<equiv> 0x00002000 :: u32"
abbreviation (input) "MYSQL_WIRE_CLIENT_SECURE_CONNECTION \<equiv> 0x00008000 :: u32"
abbreviation (input) "MYSQL_WIRE_CLIENT_MULTI_RESULTS \<equiv> 0x00020000 :: u32"
abbreviation (input) "MYSQL_WIRE_CLIENT_PLUGIN_AUTH \<equiv> 0x00080000 :: u32"

abbreviation (input) "MYSQL_WIRE_AUTH_PLUGIN_NAME_CAPACITY \<equiv> 64 :: nat"
abbreviation (input) "MYSQL_WIRE_SERVER_VERSION_CAPACITY \<equiv> 128 :: nat"
abbreviation (input) "MYSQL_WIRE_AUTH_DATA_CAPACITY \<equiv> 32 :: nat"

record mysql_wire_greeting =
  gr_protocol_version :: u8
  gr_server_version :: bytes
  gr_connection_id :: u32
  gr_capabilities :: u32
  gr_character_set :: u8
  gr_status_flags :: u16
  gr_auth_plugin_data :: bytes
  gr_auth_plugin_data_length :: nat
  gr_auth_plugin :: bytes

record mysql_wire_auth_switch =
  sw_plugin :: bytes
  sw_data :: bytes
  sw_data_length :: nat

definition greeting_zero :: mysql_wire_greeting where
  "greeting_zero = \<lparr>gr_protocol_version = 0, gr_server_version = replicate 128 0, gr_connection_id = 0, gr_capabilities = 0,
     gr_character_set = 0, gr_status_flags = 0, gr_auth_plugin_data = replicate 32 0, gr_auth_plugin_data_length = 0,
     gr_auth_plugin = replicate 64 0\<rparr>"

definition c_string :: "bytes \<Rightarrow> bytes" where
  "c_string s = takeWhile (\<lambda>c. c \<noteq> 0) s"


section \<open>Operations\<close>

text \<open>The array \<open>out\<close> of \<open>out_capacity\<close> bytes is returned filled.\<close>

definition mysql_wire_read_cstring :: "ptr \<Rightarrow> nat \<Rightarrow> bytes \<Rightarrow> nat \<Rightarrow> bytes wire_read" where
  "mysql_wire_read_cstring data offset out out_capacity =
     (case data of None \<Rightarrow> Inl MYSQL_WIRE_STATUS_INVALID
      | Some d \<Rightarrow>
        if out_capacity = 0 then Inl MYSQL_WIRE_STATUS_INVALID
        else if offset \<ge> length d then Inl MYSQL_WIRE_STATUS_NEED_MORE
        else
          let len = length (takeWhile (\<lambda>c. c \<noteq> 0) (drop offset d)) in
          if offset + len = length d then Inl MYSQL_WIRE_STATUS_NEED_MORE
          else if len + 1 > out_capacity then Inl MYSQL_WIRE_STATUS_LIMIT
          else Inr ((memcpy out 0 (take len (drop offset d)))[len := 0], offset + len + 1))"

definition mysql_wire_write_bytes :: "ptr \<Rightarrow> nat \<Rightarrow> nat \<Rightarrow> ptr \<Rightarrow> nat \<Rightarrow> wire_write" where
  "mysql_wire_write_bytes out capacity offset data sz =
     (case out of None \<Rightarrow> (MYSQL_WIRE_STATUS_INVALID, None, offset)
      | Some d \<Rightarrow>
        if data = None \<and> sz \<noteq> 0 then (MYSQL_WIRE_STATUS_INVALID, out, offset)
        else if offset > capacity \<or> capacity - offset < sz then (MYSQL_WIRE_STATUS_LIMIT, out, offset)
        else (MYSQL_WIRE_STATUS_OK,
              (if sz \<noteq> 0 then Some (memcpy d offset (case data of None \<Rightarrow> [] | Some x \<Rightarrow> take sz x)) else out),
              offset + sz))"

text \<open>\<open>if (offset >= capacity) return LIMIT; out[offset++] = value;\<close>\<close>

definition write_byte :: "ptr \<Rightarrow> nat \<Rightarrow> nat \<Rightarrow> u8 \<Rightarrow> wire_write" where
  "write_byte out capacity offset v =
     (if offset \<ge> capacity then (MYSQL_WIRE_STATUS_LIMIT, out, offset)
      else (MYSQL_WIRE_STATUS_OK, map_option (\<lambda>d. d[offset := v]) out, offset + 1))"

definition mysql_wire_write_cstring :: "ptr \<Rightarrow> nat \<Rightarrow> nat \<Rightarrow> ptr \<Rightarrow> wire_write" where
  "mysql_wire_write_cstring out capacity offset v =
     (case v of None \<Rightarrow> (MYSQL_WIRE_STATUS_INVALID, out, offset)
      | Some s \<Rightarrow>
        write_then (mysql_wire_write_bytes out capacity offset v (length (c_string s)))
          (\<lambda>out offset. write_byte out capacity offset 0))"

text \<open>The second part of the authentication data and the name of the plugin.\<close>

definition greeting_part2 :: "bytes \<Rightarrow> nat \<Rightarrow> nat \<Rightarrow> mysql_wire_greeting \<Rightarrow> mysql_wire_greeting wire_read" where
  "greeting_part2 d offset auth_plugin_data_length out =
     (if gr_capabilities out AND MYSQL_WIRE_CLIENT_SECURE_CONNECTION \<noteq> 0 \<and> offset < length d then
        let part2_wire_length = (if auth_plugin_data_length > 8 then auth_plugin_data_length - 8 else 13);
            part2_wire_length = (if part2_wire_length < 13 then 13 else part2_wire_length);
            part2_available = length d - offset;
            part2_wire_length = (if part2_wire_length > part2_available then part2_available else part2_wire_length);
            part2_copy = part2_wire_length;
            part2_copy = (if part2_copy \<noteq> 0 \<and> d ! (offset + part2_copy - 1) = 0 then part2_copy - 1 else part2_copy) in
        if part2_copy > MYSQL_WIRE_AUTH_DATA_CAPACITY - gr_auth_plugin_data_length out then Inl MYSQL_WIRE_STATUS_LIMIT
        else
          Inr (out\<lparr>gr_auth_plugin_data :=
                 memcpy (gr_auth_plugin_data out) (gr_auth_plugin_data_length out) (take part2_copy (drop offset d)),
                 gr_auth_plugin_data_length := gr_auth_plugin_data_length out + part2_copy\<rparr>,
               offset + part2_wire_length)
      else Inr (out, offset))"

definition greeting_plugin :: "bytes \<Rightarrow> nat \<Rightarrow> mysql_wire_greeting \<Rightarrow> mysql_wire_greeting wire_read" where
  "greeting_plugin d offset out =
     (if gr_capabilities out AND MYSQL_WIRE_CLIENT_PLUGIN_AUTH \<noteq> 0 \<and> offset < length d then
        and_then (mysql_wire_read_cstring (Some d) offset (gr_auth_plugin out) MYSQL_WIRE_AUTH_PLUGIN_NAME_CAPACITY)
          (\<lambda>(auth_plugin, offset). Inr (out\<lparr>gr_auth_plugin := auth_plugin\<rparr>, offset))
      else Inr (out, offset))"

definition mysql_wire_parse_greeting :: "ptr \<Rightarrow> mysql_wire_status + mysql_wire_greeting" where
  "mysql_wire_parse_greeting payload =
     (case payload of None \<Rightarrow> Inl MYSQL_WIRE_STATUS_INVALID
      | Some d \<Rightarrow>
        if length d < 1 then Inl MYSQL_WIRE_STATUS_NEED_MORE
        else if d ! 0 \<noteq> 10 then Inl MYSQL_WIRE_STATUS_INVALID
        else
          and_then (mysql_wire_read_cstring payload 1 (gr_server_version greeting_zero) MYSQL_WIRE_SERVER_VERSION_CAPACITY)
            (\<lambda>(server_version, offset).
          and_then (mysql_wire_read_u32_le payload offset) (\<lambda>(connection_id, offset).
          if length d - offset < 8 + 1 then Inl MYSQL_WIRE_STATUS_NEED_MORE
          else
            let out = greeting_zero\<lparr>gr_protocol_version := d ! 0, gr_server_version := server_version,
                        gr_connection_id := connection_id,
                        gr_auth_plugin_data := memcpy (gr_auth_plugin_data greeting_zero) 0 (take 8 (drop offset d)),
                        gr_auth_plugin_data_length := 8\<rparr>;
                offset = offset + 8 in
            if d ! offset \<noteq> 0 then Inl MYSQL_WIRE_STATUS_INVALID
            else
              and_then (mysql_wire_read_u16_le payload (offset + 1)) (\<lambda>(capability_low, offset).
              if offset = length d then Inr (out\<lparr>gr_capabilities := ucast capability_low\<rparr>)
              else if length d - offset < 1 + 2 + 2 + 1 + 10 then Inl MYSQL_WIRE_STATUS_NEED_MORE
              else
                let character_set = d ! offset in
                and_then (mysql_wire_read_u16_le payload (offset + 1)) (\<lambda>(status_flags, offset).
                and_then (mysql_wire_read_u16_le payload offset) (\<lambda>(capability_high, offset).
                let capabilities = ucast capability_low OR push_bit 16 (ucast capability_high);
                    out = out\<lparr>gr_character_set := character_set, gr_status_flags := status_flags,
                              gr_capabilities := capabilities\<rparr>;
                    auth_plugin_data_length = unat (d ! offset);
                    offset = offset + 1 + 10 in
                and_then (greeting_part2 d offset auth_plugin_data_length out) (\<lambda>(out, offset).
                and_then (greeting_plugin d offset out) (\<lambda>(out, offset).
                Inr (if gr_auth_plugin_data_length out > 20 then out\<lparr>gr_auth_plugin_data_length := 20\<rparr> else out)))))))))"

definition mysql_wire_select_client_capabilities ::
    "mysql_wire_greeting option \<Rightarrow> bool \<Rightarrow> bool \<Rightarrow> mysql_wire_status \<times> u32 option" where
  "mysql_wire_select_client_capabilities greeting use_tls use_database =
     (let required = MYSQL_WIRE_CLIENT_PROTOCOL_41 OR MYSQL_WIRE_CLIENT_SECURE_CONNECTION OR MYSQL_WIRE_CLIENT_PLUGIN_AUTH in
      case greeting of None \<Rightarrow> (MYSQL_WIRE_STATUS_INVALID, None)
      | Some g \<Rightarrow>
        if gr_capabilities g AND required \<noteq> required then (MYSQL_WIRE_STATUS_INVALID, Some 0)
        else if use_tls \<and> gr_capabilities g AND MYSQL_WIRE_CLIENT_SSL = 0 then (MYSQL_WIRE_STATUS_INVALID, Some 0)
        else if use_database \<and> gr_capabilities g AND MYSQL_WIRE_CLIENT_CONNECT_WITH_DB = 0 then (MYSQL_WIRE_STATUS_INVALID, Some 0)
        else
          let selected = required OR (gr_capabilities g AND (MYSQL_WIRE_CLIENT_LONG_PASSWORD OR MYSQL_WIRE_CLIENT_LONG_FLAG));
              selected = (if use_tls then selected OR MYSQL_WIRE_CLIENT_SSL else selected);
              selected = (if use_database then selected OR MYSQL_WIRE_CLIENT_CONNECT_WITH_DB else selected);
              selected = selected OR (gr_capabilities g AND
                (MYSQL_WIRE_CLIENT_TRANSACTIONS OR MYSQL_WIRE_CLIENT_MULTI_RESULTS OR MYSQL_WIRE_CLIENT_DEPRECATE_EOF))
          in (MYSQL_WIRE_STATUS_OK, Some selected))"

definition mysql_wire_build_ssl_request :: "u32 \<Rightarrow> u32 \<Rightarrow> u8 \<Rightarrow> ptr \<Rightarrow> nat \<Rightarrow> built" where
  "mysql_wire_build_ssl_request capabilities max_packet_size character_set out out_capacity =
     (if out = None \<or> capabilities AND MYSQL_WIRE_CLIENT_SSL = 0 then (MYSQL_WIRE_STATUS_INVALID, out, None)
      else
        case write_then (mysql_wire_write_u32_le out out_capacity 0 capabilities) (\<lambda>out offset.
             write_then (mysql_wire_write_u32_le out out_capacity offset max_packet_size) (\<lambda>out offset.
             write_then (write_byte out out_capacity offset character_set) (\<lambda>out offset.
             mysql_wire_write_bytes out out_capacity offset (Some (replicate 23 0)) 23))) of
          (status, out, offset) \<Rightarrow>
            if status \<noteq> MYSQL_WIRE_STATUS_OK then (status, out, Some 0)
            else (if offset = 32 then MYSQL_WIRE_STATUS_OK else MYSQL_WIRE_STATUS_INVALID, out, Some offset))"

definition mysql_wire_build_handshake_response ::
    "u32 \<Rightarrow> u32 \<Rightarrow> u8 \<Rightarrow> ptr \<Rightarrow> ptr \<Rightarrow> nat \<Rightarrow> ptr \<Rightarrow> ptr \<Rightarrow> ptr \<Rightarrow> nat \<Rightarrow> built" where
  "mysql_wire_build_handshake_response capabilities max_packet_size character_set username auth_response auth_response_size
       database auth_plugin out out_capacity =
     (if username = None \<or> auth_plugin = None \<or> out = None \<or> (auth_response = None \<and> auth_response_size \<noteq> 0) \<or>
         auth_response_size > 255 \<or> capabilities AND MYSQL_WIRE_CLIENT_PROTOCOL_41 = 0 \<or>
         capabilities AND MYSQL_WIRE_CLIENT_SECURE_CONNECTION = 0 \<or> capabilities AND MYSQL_WIRE_CLIENT_PLUGIN_AUTH = 0
      then (MYSQL_WIRE_STATUS_INVALID, out, None)
      else if capabilities AND MYSQL_WIRE_CLIENT_CONNECT_WITH_DB \<noteq> 0 \<and> database = None then (MYSQL_WIRE_STATUS_INVALID, out, None)
      else finish
        (write_then (mysql_wire_write_u32_le out out_capacity 0 capabilities) (\<lambda>out offset.
         write_then (mysql_wire_write_u32_le out out_capacity offset max_packet_size) (\<lambda>out offset.
         write_then (write_byte out out_capacity offset character_set) (\<lambda>out offset.
         write_then (mysql_wire_write_bytes out out_capacity offset (Some (replicate 23 0)) 23) (\<lambda>out offset.
         write_then (mysql_wire_write_cstring out out_capacity offset username) (\<lambda>out offset.
         write_then (write_byte out out_capacity offset (of_nat auth_response_size)) (\<lambda>out offset.
         write_then (mysql_wire_write_bytes out out_capacity offset auth_response auth_response_size) (\<lambda>out offset.
         write_then (if capabilities AND MYSQL_WIRE_CLIENT_CONNECT_WITH_DB \<noteq> 0
                     then mysql_wire_write_cstring out out_capacity offset database
                     else (MYSQL_WIRE_STATUS_OK, out, offset)) (\<lambda>out offset.
         mysql_wire_write_cstring out out_capacity offset auth_plugin))))))))))"

definition mysql_wire_parse_auth_switch :: "ptr \<Rightarrow> mysql_wire_status + mysql_wire_auth_switch" where
  "mysql_wire_parse_auth_switch payload =
     (case payload of None \<Rightarrow> Inl MYSQL_WIRE_STATUS_INVALID
      | Some d \<Rightarrow>
        if length d < 2 \<or> d ! 0 \<noteq> 0xfe then Inl MYSQL_WIRE_STATUS_INVALID
        else
          and_then (mysql_wire_read_cstring payload 1 (replicate 64 0) MYSQL_WIRE_AUTH_PLUGIN_NAME_CAPACITY) (\<lambda>(plugin, offset).
          let remaining = length d - offset;
              remaining = (if remaining \<noteq> 0 \<and> d ! (length d - 1) = 0 then remaining - 1 else remaining) in
          if remaining > MYSQL_WIRE_AUTH_DATA_CAPACITY then Inl MYSQL_WIRE_STATUS_LIMIT
          else Inr \<lparr>sw_plugin = plugin, sw_data = memcpy (replicate 32 0) 0 (take remaining (drop offset d)),
                    sw_data_length = remaining\<rparr>))"


section \<open>Strings\<close>

text \<open>A string in a zeroed array of \<open>cap\<close> bytes.\<close>

definition char_array :: "nat \<Rightarrow> bytes \<Rightarrow> bytes" where
  "char_array cap s = s @ replicate (cap - length s) 0"

definition text_ok :: "bytes \<Rightarrow> bool" where
  "text_ok s \<longleftrightarrow> 0 \<notin> set s"

lemma length_char_array [simp]: "length s \<le> cap \<Longrightarrow> length (char_array cap s) = cap"
  by (simp add: char_array_def)

lemma takeWhile_text: "text_ok s \<Longrightarrow> takeWhile (\<lambda>c. c \<noteq> 0) (s @ 0 # post) = s"
  unfolding text_ok_def by (subst takeWhile_append2) auto

lemma c_string_text [simp]: "text_ok s \<Longrightarrow> c_string (s @ 0 # post) = s"
  by (simp add: c_string_def takeWhile_text)

lemma char_array_term: "length s < cap \<Longrightarrow> char_array cap s = s @ 0 # replicate (cap - length s - 1) 0"
  by (cases "cap - length s") (simp_all add: char_array_def)

lemma seg_text:
  assumes "text_ok s" and "seg d off (s @ [0]) off'"
  shows "takeWhile (\<lambda>c. c \<noteq> 0) (drop off d) = s" "off + length s < length d" "off' = off + length s + 1"
    "take (length s) (drop off d) = s"
proof -
  obtain pre post where "d = pre @ (s @ [0]) @ post" "off = length pre" "off' = length pre + length (s @ [0])"
    using assms(2) by (auto simp: seg_def)
  then show "takeWhile (\<lambda>c. c \<noteq> 0) (drop off d) = s" "off + length s < length d" "off' = off + length s + 1"
    "take (length s) (drop off d) = s"
    using takeWhile_text [OF assms(1), of post] by simp_all
qed

lemma read_cstring_seg:
  assumes "text_ok s" and "length s < cap" and "seg d off (s @ [0]) off'"
  shows "mysql_wire_read_cstring (Some d) off (replicate cap 0) cap = Inr (char_array cap s, off')"
  using seg_text [OF assms(1,3)] assms(2)
  by (simp add: mysql_wire_read_cstring_def Let_def memcpy_def char_array_def list_update_append list_update_same_conv)

lemma write_byte_appends: "appends cap (\<lambda>out off. write_byte out cap off v) [v]"
  by (auto simp: appends_def write_byte_def list_update_is_memcpy)

lemma write_bytes_appends:
  "span_ok data sz \<Longrightarrow> appends cap (\<lambda>out off. mysql_wire_write_bytes out cap off data sz) (span data sz)"
  by (auto simp: appends_def mysql_wire_write_bytes_def span_def span_ok_def split: option.splits)

lemma write_cstring_appends:
  assumes "text_ok s" and "length s \<le> SIZE_MAX"
  shows "appends cap (\<lambda>out off. mysql_wire_write_cstring out cap off (Some (s @ [0]))) (s @ [0])"
proof -
  have "span_ok (Some (s @ [0])) (length s)" "span (Some (s @ [0])) (length s) = s"
    using assms by (simp_all add: span_ok_def span_def)
  from appends_then [OF write_bytes_appends [OF this(1)] write_byte_appends, of cap 0] this(2) assms(1)
  show ?thesis by (simp add: mysql_wire_write_cstring_def)
qed

interpretation hsb: wire_sink write_byte "\<lambda>b. [b]"
  by unfold_locales (rule write_byte_appends)


section \<open>The messages of the client\<close>

definition login_header :: "u32 \<Rightarrow> u32 \<Rightarrow> u8 \<Rightarrow> bytes" where
  "login_header capabilities max_packet_size character_set =
     u32_bytes capabilities @ u32_bytes max_packet_size @ [character_set] @ replicate 23 0"

lemma length_login_header [simp]: "length (login_header c m s) = 32"
  by (simp add: login_header_def)

lemma filler_appends: "appends cap (\<lambda>out off. mysql_wire_write_bytes out cap off (Some (replicate 23 0)) 23) (replicate 23 0)"
  using write_bytes_appends [of "Some (replicate 23 0)" 23 cap] by (simp add: span_ok_def span_def SIZE_MAX_def)

lemma header_appends:
  assumes "appends cap f xs"
  shows "appends cap (\<lambda>out off. write_then (mysql_wire_write_u32_le out cap off capabilities) (\<lambda>out off.
     write_then (mysql_wire_write_u32_le out cap off max_packet_size) (\<lambda>out off.
     write_then (write_byte out cap off character_set) (\<lambda>out off.
     write_then (mysql_wire_write_bytes out cap off (Some (replicate 23 0)) 23) f))))
   (login_header capabilities max_packet_size character_set @ xs)"
  using appends_then [OF u32w.put_appends appends_then [OF u32w.put_appends appends_then [OF write_byte_appends
      appends_then [OF filler_appends assms]]], of capabilities max_packet_size character_set]
  by (simp add: login_header_def)

lemma build_ssl_builds:
  assumes "cap \<le> length d" and "capabilities AND MYSQL_WIRE_CLIENT_SSL \<noteq> 0"
  shows "builds cap (length d) (login_header capabilities max_packet_size character_set)
     (mysql_wire_build_ssl_request capabilities max_packet_size character_set (Some d) cap)"
proof -
  let ?r = "write_then (mysql_wire_write_u32_le (Some d) cap 0 capabilities) (\<lambda>out off.
     write_then (mysql_wire_write_u32_le out cap off max_packet_size) (\<lambda>out off.
     write_then (write_byte out cap off character_set) (\<lambda>out off.
     mysql_wire_write_bytes out cap off (Some (replicate 23 0)) 23)))"
  have "wrote cap (length d) (login_header capabilities max_packet_size character_set) ?r"
    using wrote_start [OF appends_then [OF u32w.put_appends appends_then [OF u32w.put_appends
        appends_then [OF write_byte_appends filler_appends]]] assms(1), of capabilities max_packet_size character_set]
    by (simp add: login_header_def)
  then show ?thesis
    using assms(2) unfolding mysql_wire_build_ssl_request_def
    by (auto simp: wrote_def builds_def split: if_splits)
qed

definition login_payload :: "u32 \<Rightarrow> u32 \<Rightarrow> u8 \<Rightarrow> bytes \<Rightarrow> bytes \<Rightarrow> bytes \<Rightarrow> bytes \<Rightarrow> bytes" where
  "login_payload capabilities max_packet_size character_set username auth database plugin =
     login_header capabilities max_packet_size character_set @ username @ [0] @ [of_nat (length auth)] @ auth @
     (if capabilities AND MYSQL_WIRE_CLIENT_CONNECT_WITH_DB \<noteq> 0 then database @ [0] else []) @ plugin @ [0]"

lemma nothing_appends: "appends cap (\<lambda>out off. (MYSQL_WIRE_STATUS_OK, out, off)) []"
  by (simp add: appends_def)

lemma build_login_builds:
  assumes "cap \<le> length d"
    and "text_ok username" "text_ok plugin" "text_ok database"
    and "length username \<le> SIZE_MAX" "length plugin \<le> SIZE_MAX" "length database \<le> SIZE_MAX" "length auth \<le> 255"
    and "capabilities AND MYSQL_WIRE_CLIENT_PROTOCOL_41 \<noteq> 0" "capabilities AND MYSQL_WIRE_CLIENT_SECURE_CONNECTION \<noteq> 0"
      "capabilities AND MYSQL_WIRE_CLIENT_PLUGIN_AUTH \<noteq> 0"
  shows "builds cap (length d) (login_payload capabilities max_packet_size character_set username auth database plugin)
     (mysql_wire_build_handshake_response capabilities max_packet_size character_set (Some (username @ [0])) (Some auth)
        (length auth) (Some (database @ [0])) (Some (plugin @ [0])) (Some d) cap)"
proof -
  have auth: "span_ok (Some auth) (length auth)" "span (Some auth) (length auth) = auth"
    using assms(8) by (simp_all add: span_ok_def span_def SIZE_MAX_def)
  have db: "appends cap (\<lambda>out off. if capabilities AND MYSQL_WIRE_CLIENT_CONNECT_WITH_DB \<noteq> 0
        then mysql_wire_write_cstring out cap off (Some (database @ [0])) else (MYSQL_WIRE_STATUS_OK, out, off))
      (if capabilities AND MYSQL_WIRE_CLIENT_CONNECT_WITH_DB \<noteq> 0 then database @ [0] else [])"
    using write_cstring_appends [OF assms(4,7)] nothing_appends by simp
  note tail = appends_then [OF write_cstring_appends [OF assms(2,5)] appends_then [OF write_byte_appends
      appends_then [OF write_bytes_appends [OF auth(1)] appends_then [OF db write_cstring_appends [OF assms(3,6)]]]]]
  show ?thesis
    using wrote_finish [OF wrote_start [OF header_appends [OF tail] assms(1)],
        of capabilities max_packet_size character_set "of_nat (length auth)"] assms(8-11) auth(2)
    by (simp add: mysql_wire_build_handshake_response_def login_payload_def)
qed


section \<open>The greeting\<close>

definition greeting_payload :: "bytes \<Rightarrow> u32 \<Rightarrow> bytes \<Rightarrow> u32 \<Rightarrow> u8 \<Rightarrow> u16 \<Rightarrow> bytes \<Rightarrow> bytes" where
  "greeting_payload version connection_id nonce capabilities character_set flags plugin =
     [10] @ (version @ [0]) @ u32_bytes connection_id @ take 8 nonce @ [0] @ u16_bytes (ucast capabilities) @ [character_set] @
     u16_bytes flags @ u16_bytes (ucast (drop_bit 16 capabilities)) @ [21] @ replicate 10 0 @ drop 8 nonce @ [0] @ (plugin @ [0])"

lemma capability_halves:
  "ucast (ucast capabilities :: u16) OR push_bit 16 (ucast (ucast (drop_bit 16 capabilities) :: u16)) = (capabilities :: u32)"
  by (rule bit_word_eqI) (auto simp: bit_simps)

lemma decode_greeting_payload:
  assumes "text_ok version" "length version < 128" and "text_ok plugin" "length plugin < 64" and "length nonce = 20"
    and caps: "capabilities AND MYSQL_WIRE_CLIENT_SECURE_CONNECTION \<noteq> 0" "capabilities AND MYSQL_WIRE_CLIENT_PLUGIN_AUTH \<noteq> 0"
  shows "mysql_wire_parse_greeting (Some (greeting_payload version connection_id nonce capabilities character_set flags plugin)) =
     Inr \<lparr>gr_protocol_version = 10, gr_server_version = char_array 128 version, gr_connection_id = connection_id,
          gr_capabilities = capabilities, gr_character_set = character_set, gr_status_flags = flags,
          gr_auth_plugin_data = char_array 32 nonce, gr_auth_plugin_data_length = 20, gr_auth_plugin = char_array 64 plugin\<rparr>"
proof -
  let ?d = "greeting_payload version connection_id nonce capabilities character_set flags plugin"
  have "seg ?d 0 ?d (length ?d)" by (rule seg_whole)
  then obtain o1 o2 o3 o4 o5 o6 o7 o8 o9 o10 o11 o12 o13 where
    s: "seg ?d 0 [10] o1" "seg ?d o1 (version @ [0]) o2" "seg ?d o2 (u32_bytes connection_id) o3" "seg ?d o3 (take 8 nonce) o4"
      "seg ?d o4 [0] o5" "seg ?d o5 (u16_bytes (ucast capabilities)) o6" "seg ?d o6 [character_set] o7" "seg ?d o7 (u16_bytes flags) o8"
      "seg ?d o8 (u16_bytes (ucast (drop_bit 16 capabilities))) o9" "seg ?d o9 [21] o10" "seg ?d o10 (replicate 10 0) o11"
      "seg ?d o11 (drop 8 nonce) o12" "seg ?d o12 [0] o13" "seg ?d o13 (plugin @ [0]) (length ?d)"
    unfolding greeting_payload_def seg_append by metis
  have at: "?d ! 0 = 10" "?d ! o4 = 0" "?d ! o6 = character_set" "?d ! o9 = 21" "?d ! o12 = 0"
    using s(1,5,7,10,13) by (simp_all add: seg_Cons)
  have offs: "o1 = 1" "o4 = o3 + 8" "o5 = o4 + 1" "o7 = o6 + 1" "o10 = o9 + 1" "o11 = o10 + 10" "o12 = o11 + 12" "o13 = o12 + 1"
      "length ?d = o13 + length plugin + 1" "o8 = o7 + 2" "o9 = o8 + 2" "o6 = o5 + 2"
    using s [THEN seg_end] assms(5) by simp_all
  have data: "take 8 (drop o3 ?d) = take 8 nonce" "take 12 (drop o11 ?d) = drop 8 nonce"
    using seg_take_drop [OF s(4)] seg_take_drop [OF s(12)] assms(5) by simp_all
  have r: "mysql_wire_read_cstring (Some ?d) 1 (replicate 128 0) 128 = Inr (char_array 128 version, o2)"
    "mysql_wire_read_u32_le (Some ?d) o2 = Inr (connection_id, o3)"
    "mysql_wire_read_u16_le (Some ?d) (o4 + 1) = Inr (ucast capabilities, o6)"
    "mysql_wire_read_u16_le (Some ?d) (o6 + 1) = Inr (flags, o8)"
    "mysql_wire_read_u16_le (Some ?d) o8 = Inr (ucast (drop_bit 16 capabilities), o9)"
    "mysql_wire_read_cstring (Some ?d) o13 (replicate 64 0) 64 = Inr (char_array 64 plugin, length ?d)"
    using read_cstring_seg [OF assms(1,2) s(2)] read_cstring_seg [OF assms(3,4) s(14)] s(3,6,8,9) offs(1,3,4)
    by (simp_all add: u32c.dec_seg u16c.dec_seg)
  have nonce: "memcpy (memcpy (replicate 32 0) 0 (take 8 nonce)) 8 (drop 8 nonce) = char_array 32 nonce"
    using memcpy_memcpy [of 0 "take 8 nonce" "replicate 32 0" "drop 8 nonce"] assms(5)
    by (simp add: memcpy_def char_array_def)
  show ?thesis
    using at r offs caps data nonce assms(5) unfolding mysql_wire_parse_greeting_def
    by (simp add: greeting_zero_def Let_def capability_halves greeting_part2_def greeting_plugin_def)
qed


section \<open>Properties\<close>

lemma and_flag: "(x :: 'a::len word) AND 2 ^ n = (if bit x n then 2 ^ n else 0)"
  by (rule bit_word_eqI) (auto simp: bit_simps)

definition greeting_well_formed :: "mysql_wire_greeting \<Rightarrow> bool" where
  "greeting_well_formed g \<longleftrightarrow>
     gr_protocol_version g = 10 \<and>
     length (gr_server_version g) = MYSQL_WIRE_SERVER_VERSION_CAPACITY \<and> 0 \<in> set (gr_server_version g) \<and>
     length (gr_auth_plugin g) = MYSQL_WIRE_AUTH_PLUGIN_NAME_CAPACITY \<and> 0 \<in> set (gr_auth_plugin g) \<and>
     length (gr_auth_plugin_data g) = MYSQL_WIRE_AUTH_DATA_CAPACITY \<and> gr_auth_plugin_data_length g \<le> 20"

lemma read_cstring_array:
  assumes "mysql_wire_read_cstring (Some d) off out cap = Inr (s, off')" and "length out = cap"
  shows "length s = cap \<and> 0 \<in> set s \<and> off' \<le> length d"
proof -
  define len where "len = length (takeWhile (\<lambda>c. c \<noteq> 0) (drop off d))"
  have "len \<le> length (drop off d)" unfolding len_def by (rule length_takeWhile_le)
  moreover have "off < length d" "off + len \<noteq> length d" "len + 1 \<le> cap"
    "s = (memcpy out 0 (take len (drop off d)))[len := 0]" "off' = off + len + 1"
    using assms(1) by (auto simp: mysql_wire_read_cstring_def Let_def len_def split: if_splits)
  ultimately show ?thesis using assms(2) by (auto intro: set_update_memI)
qed

text \<open>The arrays on the way.\<close>

definition greeting_arrays :: "mysql_wire_greeting \<Rightarrow> bool" where
  "greeting_arrays g \<longleftrightarrow>
     gr_protocol_version g = 10 \<and> length (gr_server_version g) = 128 \<and> 0 \<in> set (gr_server_version g) \<and>
     length (gr_auth_plugin g) = 64 \<and> 0 \<in> set (gr_auth_plugin g) \<and> length (gr_auth_plugin_data g) = 32"

lemma part2_arrays:
  assumes "greeting_arrays out" and "gr_auth_plugin_data_length out = 8"
  shows "ensures (\<lambda>(out', _). greeting_arrays out') (greeting_part2 d offset n out)"
proof -
  have "\<exists>k off. greeting_part2 d offset n out =
     (if gr_capabilities out AND MYSQL_WIRE_CLIENT_SECURE_CONNECTION \<noteq> 0 \<and> offset < length d
      then if k > 32 - gr_auth_plugin_data_length out then Inl MYSQL_WIRE_STATUS_LIMIT
           else Inr (out\<lparr>gr_auth_plugin_data := memcpy (gr_auth_plugin_data out) (gr_auth_plugin_data_length out) (take k (drop offset d)),
                         gr_auth_plugin_data_length := gr_auth_plugin_data_length out + k\<rparr>, off)
      else Inr (out, offset))"
    unfolding greeting_part2_def Let_def by (rule exI, rule exI, rule refl)
  then obtain k off where e: "greeting_part2 d offset n out =
     (if gr_capabilities out AND MYSQL_WIRE_CLIENT_SECURE_CONNECTION \<noteq> 0 \<and> offset < length d
      then if k > 32 - gr_auth_plugin_data_length out then Inl MYSQL_WIRE_STATUS_LIMIT
           else Inr (out\<lparr>gr_auth_plugin_data := memcpy (gr_auth_plugin_data out) (gr_auth_plugin_data_length out) (take k (drop offset d)),
                         gr_auth_plugin_data_length := gr_auth_plugin_data_length out + k\<rparr>, off)
      else Inr (out, offset))" by blast
  have "length (memcpy (gr_auth_plugin_data out) 8 (take k (drop offset d))) = 32" if "k \<le> 24"
    using that assms(1) by (simp add: greeting_arrays_def)
  then show ?thesis unfolding e using assms by (simp add: greeting_arrays_def)
qed

lemma plugin_arrays:
  assumes "greeting_arrays out"
  shows "ensures (\<lambda>(out', _). greeting_arrays out') (greeting_plugin d offset out)"
  unfolding greeting_plugin_def using assms
  by (auto simp: greeting_arrays_def and_then_def intro!: ensures_if split: sum.splits dest!: read_cstring_array)

text \<open>
  C22. A parsed greeting is well formed whatever the server sent: every array keeps its capacity, both
  strings are terminated inside their arrays, and the length of the authentication data stays within
  the 20 bytes the authentication methods expect.
\<close>

theorem parse_greeting_well_formed: "ensures greeting_well_formed (mysql_wire_parse_greeting payload)"
proof (cases payload)
  case None
  then show ?thesis by (simp add: mysql_wire_parse_greeting_def)
next
  case (Some d)
  have z: "greeting_arrays (greeting_zero\<lparr>gr_protocol_version := 10, gr_server_version := v, gr_connection_id := c,
      gr_auth_plugin_data := memcpy (gr_auth_plugin_data greeting_zero) 0 (take 8 x), gr_auth_plugin_data_length := 8,
      gr_character_set := cs, gr_status_flags := f, gr_capabilities := p\<rparr>)"
    if "length v = 128" "0 \<in> set v" for v c x cs f p
    using that by (simp add: greeting_arrays_def greeting_zero_def)
  have v: "ensures (\<lambda>(s, _). length s = 128 \<and> 0 \<in> set s)
      (mysql_wire_read_cstring (Some d) 1 (gr_server_version greeting_zero) 128)"
    by (auto simp: ensures_def greeting_zero_def split: sum.splits dest: read_cstring_array)
  have fin: "ensures greeting_well_formed
      (and_then (greeting_part2 d off n out) (\<lambda>(out, offset). and_then (greeting_plugin d offset out) (\<lambda>(out, offset).
         Inr (if gr_auth_plugin_data_length out > 20 then out\<lparr>gr_auth_plugin_data_length := 20\<rparr> else out))))"
    if "greeting_arrays out" "gr_auth_plugin_data_length out = 8" for off n out
    by (rule ensures_and_then [OF part2_arrays [OF that]], clarify, rule ensures_and_then [OF plugin_arrays], assumption)
       (auto simp: greeting_arrays_def greeting_well_formed_def)
  have body: "ensures greeting_well_formed (f a)" if "length (fst a) = 128 \<and> 0 \<in> set (fst a)"
      "f = (\<lambda>(server_version, offset).
          and_then (mysql_wire_read_u32_le (Some d) offset) (\<lambda>(connection_id, offset). F server_version connection_id offset))"
      "\<And>v c offset. length v = 128 \<Longrightarrow> 0 \<in> set v \<Longrightarrow> ensures greeting_well_formed (F v c offset)" for f F and a :: "bytes \<times> nat"
    using that by (cases a) (auto intro!: ensures_any)
  show ?thesis
    unfolding Some mysql_wire_parse_greeting_def option.case Let_def
    apply (rule ensures_if, rule ensures_simps(1), rule ensures_if, rule ensures_simps(1), rule ensures_and_then [OF v])
    apply (rule body [OF _ refl], fastforce)
    apply (rule ensures_if, rule ensures_simps(1), rule ensures_if, rule ensures_simps(1), rule ensures_any, rule ensures_if)
     apply (simp add: greeting_well_formed_def greeting_zero_def)
    apply (rule ensures_if, rule ensures_simps(1), rule ensures_any, rule ensures_any, rule fin)
     apply (use z in simp_all)
    done
qed

lemma select_capabilities_spec:
  fixes needed :: u32 and use_tls use_database :: bool
  defines "needed \<equiv> MYSQL_WIRE_CLIENT_PROTOCOL_41 OR MYSQL_WIRE_CLIENT_SECURE_CONNECTION OR MYSQL_WIRE_CLIENT_PLUGIN_AUTH OR
     (if use_tls then MYSQL_WIRE_CLIENT_SSL else 0) OR (if use_database then MYSQL_WIRE_CLIENT_CONNECT_WITH_DB else 0)"
  shows "(case mysql_wire_select_client_capabilities (Some g) use_tls use_database of
      (status, selected) \<Rightarrow>
        if gr_capabilities g AND needed = needed
        then status = MYSQL_WIRE_STATUS_OK \<and>
             (\<exists>s. selected = Some s \<and> s AND gr_capabilities g = s \<and> s AND needed = needed)
        else status = MYSQL_WIRE_STATUS_INVALID \<and> selected = Some 0)"
proof -
  define r where "r = MYSQL_WIRE_CLIENT_PROTOCOL_41 OR MYSQL_WIRE_CLIENT_SECURE_CONNECTION OR MYSQL_WIRE_CLIENT_PLUGIN_AUTH"
  define t where "t = MYSQL_WIRE_CLIENT_SSL"
  define b where "b = MYSQL_WIRE_CLIENT_CONNECT_WITH_DB"
  define c where "c = gr_capabilities g"
  have flag: "c AND t = 0 \<longleftrightarrow> c AND t \<noteq> t" "c AND b = 0 \<longleftrightarrow> c AND b \<noteq> b"
    using and_flag [of c 11] and_flag [of c 3] by (auto simp: t_def b_def split: if_splits)
  have needed: "needed = r OR (if use_tls then t else 0) OR (if use_database then b else 0)"
    unfolding needed_def r_def t_def b_def by (simp only: or.assoc)
  have sub: "(x AND (y OR z) = y OR z) \<longleftrightarrow> x AND y = y \<and> x AND z = z" for x y z :: u32
    by (auto simp: bit_eq_iff bit_simps)
  have part: "y AND x = y" if "x AND y = y" for x y :: u32 using that by (simp add: and.commute)
  have union: "(y OR z) AND x = y OR z" if "y AND x = y" "z AND x = z" for x y z :: u32
    using that by (metis bit.conj_disj_distrib2)
  have grow: "(y OR w) AND z = z" if "y AND z = z \<or> w AND z = z" for y w z :: u32
    using that by (auto simp: bit_eq_iff bit_simps)
  have inter: "(x AND y) AND x = x AND y" for x y :: u32 by (simp add: and.commute and.left_commute)
  show ?thesis
    unfolding mysql_wire_select_client_capabilities_def Let_def option.case r_def [symmetric] t_def [symmetric] b_def [symmetric]
      c_def [symmetric] needed
    by (cases use_tls; cases use_database) (auto simp: sub flag inter intro!: union grow dest: part)
qed

text \<open>
  C23. The client only asks for what the server offers: a selection of capabilities succeeds exactly when
  the server offers what the client needs (and TLS and a database when they are wanted), and then every
  selected capability is one of the server's, the needed ones included.
\<close>

theorem selected_capabilities_offered:
  fixes needed :: u32 and use_tls use_database :: bool
  defines "needed \<equiv> MYSQL_WIRE_CLIENT_PROTOCOL_41 OR MYSQL_WIRE_CLIENT_SECURE_CONNECTION OR MYSQL_WIRE_CLIENT_PLUGIN_AUTH OR
     (if use_tls then MYSQL_WIRE_CLIENT_SSL else 0) OR (if use_database then MYSQL_WIRE_CLIENT_CONNECT_WITH_DB else 0)"
  shows "(case mysql_wire_select_client_capabilities (Some g) use_tls use_database of
      (status, selected) \<Rightarrow>
        if gr_capabilities g AND needed = needed
        then status = MYSQL_WIRE_STATUS_OK \<and>
             (\<exists>s. selected = Some s \<and> s AND gr_capabilities g = s \<and> s AND needed = needed)
        else status = MYSQL_WIRE_STATUS_INVALID \<and> selected = Some 0)"
  unfolding needed_def by (rule select_capabilities_spec)

end
