(* ===== verification/Server_Handshake.thy ===== *)
theory Server_Handshake
  imports Server_Response Wire_Handshake
begin

unbundle bit_operations_syntax

text \<open>
  The server's half of the connection handshake, \<open>src/tidessql/server/mysql/handshake.c\<close>: the greeting,
  the decoders of the TLS request and of the login, and the negotiation that admits a login only over
  TLS.

  The negotiation is a state machine driven by three operations; \<open>negotiates\<close> is its step relation over
  events, with the results the operations return, and \<open>handshake_trace\<close> its runs.
\<close>

section \<open>Data\<close>

abbreviation (input) "TDSQL_MYSQL_SSL_BYTES \<equiv> 32 :: nat"
abbreviation (input) "TDSQL_MYSQL_NONCE_BYTES \<equiv> 20 :: nat"
abbreviation (input) "TDSQL_MYSQL_AUTH_BYTES \<equiv> 32 :: nat"
abbreviation (input) "TDSQL_MYSQL_USERNAME_BYTES \<equiv> 128 :: nat"
abbreviation (input) "TDSQL_MYSQL_DATABASE_BYTES \<equiv> 128 :: nat"
abbreviation (input) "TDSQL_MYSQL_UTF8MB4_GENERAL_CI \<equiv> 45 :: u8"
abbreviation (input) "TDSQL_MYSQL_BINARY_CHARSET \<equiv> 63 :: u8"
abbreviation (input) "TDSQL_MYSQL_UTF8MB4_0900_AI_CI \<equiv> 255 :: u8"
abbreviation (input) "TDSQL_MYSQL_WAIT_SSL \<equiv> 1 :: int"
abbreviation (input) "TDSQL_MYSQL_WAIT_TLS \<equiv> 2 :: int"
abbreviation (input) "TDSQL_MYSQL_WAIT_LOGIN \<equiv> 3 :: int"
abbreviation (input) "TDSQL_MYSQL_WAIT_CREDENTIALS \<equiv> 4 :: int"
abbreviation (input) "TDSQL_MYSQL_HANDSHAKE_FAILED \<equiv> 5 :: int"

text \<open>\<open>"caching_sha2_password"\<close>\<close>

definition TDSQL_MYSQL_AUTH_PLUGIN :: bytes where
  "TDSQL_MYSQL_AUTH_PLUGIN =
     [0x63, 0x61, 0x63, 0x68, 0x69, 0x6e, 0x67, 0x5f, 0x73, 0x68, 0x61, 0x32, 0x5f, 0x70, 0x61, 0x73, 0x73, 0x77, 0x6f, 0x72, 0x64]"

record tdsql_mysql_login_header =
  lh_capabilities :: u32
  lh_max_packet_size :: u32
  lh_character_set :: u8

record tdsql_mysql_login =
  lg_header :: tdsql_mysql_login_header
  lg_username :: mysql_wire_bytes
  lg_database :: mysql_wire_bytes
  lg_auth_response :: mysql_wire_bytes
  lg_plugin :: mysql_wire_bytes

record tdsql_mysql_negotiation =
  ng_header :: tdsql_mysql_login_header
  ng_advertised :: u32
  ng_phase :: int


section \<open>Operations\<close>

definition handshake_required :: u32 where
  "handshake_required =
     MYSQL_WIRE_CLIENT_PROTOCOL_41 OR MYSQL_WIRE_CLIENT_SSL OR MYSQL_WIRE_CLIENT_SECURE_CONNECTION OR MYSQL_WIRE_CLIENT_PLUGIN_AUTH"

definition handshake_character_set :: "u8 \<Rightarrow> bool" where
  "handshake_character_set character_set \<longleftrightarrow>
     character_set = TDSQL_MYSQL_BINARY_CHARSET \<or> character_set = TDSQL_MYSQL_UTF8MB4_GENERAL_CI \<or>
     character_set = TDSQL_MYSQL_UTF8MB4_0900_AI_CI"

definition tdsql_mysql_server_capabilities :: "bool \<Rightarrow> u32" where
  "tdsql_mysql_server_capabilities database =
     handshake_required OR MYSQL_WIRE_CLIENT_LONG_PASSWORD OR MYSQL_WIRE_CLIENT_LONG_FLAG OR MYSQL_WIRE_CLIENT_TRANSACTIONS OR
     MYSQL_WIRE_CLIENT_DEPRECATE_EOF OR (if database then MYSQL_WIRE_CLIENT_CONNECT_WITH_DB else 0)"

definition handshake_flags :: "u32 \<Rightarrow> u32 \<Rightarrow> tdsql_mysql_status" where
  "handshake_flags advertised client =
     (let required = handshake_required in
      if advertised AND required \<noteq> required then TDSQL_MYSQL_INVALID
      else if advertised AND NOT (tdsql_mysql_server_capabilities True) \<noteq> 0 then TDSQL_MYSQL_UNSUPPORTED
      else if client AND required \<noteq> required then TDSQL_MYSQL_UNSUPPORTED
      else if client AND NOT advertised \<noteq> 0 then TDSQL_MYSQL_UNSUPPORTED else TDSQL_MYSQL_OK)"

definition handshake_string :: "bytes \<Rightarrow> tdsql_mysql_status + nat" where
  "handshake_string array =
     (if 0 \<notin> set array then Inl TDSQL_MYSQL_LIMIT else Inr (length (takeWhile (\<lambda>c. c \<noteq> 0) array)))"

text \<open>Stores without a check of their own: \<open>memcpy\<close>, \<open>memset\<close> and \<open>data[offset++]\<close>.\<close>

definition store_bytes :: "ptr \<Rightarrow> nat \<Rightarrow> bytes \<Rightarrow> wire_write" where
  "store_bytes data offset xs = (MYSQL_WIRE_STATUS_OK, map_option (\<lambda>d. memcpy d offset xs) data, offset + length xs)"

text \<open>The greeting in the local array \<open>encoded\<close> of 237 bytes.\<close>

definition greeting_write :: "mysql_wire_greeting \<Rightarrow> nat \<Rightarrow> nat \<Rightarrow> wire_write" where
  "greeting_write g version plugin =
     (let sz = 45 + MYSQL_WIRE_SERVER_VERSION_CAPACITY + MYSQL_WIRE_AUTH_PLUGIN_NAME_CAPACITY in
      write_then (store_bytes (Some (replicate sz 0)) 0 [10]) (\<lambda>data offset.
      write_then (store_bytes data offset (take (version + 1) (gr_server_version g))) (\<lambda>data offset.
      write_then (mysql_wire_write_u32_le data sz offset (gr_connection_id g)) (\<lambda>data offset.
      write_then (store_bytes data offset (take 8 (gr_auth_plugin_data g))) (\<lambda>data offset.
      write_then (store_bytes data offset [0]) (\<lambda>data offset.
      write_then (mysql_wire_write_u16_le data sz offset (ucast (gr_capabilities g))) (\<lambda>data offset.
      write_then (store_bytes data offset [gr_character_set g]) (\<lambda>data offset.
      write_then (mysql_wire_write_u16_le data sz offset (gr_status_flags g)) (\<lambda>data offset.
      write_then (mysql_wire_write_u16_le data sz offset (ucast (drop_bit 16 (gr_capabilities g)))) (\<lambda>data offset.
      write_then (store_bytes data offset [of_nat (TDSQL_MYSQL_NONCE_BYTES + 1)]) (\<lambda>data offset.
      write_then (store_bytes data offset (replicate 10 0)) (\<lambda>data offset.
      write_then (store_bytes data offset (take (TDSQL_MYSQL_NONCE_BYTES - 8) (drop 8 (gr_auth_plugin_data g)))) (\<lambda>data offset.
      write_then (store_bytes data offset [0]) (\<lambda>data offset.
      store_bytes data offset (take (plugin + 1) (gr_auth_plugin g))))))))))))))))"

definition tdsql_mysql_greeting_encode ::
    "mysql_wire_greeting option \<Rightarrow> tdsql_mysql_output option \<Rightarrow> tdsql_mysql_status \<times> tdsql_mysql_output option" where
  "tdsql_mysql_greeting_encode greeting output =
     (case (greeting, output) of
        (Some g, Some out) \<Rightarrow>
          if gr_protocol_version g \<noteq> 10 \<or> gr_connection_id g = 0 \<or> gr_auth_plugin_data_length g \<noteq> TDSQL_MYSQL_NONCE_BYTES \<or>
             gr_character_set g \<noteq> TDSQL_MYSQL_BINARY_CHARSET \<or> gr_status_flags g \<noteq> TDSQL_MYSQL_SERVER_AUTOCOMMIT
          then (TDSQL_MYSQL_INVALID, output)
          else if handshake_flags (gr_capabilities g) (gr_capabilities g) \<noteq> TDSQL_MYSQL_OK
          then (handshake_flags (gr_capabilities g) (gr_capabilities g), output)
          else
            (case and_then (handshake_string (gr_server_version g)) (\<lambda>version.
                  and_then (handshake_string (gr_auth_plugin g)) (\<lambda>plugin. Inr (version, plugin))) of
               Inl status \<Rightarrow> (status, output)
             | Inr (version, plugin) \<Rightarrow>
                 if version = 0 then (TDSQL_MYSQL_INVALID, output)
                 else if plugin \<noteq> length TDSQL_MYSQL_AUTH_PLUGIN \<or> take plugin (gr_auth_plugin g) \<noteq> TDSQL_MYSQL_AUTH_PLUGIN
                 then (TDSQL_MYSQL_UNSUPPORTED, output)
                 else
                   let sz = 45 + version + 1 + plugin + 1 in
                   if sz > out_capacity out then (TDSQL_MYSQL_LIMIT, output)
                   else
                     case out_data out of None \<Rightarrow> (TDSQL_MYSQL_OK, Some (out\<lparr>out_size := sz\<rparr>))
                     | Some d \<Rightarrow>
                       (case greeting_write g version plugin of (status, data, offset) \<Rightarrow>
                          if status \<noteq> MYSQL_WIRE_STATUS_OK then (of_wire status, output)
                          else (TDSQL_MYSQL_OK,
                                Some (out\<lparr>out_data := Some (memcpy d 0 (take offset (the data))), out_size := offset\<rparr>))))
      | _ \<Rightarrow> (TDSQL_MYSQL_INVALID, output))"

definition handshake_header :: "ptr \<Rightarrow> nat \<Rightarrow> u32 \<Rightarrow> tdsql_mysql_status + tdsql_mysql_login_header" where
  "handshake_header data sz advertised =
     (case data of None \<Rightarrow> Inl TDSQL_MYSQL_INVALID
      | Some d0 \<Rightarrow>
        if sz < TDSQL_MYSQL_SSL_BYTES then Inl TDSQL_MYSQL_INVALID
        else
          let d = take sz d0 in
          case and_then (mysql_wire_read_u32_le (Some d) 0) (\<lambda>(capabilities, offset).
               and_then (mysql_wire_read_u32_le (Some d) offset) (\<lambda>(max_packet_size, offset).
               Inr (capabilities, max_packet_size, offset))) of
            Inl status \<Rightarrow> Inl (of_wire status)
          | Inr (capabilities, max_packet_size, offset) \<Rightarrow>
              let flags = handshake_flags advertised capabilities in
              if flags \<noteq> TDSQL_MYSQL_OK then Inl flags
              else
                let character_set = d ! offset in
                if max_packet_size = 0 then Inl TDSQL_MYSQL_INVALID
                else if \<not> handshake_character_set character_set then Inl TDSQL_MYSQL_UNSUPPORTED
                else if take 23 (drop 9 d) \<noteq> replicate 23 0 then Inl TDSQL_MYSQL_INVALID
                else Inr \<lparr>lh_capabilities = capabilities, lh_max_packet_size = max_packet_size,
                          lh_character_set = character_set\<rparr>)"

definition tdsql_mysql_ssl_decode :: "ptr \<Rightarrow> nat \<Rightarrow> u32 \<Rightarrow> tdsql_mysql_status + tdsql_mysql_login_header" where
  "tdsql_mysql_ssl_decode data sz advertised =
     (if sz \<noteq> TDSQL_MYSQL_SSL_BYTES then Inl TDSQL_MYSQL_INVALID else handshake_header data sz advertised)"

definition handshake_cstring :: "bytes \<Rightarrow> nat \<Rightarrow> nat \<Rightarrow> tdsql_mysql_status + (mysql_wire_bytes \<times> nat)" where
  "handshake_cstring d offset limit =
     (if offset \<ge> length d then Inl TDSQL_MYSQL_INVALID
      else if 0 \<notin> set (drop offset d) then Inl TDSQL_MYSQL_INVALID
      else
        let len = length (takeWhile (\<lambda>c. c \<noteq> 0) (drop offset d)) in
        if len > limit then Inl TDSQL_MYSQL_LIMIT
        else Inr (\<lparr>wb_data = Some (take len (drop offset d)), wb_length = len, wb_is_null = False\<rparr>, offset + len + 1))"

definition tdsql_mysql_login_decode :: "ptr \<Rightarrow> nat \<Rightarrow> u32 \<Rightarrow> tdsql_mysql_status + tdsql_mysql_login" where
  "tdsql_mysql_login_decode data sz advertised =
     and_then (handshake_header data sz advertised) (\<lambda>header.
       let d = take sz (the data) in
       and_then (handshake_cstring d TDSQL_MYSQL_SSL_BYTES TDSQL_MYSQL_USERNAME_BYTES) (\<lambda>(username, offset).
       if wb_length username = 0 \<or> offset \<ge> length d then Inl TDSQL_MYSQL_INVALID
       else
         let bytes = unat (d ! offset); offset = offset + 1 in
         if bytes \<noteq> 0 \<and> bytes \<noteq> TDSQL_MYSQL_AUTH_BYTES then Inl TDSQL_MYSQL_INVALID
         else if bytes > length d - offset then Inl TDSQL_MYSQL_INVALID
         else
           let auth_response = \<lparr>wb_data = Some (take bytes (drop offset d)), wb_length = bytes, wb_is_null = False\<rparr>;
               offset = offset + bytes in
           and_then
             (if lh_capabilities header AND MYSQL_WIRE_CLIENT_CONNECT_WITH_DB \<noteq> 0 then
                and_then (handshake_cstring d offset TDSQL_MYSQL_DATABASE_BYTES) (\<lambda>(database, offset).
                if wb_length database = 0 then Inl TDSQL_MYSQL_INVALID else Inr (database, offset))
              else Inr (wire_bytes_zero, offset)) (\<lambda>(database, offset).
           and_then (handshake_cstring d offset (MYSQL_WIRE_AUTH_PLUGIN_NAME_CAPACITY - 1)) (\<lambda>(plugin, offset).
           if wb_length plugin \<noteq> length TDSQL_MYSQL_AUTH_PLUGIN \<or> wb_data plugin \<noteq> Some TDSQL_MYSQL_AUTH_PLUGIN
           then Inl TDSQL_MYSQL_UNSUPPORTED
           else if offset \<noteq> length d then Inl TDSQL_MYSQL_INVALID
           else Inr \<lparr>lg_header = header, lg_username = username, lg_database = database,
                     lg_auth_response = auth_response, lg_plugin = plugin\<rparr>))))"

definition header_zero :: tdsql_mysql_login_header where
  "header_zero = \<lparr>lh_capabilities = 0, lh_max_packet_size = 0, lh_character_set = 0\<rparr>"

definition tdsql_mysql_negotiation_init ::
    "tdsql_mysql_negotiation option \<Rightarrow> u32 \<Rightarrow> tdsql_mysql_status \<times> tdsql_mysql_negotiation option" where
  "tdsql_mysql_negotiation_init out advertised =
     (case out of None \<Rightarrow> (TDSQL_MYSQL_INVALID, None)
      | Some n \<Rightarrow>
        if ng_phase n \<noteq> 0 then (TDSQL_MYSQL_INVALID, out)
        else
          let status = handshake_flags advertised advertised in
          (status,
           if status = TDSQL_MYSQL_OK
           then Some \<lparr>ng_header = header_zero, ng_advertised = advertised, ng_phase = TDSQL_MYSQL_WAIT_SSL\<rparr>
           else out))"

text \<open>The message is accepted with the packet number it came with; \<open>wants\<close> is whether the caller passed a place for the login.\<close>

definition tdsql_mysql_negotiation_accept ::
    "tdsql_mysql_negotiation option \<Rightarrow> ptr \<Rightarrow> nat \<Rightarrow> u8 \<Rightarrow> bool \<Rightarrow> bool \<Rightarrow>
     tdsql_mysql_status \<times> tdsql_mysql_negotiation option \<times> tdsql_mysql_login option" where
  "tdsql_mysql_negotiation_accept negotiation data sz sequence tls wants =
     (case negotiation of None \<Rightarrow> (TDSQL_MYSQL_INVALID, None, None)
      | Some n \<Rightarrow>
        let failed = (\<lambda>status. (status, Some (n\<lparr>ng_phase := TDSQL_MYSQL_HANDSHAKE_FAILED\<rparr>), None)) in
        if ng_phase n = 0 \<or> ng_phase n = TDSQL_MYSQL_HANDSHAKE_FAILED then (TDSQL_MYSQL_INVALID, negotiation, None)
        else if ng_phase n = TDSQL_MYSQL_WAIT_SSL \<and> \<not> tls then
          (if sequence \<noteq> 1 then failed TDSQL_MYSQL_SEQUENCE
           else case tdsql_mysql_ssl_decode data sz (ng_advertised n) of
             Inl status \<Rightarrow> failed status
           | Inr header \<Rightarrow> (TDSQL_MYSQL_OK, Some (n\<lparr>ng_header := header, ng_phase := TDSQL_MYSQL_WAIT_TLS\<rparr>), None))
        else if ng_phase n = TDSQL_MYSQL_WAIT_LOGIN \<and> tls then
          (if sequence \<noteq> 2 then failed TDSQL_MYSQL_SEQUENCE
           else if wants then
             (case tdsql_mysql_login_decode data sz (ng_advertised n) of
                Inl status \<Rightarrow> failed status
              | Inr login \<Rightarrow>
                  if lh_capabilities (lg_header login) \<noteq> lh_capabilities (ng_header n) \<or>
                     lh_max_packet_size (lg_header login) \<noteq> lh_max_packet_size (ng_header n) \<or>
                     lh_character_set (lg_header login) \<noteq> lh_character_set (ng_header n)
                  then failed TDSQL_MYSQL_INVALID
                  else (TDSQL_MYSQL_OK, Some (n\<lparr>ng_phase := TDSQL_MYSQL_WAIT_CREDENTIALS\<rparr>), Some login))
           else failed TDSQL_MYSQL_INVALID)
        else failed TDSQL_MYSQL_INVALID)"

definition tdsql_mysql_negotiation_tls_ready ::
    "tdsql_mysql_negotiation option \<Rightarrow> tdsql_mysql_status \<times> tdsql_mysql_negotiation option" where
  "tdsql_mysql_negotiation_tls_ready negotiation =
     (case negotiation of None \<Rightarrow> (TDSQL_MYSQL_INVALID, None)
      | Some n \<Rightarrow>
        if ng_phase n = 0 then (TDSQL_MYSQL_INVALID, negotiation)
        else if ng_phase n \<noteq> TDSQL_MYSQL_WAIT_TLS
        then (TDSQL_MYSQL_INVALID, Some (n\<lparr>ng_phase := TDSQL_MYSQL_HANDSHAKE_FAILED\<rparr>))
        else (TDSQL_MYSQL_OK, Some (n\<lparr>ng_phase := TDSQL_MYSQL_WAIT_LOGIN\<rparr>)))"


section \<open>The greeting\<close>

definition filled :: "nat \<Rightarrow> bytes \<Rightarrow> wire_write \<Rightarrow> bool" where
  "filled n P r \<longleftrightarrow> (\<exists>d. r = (MYSQL_WIRE_STATUS_OK, Some d, length P) \<and> length d = n \<and> take (length P) d = P)"

lemma filled_store_start: "length xs \<le> n \<Longrightarrow> filled n xs (store_bytes (Some (replicate n 0)) 0 xs)"
  by (simp add: filled_def store_bytes_def memcpy_def)

lemma filled_store:
  assumes "filled n P r" and "length P + length xs \<le> n"
  shows "filled n (P @ xs) (write_then r (\<lambda>data offset. store_bytes data offset xs))"
proof -
  obtain d where "r = (MYSQL_WIRE_STATUS_OK, Some d, length P)" "length d = n" "take (length P) d = P"
    using assms(1) by (auto simp: filled_def)
  then show ?thesis
    using assms(2) take_memcpy [of "length P" d xs] by (simp add: filled_def store_bytes_def write_then_def)
qed

lemma filled_appends:
  assumes "filled n P r" and "appends n f xs" and "length P + length xs \<le> n"
  shows "filled n (P @ xs) (write_then r f)"
proof -
  obtain d where "r = (MYSQL_WIRE_STATUS_OK, Some d, length P)" "length d = n" "take (length P) d = P"
    using assms(1) by (auto simp: filled_def)
  then show ?thesis
    using assms(3) appends_fits [OF assms(2), of d "length P"] take_memcpy [of "length P" d xs]
    by (simp add: filled_def write_then_def)
qed

lemma filled_eq: "filled n P r \<Longrightarrow> P = Q \<Longrightarrow> filled n Q r"
  by simp

definition greeting_valid :: "mysql_wire_greeting \<Rightarrow> bytes \<Rightarrow> bytes \<Rightarrow> bool" where
  "greeting_valid g version nonce \<longleftrightarrow>
     gr_protocol_version g = 10 \<and> gr_connection_id g \<noteq> 0 \<and> gr_auth_plugin_data_length g = 20 \<and>
     gr_character_set g = TDSQL_MYSQL_BINARY_CHARSET \<and> gr_status_flags g = TDSQL_MYSQL_SERVER_AUTOCOMMIT \<and>
     handshake_flags (gr_capabilities g) (gr_capabilities g) = TDSQL_MYSQL_OK \<and>
     gr_server_version g = char_array 128 version \<and> text_ok version \<and> version \<noteq> [] \<and> length version < 128 \<and>
     gr_auth_plugin_data g = char_array 32 nonce \<and> length nonce = 20 \<and>
     gr_auth_plugin g = char_array 64 TDSQL_MYSQL_AUTH_PLUGIN"

definition server_greeting :: "mysql_wire_greeting \<Rightarrow> bytes \<Rightarrow> bytes \<Rightarrow> bytes" where
  "server_greeting g version nonce =
     greeting_payload version (gr_connection_id g) nonce (gr_capabilities g) (gr_character_set g) (gr_status_flags g) TDSQL_MYSQL_AUTH_PLUGIN"

lemma plugin_text: "text_ok TDSQL_MYSQL_AUTH_PLUGIN" "length TDSQL_MYSQL_AUTH_PLUGIN = 21"
  by (simp_all add: text_ok_def TDSQL_MYSQL_AUTH_PLUGIN_def)

lemma array_string:
  assumes "text_ok s" and "length s < cap"
  shows "handshake_string (char_array cap s) = Inr (length s)" "take (length s + 1) (char_array cap s) = s @ [0]"
    "take (length s) (char_array cap s) = s"
  using assms by (simp_all add: char_array_term handshake_string_def takeWhile_text)

lemma greeting_write_filled:
  assumes "greeting_valid g version nonce"
  shows "filled 237 (server_greeting g version nonce) (greeting_write g (length version) 21)"
proof -
  have v: "text_ok version" "length version < 128" "gr_server_version g = char_array 128 version"
    "gr_auth_plugin_data g = char_array 32 nonce" "length nonce = 20" "gr_auth_plugin g = char_array 64 TDSQL_MYSQL_AUTH_PLUGIN"
    using assms by (simp_all add: greeting_valid_def)
  have parts: "take (length version + 1) (gr_server_version g) = version @ [0]" "take (21 + 1) (gr_auth_plugin g) = TDSQL_MYSQL_AUTH_PLUGIN @ [0]"
    "take 8 (gr_auth_plugin_data g) = take 8 nonce" "take (20 - 8) (drop 8 (gr_auth_plugin_data g)) = drop 8 nonce"
    using array_string [OF v(1,2)] array_string [OF plugin_text(1), of 64] plugin_text(2) v(3-6)
    by (simp_all add: char_array_def)
  have n: "(of_nat (20 + 1) :: u8) = 21" "(45 + 128 + 64 :: nat) = 237" by simp_all
  show ?thesis
    unfolding greeting_write_def Let_def parts n server_greeting_def greeting_payload_def write_then_assoc [symmetric]
    by (rule filled_eq,
        (rule filled_store filled_appends [OF _ u16w.put_appends] filled_appends [OF _ u32w.put_appends] filled_store_start)+)
       (use v plugin_text in simp_all)
qed

lemma length_server_greeting: "length nonce = 20 \<Longrightarrow> length (server_greeting g version nonce) = 45 + length version + 1 + 21 + 1"
  by (simp add: server_greeting_def greeting_payload_def plugin_text)

lemma greeting_encode_valid:
  assumes g: "greeting_valid g version nonce" and out: "output_ok out"
  shows "tdsql_mysql_greeting_encode (Some g) (Some out) = encoded out (server_greeting g version nonce)"
proof -
  let ?P = "server_greeting g version nonce"
  have v: "text_ok version" "length version < 128" "gr_server_version g = char_array 128 version" "length nonce = 20" "version \<noteq> []"
     "gr_auth_plugin g = char_array 64 TDSQL_MYSQL_AUTH_PLUGIN"
    using g by (simp_all add: greeting_valid_def)
  have str: "handshake_string (gr_server_version g) = Inr (length version)" "handshake_string (gr_auth_plugin g) = Inr 21"
    "take 21 (gr_auth_plugin g) = TDSQL_MYSQL_AUTH_PLUGIN"
    using array_string [OF v(1,2)] array_string [OF plugin_text(1), of 64] plugin_text(2) v(3,6) by simp_all
  obtain d' where w: "greeting_write g (length version) 21 = (MYSQL_WIRE_STATUS_OK, Some d', length ?P)" "take (length ?P) d' = ?P"
    using greeting_write_filled [OF g] by (auto simp: filled_def)
  have guards: "gr_protocol_version g = 10" "gr_connection_id g \<noteq> 0" "gr_auth_plugin_data_length g = 20"
      "gr_character_set g = TDSQL_MYSQL_BINARY_CHARSET" "gr_status_flags g = TDSQL_MYSQL_SERVER_AUTOCOMMIT"
      "handshake_flags (gr_capabilities g) (gr_capabilities g) = TDSQL_MYSQL_OK"
    using g by (simp_all add: greeting_valid_def)
  have len: "length ?P = 45 + length version + 1 + 21 + 1" by (rule length_server_greeting [OF v(4)])
  show ?thesis
  proof (cases "out_data out")
    case None
    then show ?thesis
      using str guards v(5) plugin_text(2) len by (simp add: tdsql_mysql_greeting_encode_def encoded_def)
  next
    case (Some d)
    then show ?thesis
      using str guards v(5) plugin_text(2) len w by (simp add: tdsql_mysql_greeting_encode_def encoded_def)
  qed
qed

lemma flags_required:
  assumes "handshake_flags advertised client = TDSQL_MYSQL_OK"
  shows "advertised AND handshake_required = handshake_required" "client AND handshake_required = handshake_required"
    "client AND NOT advertised = 0" "advertised AND NOT (tdsql_mysql_server_capabilities True) = 0"
  using assms by (auto simp: handshake_flags_def Let_def split: if_splits)

lemma required_flags:
  assumes "c AND handshake_required = handshake_required"
  shows "c AND MYSQL_WIRE_CLIENT_PROTOCOL_41 \<noteq> 0" "c AND MYSQL_WIRE_CLIENT_SSL \<noteq> 0"
    "c AND MYSQL_WIRE_CLIENT_SECURE_CONNECTION \<noteq> 0" "c AND MYSQL_WIRE_CLIENT_PLUGIN_AUTH \<noteq> 0"
proof -
  have bits: "bit c k" if "bit handshake_required k" for k
    using assms that by (metis bit_and_iff)
  have "bit handshake_required 9" "bit handshake_required 11" "bit handshake_required 15" "bit handshake_required 19"
    by (simp_all add: handshake_required_def)
  then have "bit c 9" "bit c 11" "bit c 15" "bit c 19" using bits by blast+
  then show "c AND MYSQL_WIRE_CLIENT_PROTOCOL_41 \<noteq> 0" "c AND MYSQL_WIRE_CLIENT_SSL \<noteq> 0"
    "c AND MYSQL_WIRE_CLIENT_SECURE_CONNECTION \<noteq> 0" "c AND MYSQL_WIRE_CLIENT_PLUGIN_AUTH \<noteq> 0"
    using and_flag [of c 9] and_flag [of c 11] and_flag [of c 15] and_flag [of c 19] by simp_all
qed

lemma parse_server_greeting:
  assumes "greeting_valid g version nonce"
  shows "mysql_wire_parse_greeting (Some (server_greeting g version nonce)) = Inr g"
proof -
  have v: "text_ok version" "length version < 128" "length nonce = 20"
    and flags: "handshake_flags (gr_capabilities g) (gr_capabilities g) = TDSQL_MYSQL_OK"
    using assms by (simp_all add: greeting_valid_def)
  note req = required_flags [OF flags_required(1) [OF flags]]
  have "length TDSQL_MYSQL_AUTH_PLUGIN < 64" using plugin_text by simp
  from decode_greeting_payload [OF v(1,2) plugin_text(1) this v(3) req(3,4)] assms
  show ?thesis by (simp add: server_greeting_def greeting_valid_def)
qed


section \<open>TLS request and login\<close>

definition header_of :: "u32 \<Rightarrow> u32 \<Rightarrow> u8 \<Rightarrow> tdsql_mysql_login_header" where
  "header_of capabilities max_packet_size character_set =
     \<lparr>lh_capabilities = capabilities, lh_max_packet_size = max_packet_size, lh_character_set = character_set\<rparr>"

lemma handshake_header_payload:
  fixes rest :: bytes
  assumes "handshake_flags advertised capabilities = TDSQL_MYSQL_OK" and "max_packet_size \<noteq> 0" and "handshake_character_set character_set"
  defines "d \<equiv> login_header capabilities max_packet_size character_set @ rest"
  shows "handshake_header (Some d) (length d) advertised = Inr (header_of capabilities max_packet_size character_set)"
proof -
  have "seg d 0 (login_header capabilities max_packet_size character_set @ rest) (length d)" unfolding d_def by (rule seg_whole)
  then obtain o1 o2 o3 where s: "seg d 0 (u32_bytes capabilities) o1" "seg d o1 (u32_bytes max_packet_size) o2" "seg d o2 [character_set] o3"
    unfolding login_header_def seg_append by metis
  have o: "o2 = 8" "d ! o2 = character_set" using s(3) s [THEN seg_end] by (simp_all add: seg_Cons)
  have r: "mysql_wire_read_u32_le (Some d) 0 = Inr (capabilities, o1)" "mysql_wire_read_u32_le (Some d) o1 = Inr (max_packet_size, o2)"
    using s(1,2) by (simp_all add: u32c.dec_seg)
  have f: "take 23 (drop 9 d) = replicate 23 0" by (simp add: d_def login_header_def)
  have l: "\<not> length d < 32" by (simp add: d_def)
  show ?thesis
    using assms(1-3) r o f l by (simp add: handshake_header_def header_of_def)
qed

lemma handshake_cstring_seg:
  assumes "text_ok s" and "length s \<le> limit" and "seg d off (s @ [0]) off'"
  shows "handshake_cstring d off limit = Inr (wire_bytes s, off')"
proof -
  note t = seg_text [OF assms(1,3)]
  have "d ! (off + length s) = 0" using seg_nth [OF assms(3), of "length s"] by simp
  then have "0 \<in> set (drop off d)" using t(2) by (auto simp: in_set_conv_nth intro!: exI [of _ "length s"])
  then show ?thesis using t assms(2) by (simp add: handshake_cstring_def Let_def wire_bytes_def)
qed

definition login_acceptable :: "u32 \<Rightarrow> bytes \<Rightarrow> bytes \<Rightarrow> bytes \<Rightarrow> bool" where
  "login_acceptable capabilities username auth database \<longleftrightarrow>
     text_ok username \<and> username \<noteq> [] \<and> length username \<le> 128 \<and> (auth = [] \<or> length auth = 32) \<and>
     text_ok database \<and> length database \<le> 128 \<and>
     (capabilities AND MYSQL_WIRE_CLIENT_CONNECT_WITH_DB = 0 \<or> database \<noteq> [])"

lemma decode_login_payload:
  assumes flags: "handshake_flags advertised capabilities = TDSQL_MYSQL_OK" and "max_packet_size \<noteq> 0"
    and "handshake_character_set character_set" and login: "login_acceptable capabilities username auth database"
  defines "d \<equiv> login_payload capabilities max_packet_size character_set username auth database TDSQL_MYSQL_AUTH_PLUGIN"
  shows "tdsql_mysql_login_decode (Some d) (length d) advertised =
     Inr \<lparr>lg_header = header_of capabilities max_packet_size character_set, lg_username = wire_bytes username,
          lg_database = (if capabilities AND MYSQL_WIRE_CLIENT_CONNECT_WITH_DB \<noteq> 0 then wire_bytes database else wire_bytes_zero),
          lg_auth_response = wire_bytes auth, lg_plugin = wire_bytes TDSQL_MYSQL_AUTH_PLUGIN\<rparr>"
proof -
  let ?db = "if capabilities AND MYSQL_WIRE_CLIENT_CONNECT_WITH_DB \<noteq> 0 then database @ [0] else []"
  have h: "handshake_header (Some d) (length d) advertised = Inr (header_of capabilities max_packet_size character_set)"
    unfolding d_def login_payload_def by (rule handshake_header_payload [OF assms(1-3)])
  have "seg d 0 (login_header capabilities max_packet_size character_set @ (username @ [0]) @ [of_nat (length auth)] @ auth @ ?db @
      (TDSQL_MYSQL_AUTH_PLUGIN @ [0])) (length d)"
    using seg_whole [of d] by (simp add: d_def login_payload_def)
  then obtain o1 o2 o3 o4 o5 where s: "seg d 0 (login_header capabilities max_packet_size character_set) o1"
      "seg d o1 (username @ [0]) o2" "seg d o2 [of_nat (length auth)] o3" "seg d o3 auth o4" "seg d o4 ?db o5"
      "seg d o5 (TDSQL_MYSQL_AUTH_PLUGIN @ [0]) (length d)"
    unfolding seg_append [of d 0 "login_header capabilities max_packet_size character_set"]
      seg_append [of d _ "username @ [0]"] seg_append [of d _ "[of_nat (length auth)]"] seg_append [of d _ auth]
      seg_append [of d _ ?db] by blast
  have o: "o1 = 32" "o2 < length d" "d ! o2 = of_nat (length auth)" "o3 = o2 + 1" "o4 = o3 + length auth" "o3 + length auth \<le> length d"
    using s(3) seg_end [OF s(1)] seg_end [OF s(4)] seg_le [OF s(4)] by (simp_all add: seg_Cons)
  have auth: "unat (of_nat (length auth) :: u8) = length auth" "take (length auth) (drop o3 d) = auth" "length auth = 0 \<or> length auth = 32"
    using login seg_take_drop [OF s(4)] by (auto simp: login_acceptable_def)
  have u: "handshake_cstring d 32 128 = Inr (wire_bytes username, o2)" "wb_length (wire_bytes username) \<noteq> 0"
    using login s(2) o(1) by (auto simp: login_acceptable_def wire_bytes_def [of username] intro!: handshake_cstring_seg [unfolded wire_bytes_def])
  have p: "handshake_cstring d o5 63 = Inr (wire_bytes TDSQL_MYSQL_AUTH_PLUGIN, length d)"
    using s(6) plugin_text by (intro handshake_cstring_seg) simp_all
  have db: "capabilities AND MYSQL_WIRE_CLIENT_CONNECT_WITH_DB \<noteq> 0 \<Longrightarrow>
      handshake_cstring d o4 128 = Inr (wire_bytes database, o5) \<and> wb_length (wire_bytes database) \<noteq> 0"
    "capabilities AND MYSQL_WIRE_CLIENT_CONNECT_WITH_DB = 0 \<Longrightarrow> o5 = o4"
    using login s(5) by (auto simp: login_acceptable_def wire_bytes_def [of database] intro!: handshake_cstring_seg [unfolded wire_bytes_def])
  have pl: "wb_length (wire_bytes TDSQL_MYSQL_AUTH_PLUGIN) = length TDSQL_MYSQL_AUTH_PLUGIN"
    "wb_data (wire_bytes TDSQL_MYSQL_AUTH_PLUGIN) = Some TDSQL_MYSQL_AUTH_PLUGIN" by (simp_all add: wire_bytes_def)
  have w: "\<lparr>wb_data = Some auth, wb_length = length auth, wb_is_null = False\<rparr> = wire_bytes auth" by (simp add: wire_bytes_def)
  have cap: "lh_capabilities (header_of capabilities max_packet_size character_set) = capabilities" by (simp add: header_of_def)
  show ?thesis
    using h u p db o auth pl w unfolding tdsql_mysql_login_decode_def
    by (cases "capabilities AND MYSQL_WIRE_CLIENT_CONNECT_WITH_DB = 0") (auto simp: Let_def cap)
qed


section \<open>The negotiation as a state machine\<close>

datatype negotiation_event =
    Message ptr nat u8 bool bool
  | Tls_ready

text \<open>One event, with the status and the login it yields.\<close>

inductive negotiates ::
    "tdsql_mysql_negotiation \<Rightarrow> negotiation_event \<Rightarrow> tdsql_mysql_status \<Rightarrow> tdsql_mysql_login option \<Rightarrow> tdsql_mysql_negotiation \<Rightarrow> bool"
  where
  message: "tdsql_mysql_negotiation_accept (Some n) data sz sequence tls wants = (status, Some n', login) \<Longrightarrow>
     negotiates n (Message data sz sequence tls wants) status login n'"
| tls_ready: "tdsql_mysql_negotiation_tls_ready (Some n) = (status, Some n') \<Longrightarrow> negotiates n Tls_ready status None n'"

inductive_simps negotiates_simps: "negotiates n (Message data sz sequence tls wants) status login n'" "negotiates n Tls_ready status login n'"

text \<open>The runs of a negotiation that started with the advertised capabilities.\<close>

inductive handshake_trace :: "u32 \<Rightarrow> negotiation_event list \<Rightarrow> tdsql_mysql_negotiation \<Rightarrow> tdsql_mysql_login option \<Rightarrow> bool" where
  start: "tdsql_mysql_negotiation_init (Some n0) advertised = (TDSQL_MYSQL_OK, Some n) \<Longrightarrow> handshake_trace advertised [] n None"
| step: "handshake_trace advertised es n login \<Longrightarrow> negotiates n e status login' n' \<Longrightarrow>
     handshake_trace advertised (es @ [e]) n' (if login' = None then login else login')"

text \<open>
  The invariant: up to each phase exactly one history leads, and the header the negotiation keeps is
  the one of the TLS request.
\<close>

definition ssl_step :: "u32 \<Rightarrow> negotiation_event \<Rightarrow> tdsql_mysql_login_header \<Rightarrow> bool" where
  "ssl_step advertised e header \<longleftrightarrow>
     (\<exists>data sz wants. e = Message data sz 1 False wants \<and> tdsql_mysql_ssl_decode data sz advertised = Inr header)"

definition login_step :: "u32 \<Rightarrow> negotiation_event \<Rightarrow> tdsql_mysql_login \<Rightarrow> bool" where
  "login_step advertised e login \<longleftrightarrow>
     (\<exists>data sz. e = Message data sz 2 True True \<and> tdsql_mysql_login_decode data sz advertised = Inr login)"

definition negotiation_inv ::
    "u32 \<Rightarrow> negotiation_event list \<Rightarrow> tdsql_mysql_negotiation \<Rightarrow> tdsql_mysql_login option \<Rightarrow> bool" where
  "negotiation_inv advertised es n login \<longleftrightarrow>
     ng_advertised n = advertised \<and>
     (ng_phase n = TDSQL_MYSQL_WAIT_SSL \<and> es = [] \<and> login = None \<or>
      ng_phase n = TDSQL_MYSQL_WAIT_TLS \<and> (\<exists>e. es = [e] \<and> ssl_step advertised e (ng_header n)) \<and> login = None \<or>
      ng_phase n = TDSQL_MYSQL_WAIT_LOGIN \<and> (\<exists>e. es = [e, Tls_ready] \<and> ssl_step advertised e (ng_header n)) \<and> login = None \<or>
      ng_phase n = TDSQL_MYSQL_WAIT_CREDENTIALS \<and>
        (\<exists>e e' l. es = [e, Tls_ready, e'] \<and> ssl_step advertised e (ng_header n) \<and> login_step advertised e' l \<and>
           lg_header l = ng_header n \<and> login = Some l) \<or>
      ng_phase n = TDSQL_MYSQL_HANDSHAKE_FAILED)"

lemma login_header_eq:
  "lh_capabilities a = lh_capabilities b \<Longrightarrow> lh_max_packet_size a = lh_max_packet_size b \<Longrightarrow>
   lh_character_set a = lh_character_set b \<Longrightarrow> a = (b :: tdsql_mysql_login_header)"
  by (cases a, cases b) simp

lemma accept_cases:
  assumes "tdsql_mysql_negotiation_accept (Some n) data sz sequence tls wants = (status, Some n', login)"
  obtains (ignored) "n' = n" "login = None" "ng_phase n = 0 \<or> ng_phase n = TDSQL_MYSQL_HANDSHAKE_FAILED" "status = TDSQL_MYSQL_INVALID"
    | (failed) "n' = n\<lparr>ng_phase := TDSQL_MYSQL_HANDSHAKE_FAILED\<rparr>" "login = None"
    | (ssl) header where "ng_phase n = TDSQL_MYSQL_WAIT_SSL" "\<not> tls" "sequence = 1"
        "tdsql_mysql_ssl_decode data sz (ng_advertised n) = Inr header"
        "n' = n\<lparr>ng_header := header, ng_phase := TDSQL_MYSQL_WAIT_TLS\<rparr>" "login = None" "status = TDSQL_MYSQL_OK"
    | (login) l where "ng_phase n = TDSQL_MYSQL_WAIT_LOGIN" "tls" "sequence = 2" "wants"
        "tdsql_mysql_login_decode data sz (ng_advertised n) = Inr l" "lg_header l = ng_header n"
        "n' = n\<lparr>ng_phase := TDSQL_MYSQL_WAIT_CREDENTIALS\<rparr>" "login = Some l" "status = TDSQL_MYSQL_OK"
proof (cases "ng_phase n = 0 \<or> ng_phase n = TDSQL_MYSQL_HANDSHAKE_FAILED")
  case True
  then show ?thesis using assms ignored by (auto simp: tdsql_mysql_negotiation_accept_def)
next
  case live: False
  show ?thesis
  proof (cases "ng_phase n = TDSQL_MYSQL_WAIT_SSL \<and> \<not> tls")
    case True
    then show ?thesis
      using assms ssl failed by (simp add: tdsql_mysql_negotiation_accept_def split: if_splits sum.splits)
  next
    case False
    then show ?thesis
      using assms live failed login login_header_eq
      unfolding tdsql_mysql_negotiation_accept_def Let_def option.case
      by (auto split: if_splits sum.splits)
  qed
qed

lemma negotiation_inv_step:
  assumes "negotiation_inv advertised es n login" and "negotiates n e status login' n'"
  shows "negotiation_inv advertised (es @ [e]) n' (if login' = None then login else login')"
  using assms(2)
proof cases
  case (message data sz sequence tls wants)
  from message(2) show ?thesis
  proof (cases rule: accept_cases)
    case ignored
    then show ?thesis using assms(1) by (auto simp: negotiation_inv_def)
  next
    case failed
    then show ?thesis using assms(1) by (simp add: negotiation_inv_def)
  next
    case (ssl header)
    then show ?thesis using assms(1) message(1) by (auto simp: negotiation_inv_def ssl_step_def)
  next
    case (login l)
    then have e: "login_step advertised e l" using assms(1) message(1) by (auto simp: negotiation_inv_def login_step_def)
    show ?thesis using assms(1) login e by (auto simp: negotiation_inv_def)
  qed
next
  case tls_ready
  then show ?thesis
    using assms(1) by (auto simp: negotiation_inv_def tdsql_mysql_negotiation_tls_ready_def split: if_splits)
qed

lemma handshake_trace_inv: "handshake_trace advertised es n login \<Longrightarrow> negotiation_inv advertised es n login"
proof (induction rule: handshake_trace.induct)
  case (start n0 advertised n)
  then show ?case by (auto simp: tdsql_mysql_negotiation_init_def negotiation_inv_def Let_def split: if_splits)
next
  case (step advertised es n login e status login' n')
  then show ?case by (intro negotiation_inv_step)
qed

lemma selection_accepted:
  assumes flags: "handshake_flags (gr_capabilities g) (gr_capabilities g) = TDSQL_MYSQL_OK"
    and db: "use_database \<Longrightarrow> gr_capabilities g AND MYSQL_WIRE_CLIENT_CONNECT_WITH_DB \<noteq> 0"
  obtains s where "mysql_wire_select_client_capabilities (Some g) True use_database = (MYSQL_WIRE_STATUS_OK, Some s)"
    "handshake_flags (gr_capabilities g) s = TDSQL_MYSQL_OK"
proof -
  define c where "c = gr_capabilities g"
  define b where "b = (if use_database then MYSQL_WIRE_CLIENT_CONNECT_WITH_DB else 0)"
  let ?needed = "MYSQL_WIRE_CLIENT_PROTOCOL_41 OR MYSQL_WIRE_CLIENT_SECURE_CONNECTION OR MYSQL_WIRE_CLIENT_PLUGIN_AUTH OR
     (if True then MYSQL_WIRE_CLIENT_SSL else 0) OR (if use_database then MYSQL_WIRE_CLIENT_CONNECT_WITH_DB else 0)"
  have n: "?needed = handshake_required OR b" by (simp add: handshake_required_def b_def)
  have "c AND b = b" using db and_flag [of c 3] by (auto simp: b_def c_def split: if_splits)
  then have "c AND (handshake_required OR b) = handshake_required OR b"
    using flags_required(1) [OF flags] by (simp add: c_def bit.conj_disj_distrib)
  then obtain s where s: "mysql_wire_select_client_capabilities (Some g) True use_database = (MYSQL_WIRE_STATUS_OK, Some s)"
      "s AND c = s" "s AND (handshake_required OR b) = handshake_required OR b"
    using select_capabilities_spec [of g True use_database] unfolding n c_def [symmetric]
    by (auto split: prod.splits)
  have "s AND handshake_required = handshake_required"
  proof (rule bit_word_eqI)
    fix k
    assume "k < LENGTH(32)"
    have "bit (s AND (handshake_required OR b)) k = bit (handshake_required OR b) k" using s(3) by simp
    then show "bit (s AND handshake_required) k = bit handshake_required k" by (auto simp: bit_simps)
  qed
  moreover have "s AND NOT c = 0"
  proof -
    have "s AND NOT c = (s AND c) AND NOT c" using s(2) by simp
    then show ?thesis by (simp add: and.assoc)
  qed
  ultimately have "handshake_flags c s = TDSQL_MYSQL_OK"
    using flags_required [OF flags] by (simp add: handshake_flags_def Let_def c_def)
  then show ?thesis using that s(1) by (simp add: c_def)
qed

lemma builds_buffer:
  assumes "builds (length d) (length d) P r" and "length P \<le> length d"
  obtains d' where "r = (MYSQL_WIRE_STATUS_OK, Some d', Some (length P))" "take (length P) d' = P" "length d' = length d"
  using assms by (auto simp: builds_def)

lemma ssl_decode_take: "length d = 32 \<Longrightarrow> take 32 d' = d \<Longrightarrow> tdsql_mysql_ssl_decode (Some d') 32 adv = tdsql_mysql_ssl_decode (Some d) 32 adv"
  by (simp add: tdsql_mysql_ssl_decode_def handshake_header_def Let_def)

lemma login_decode_take:
  "take (length d) d' = d \<Longrightarrow> tdsql_mysql_login_decode (Some d') (length d) adv = tdsql_mysql_login_decode (Some d) (length d) adv"
  by (simp add: tdsql_mysql_login_decode_def handshake_header_def Let_def)

text \<open>The user, the proof and the database, if any, that a client may log in with.\<close>

definition client_login_ok :: "bytes \<Rightarrow> bytes \<Rightarrow> bytes option \<Rightarrow> bool" where
  "client_login_ok username auth database \<longleftrightarrow>
     text_ok username \<and> username \<noteq> [] \<and> length username \<le> 128 \<and> (auth = [] \<or> length auth = 32) \<and>
     (case database of None \<Rightarrow> True | Some s \<Rightarrow> text_ok s \<and> s \<noteq> [] \<and> length s \<le> 128)"

lemma selected_database:
  assumes "mysql_wire_select_client_capabilities (Some g) use_tls use_database = (MYSQL_WIRE_STATUS_OK, Some s)"
  shows "s AND MYSQL_WIRE_CLIENT_CONNECT_WITH_DB \<noteq> 0 \<longleftrightarrow> use_database"
proof -
  have "bit s 3 \<longleftrightarrow> use_database"
    using assms by (auto simp: mysql_wire_select_client_capabilities_def Let_def bit_simps split: if_splits)
  then show ?thesis using and_flag [of s 3] by simp
qed

text \<open>Without the capability the builder does not look at the database.\<close>

lemma build_response_no_database:
  "capabilities AND MYSQL_WIRE_CLIENT_CONNECT_WITH_DB = 0 \<Longrightarrow>
   mysql_wire_build_handshake_response capabilities max_packet_size character_set username auth auth_size database plugin out cap =
   mysql_wire_build_handshake_response capabilities max_packet_size character_set username auth auth_size other plugin out cap"
  by (simp add: mysql_wire_build_handshake_response_def)

lemma handshake_run:
  assumes greeting: "greeting_valid g version nonce"
    and db: "database \<noteq> None \<Longrightarrow> gr_capabilities g AND MYSQL_WIRE_CLIENT_CONNECT_WITH_DB \<noteq> 0"
    and "max_packet_size \<noteq> 0" and "handshake_character_set character_set"
    and login: "client_login_ok username auth database"
    and "length buffer1 = 32" and "400 \<le> length buffer2" and out: "output_ok out"
  shows "\<exists>capabilities ssl message len n l.
     tdsql_mysql_greeting_encode (Some g) (Some out) = encoded out (server_greeting g version nonce) \<and>
     mysql_wire_parse_greeting (Some (server_greeting g version nonce)) = Inr g \<and>
     mysql_wire_select_client_capabilities (Some g) True (database \<noteq> None) = (MYSQL_WIRE_STATUS_OK, Some capabilities) \<and>
     mysql_wire_build_ssl_request capabilities max_packet_size character_set (Some buffer1) (length buffer1) =
       (MYSQL_WIRE_STATUS_OK, Some ssl, Some 32) \<and>
     mysql_wire_build_handshake_response capabilities max_packet_size character_set (Some (username @ [0])) (Some auth) (length auth)
       (map_option (\<lambda>s. s @ [0]) database) (Some (TDSQL_MYSQL_AUTH_PLUGIN @ [0])) (Some buffer2) (length buffer2) =
       (MYSQL_WIRE_STATUS_OK, Some message, Some len) \<and>
     handshake_trace (gr_capabilities g) [Message (Some ssl) 32 1 False False, Tls_ready, Message (Some message) len 2 True True] n (Some l) \<and>
     ng_phase n = TDSQL_MYSQL_WAIT_CREDENTIALS \<and>
     l = \<lparr>lg_header = header_of capabilities max_packet_size character_set, lg_username = wire_bytes username,
          lg_database = (case database of None \<Rightarrow> wire_bytes_zero | Some s \<Rightarrow> wire_bytes s),
          lg_auth_response = wire_bytes auth, lg_plugin = wire_bytes TDSQL_MYSQL_AUTH_PLUGIN\<rparr>"
proof -
  have flags: "handshake_flags (gr_capabilities g) (gr_capabilities g) = TDSQL_MYSQL_OK"
    using greeting by (simp add: greeting_valid_def)
  obtain s where s: "mysql_wire_select_client_capabilities (Some g) True (database \<noteq> None) = (MYSQL_WIRE_STATUS_OK, Some s)"
    and ok: "handshake_flags (gr_capabilities g) s = TDSQL_MYSQL_OK"
    using selection_accepted [OF flags db] by blast
  note req = required_flags [OF flags_required(2) [OF ok]]
  define name where "name = (case database of None \<Rightarrow> [] | Some s \<Rightarrow> s)"
  have named: "s AND MYSQL_WIRE_CLIENT_CONNECT_WITH_DB \<noteq> 0 \<longleftrightarrow> database \<noteq> None" by (rule selected_database [OF s])
  have acceptable: "login_acceptable s username auth name"
    using login named by (cases database) (auto simp: client_login_ok_def login_acceptable_def name_def text_ok_def)
  note acc = acceptable [unfolded login_acceptable_def]
  let ?header = "login_header s max_packet_size character_set"
  let ?payload = "login_payload s max_packet_size character_set username auth name TDSQL_MYSQL_AUTH_PLUGIN"
  obtain ssl where ssl: "mysql_wire_build_ssl_request s max_packet_size character_set (Some buffer1) (length buffer1) =
      (MYSQL_WIRE_STATUS_OK, Some ssl, Some 32)" "take 32 ssl = ?header"
    using builds_buffer [OF build_ssl_builds [where d = buffer1, OF order_refl req(2)]] assms(6)
    by (metis length_login_header order_refl)
  have small: "length username \<le> SIZE_MAX" "length TDSQL_MYSQL_AUTH_PLUGIN \<le> SIZE_MAX" "length name \<le> SIZE_MAX" "length auth \<le> 255"
    using acc plugin_text by (auto simp: SIZE_MAX_def)
  have len: "length ?payload \<le> length buffer2"
    using acc plugin_text assms(7) by (auto simp: login_payload_def)
  have unused: "mysql_wire_build_handshake_response s max_packet_size character_set (Some (username @ [0])) (Some auth)
      (length auth) (map_option (\<lambda>s. s @ [0]) database) (Some (TDSQL_MYSQL_AUTH_PLUGIN @ [0])) (Some buffer2) (length buffer2) =
      mysql_wire_build_handshake_response s max_packet_size character_set (Some (username @ [0])) (Some auth)
      (length auth) (Some (name @ [0])) (Some (TDSQL_MYSQL_AUTH_PLUGIN @ [0])) (Some buffer2) (length buffer2)"
    using named build_response_no_database [of s] by (cases database) (auto simp: name_def)
  obtain msg where msg: "mysql_wire_build_handshake_response s max_packet_size character_set (Some (username @ [0])) (Some auth)
      (length auth) (map_option (\<lambda>s. s @ [0]) database) (Some (TDSQL_MYSQL_AUTH_PLUGIN @ [0])) (Some buffer2) (length buffer2) =
      (MYSQL_WIRE_STATUS_OK, Some msg, Some (length ?payload))" "take (length ?payload) msg = ?payload"
    using builds_buffer [OF build_login_builds [where d = buffer2, OF order_refl _ plugin_text(1) _ small req(1,3,4)] len] acc unfolding unused by blast
  define n1 where "n1 = \<lparr>ng_header = header_zero, ng_advertised = gr_capabilities g, ng_phase = TDSQL_MYSQL_WAIT_SSL\<rparr>"
  define h where "h = header_of s max_packet_size character_set"
  define l where "l = \<lparr>lg_header = h, lg_username = wire_bytes username,
      lg_database = (case database of None \<Rightarrow> wire_bytes_zero | Some s \<Rightarrow> wire_bytes s),
      lg_auth_response = wire_bytes auth, lg_plugin = wire_bytes TDSQL_MYSQL_AUTH_PLUGIN\<rparr>"
  have d1: "tdsql_mysql_ssl_decode (Some ssl) 32 (gr_capabilities g) = Inr h"
    using ssl_decode_take [OF length_login_header ssl(2)] handshake_header_payload [OF ok assms(3,4), of "[]"]
    by (simp add: tdsql_mysql_ssl_decode_def h_def)
  have d2: "tdsql_mysql_login_decode (Some msg) (length ?payload) (gr_capabilities g) = Inr l"
    using login_decode_take [OF msg(2)] decode_login_payload [OF ok assms(3,4) acceptable] named
    by (cases database) (simp_all add: l_def h_def name_def)
  have "handshake_trace (gr_capabilities g) [] n1 None"
    by (rule handshake_trace.start [of "n1\<lparr>ng_phase := 0\<rparr>"]) (simp add: tdsql_mysql_negotiation_init_def flags n1_def)
  from handshake_trace.step [OF this negotiates.message, of "Some ssl" 32 1 False False TDSQL_MYSQL_OK "n1\<lparr>ng_header := h, ng_phase := 2\<rparr>" None]
  have "handshake_trace (gr_capabilities g) [Message (Some ssl) 32 1 False False] (n1\<lparr>ng_header := h, ng_phase := 2\<rparr>) None"
    using d1 by (simp add: tdsql_mysql_negotiation_accept_def n1_def)
  from handshake_trace.step [OF this negotiates.tls_ready, of TDSQL_MYSQL_OK "n1\<lparr>ng_header := h, ng_phase := 3\<rparr>"]
  have "handshake_trace (gr_capabilities g) [Message (Some ssl) 32 1 False False, Tls_ready] (n1\<lparr>ng_header := h, ng_phase := 3\<rparr>) None"
    by (simp add: tdsql_mysql_negotiation_tls_ready_def n1_def)
  from handshake_trace.step [OF this negotiates.message, of "Some msg" "length ?payload" 2 True True TDSQL_MYSQL_OK
      "n1\<lparr>ng_header := h, ng_phase := 4\<rparr>" "Some l"]
  have "handshake_trace (gr_capabilities g) [Message (Some ssl) 32 1 False False, Tls_ready, Message (Some msg) (length ?payload) 2 True True]
      (n1\<lparr>ng_header := h, ng_phase := 4\<rparr>) (Some l)"
    using d2 by (simp add: tdsql_mysql_negotiation_accept_def n1_def l_def)
  then show ?thesis
    using greeting_encode_valid [OF greeting out] parse_server_greeting [OF greeting] s ssl(1) msg(1)
    by (intro exI [of _ s] exI [of _ ssl] exI [of _ msg] exI [of _ "length ?payload"] exI [of _ "n1\<lparr>ng_header := h, ng_phase := 4\<rparr>"] exI [of _ l])
       (simp add: l_def h_def)
qed

text \<open>A concrete greeting.\<close>

definition example_greeting :: mysql_wire_greeting where
  "example_greeting = \<lparr>gr_protocol_version = 10, gr_server_version = char_array 128 [56], gr_connection_id = 7,
     gr_capabilities = tdsql_mysql_server_capabilities True, gr_character_set = 63, gr_status_flags = 2,
     gr_auth_plugin_data = char_array 32 (replicate 20 1), gr_auth_plugin_data_length = 20,
     gr_auth_plugin = char_array 64 TDSQL_MYSQL_AUTH_PLUGIN\<rparr>"

lemma example_valid: "greeting_valid example_greeting [56] (replicate 20 1)"
  by (simp add: greeting_valid_def example_greeting_def handshake_flags_def tdsql_mysql_server_capabilities_def
      handshake_required_def text_ok_def)

lemma example_login: "client_login_ok [114] [] None" "client_login_ok [114] [] (Some [100])"
  by (simp_all add: client_login_ok_def text_ok_def)


section \<open>Properties\<close>

text \<open>
  C19. No login without TLS: whatever messages arrive, a negotiation that has reached the credentials
  phase has gone through exactly one history: a valid TLS request in the clear with packet number 1,
  the established TLS, and over it a valid login with packet number 2 whose header repeats the request.
\<close>

theorem login_requires_tls:
  assumes "handshake_trace advertised es n login" and "ng_phase n = TDSQL_MYSQL_WAIT_CREDENTIALS"
  shows "\<exists>data1 sz1 wants data2 sz2 l.
     es = [Message data1 sz1 1 False wants, Tls_ready, Message data2 sz2 2 True True] \<and> login = Some l \<and>
     tdsql_mysql_ssl_decode data1 sz1 advertised = Inr (lg_header l) \<and>
     tdsql_mysql_login_decode data2 sz2 advertised = Inr l"
  using handshake_trace_inv [OF assms(1)] assms(2)
  by (auto simp: negotiation_inv_def ssl_step_def login_step_def)

theorem login_requires_tls_witness:
  "\<exists>es n login. handshake_trace (gr_capabilities example_greeting) es n login \<and> ng_phase n = TDSQL_MYSQL_WAIT_CREDENTIALS \<and>
     length es = 3 \<and> es ! 1 = Tls_ready \<and> login \<noteq> None"
proof -
  obtain es n login where t: "handshake_trace (gr_capabilities example_greeting) es n login" "ng_phase n = TDSQL_MYSQL_WAIT_CREDENTIALS"
    using handshake_run [OF example_valid, of None 1 63 "[114]" "[]" "replicate 32 0" "replicate 400 0"
        "\<lparr>out_data = None, out_capacity = 0, out_size = 0\<rparr>"] example_login
    by (auto simp: handshake_character_set_def output_ok_def)
  from login_requires_tls [OF t] t show ?thesis by force
qed

text \<open>
  C21. A failed negotiation stays failed: no message and no TLS event changes it or yields a login.
\<close>

theorem negotiation_failure_latches:
  assumes "ng_phase n = TDSQL_MYSQL_HANDSHAKE_FAILED" and "negotiates n e status login n'"
  shows "n' = n \<and> login = None \<and> status = TDSQL_MYSQL_INVALID"
  using assms(2)
proof cases
  case (message data sz sequence tls wants)
  then show ?thesis using assms(1) by (auto simp: tdsql_mysql_negotiation_accept_def)
next
  case tls_ready
  then show ?thesis using assms(1) by (cases n) (auto simp: tdsql_mysql_negotiation_tls_ready_def)
qed

theorem negotiation_failure_latches_witness:
  "\<exists>n'. negotiates \<lparr>ng_header = header_zero, ng_advertised = 0, ng_phase = 5\<rparr> Tls_ready TDSQL_MYSQL_INVALID None n' \<and>
     n' = \<lparr>ng_header = header_zero, ng_advertised = 0, ng_phase = 5\<rparr>"
proof -
  let ?n = "\<lparr>ng_header = header_zero, ng_advertised = 0, ng_phase = 5\<rparr> :: tdsql_mysql_negotiation"
  have step: "negotiates ?n Tls_ready TDSQL_MYSQL_INVALID None ?n"
    by (simp add: negotiates_simps tdsql_mysql_negotiation_tls_ready_def)
  show ?thesis using negotiation_failure_latches [OF _ step] step by auto
qed

text \<open>
  C20. A conforming client gets through: the server writes its greeting, the client parses it,
  selects capabilities the server accepts, and its TLS request and login, built with the selection into
  buffers that are large enough, take the negotiation to the credentials phase with exactly the client's header, user,
  proof and method, and with its database, or none when the client names none.
\<close>

theorem handshake_completes:
  assumes greeting: "greeting_valid g version nonce"
    and db: "database \<noteq> None \<Longrightarrow> gr_capabilities g AND MYSQL_WIRE_CLIENT_CONNECT_WITH_DB \<noteq> 0"
    and "max_packet_size \<noteq> 0" and "handshake_character_set character_set"
    and login: "client_login_ok username auth database"
    and "length buffer1 = 32" and "400 \<le> length buffer2" and out: "output_ok out"
  shows "\<exists>capabilities ssl message len n l.
     tdsql_mysql_greeting_encode (Some g) (Some out) = encoded out (server_greeting g version nonce) \<and>
     mysql_wire_parse_greeting (Some (server_greeting g version nonce)) = Inr g \<and>
     mysql_wire_select_client_capabilities (Some g) True (database \<noteq> None) = (MYSQL_WIRE_STATUS_OK, Some capabilities) \<and>
     mysql_wire_build_ssl_request capabilities max_packet_size character_set (Some buffer1) (length buffer1) =
       (MYSQL_WIRE_STATUS_OK, Some ssl, Some 32) \<and>
     mysql_wire_build_handshake_response capabilities max_packet_size character_set (Some (username @ [0])) (Some auth) (length auth)
       (map_option (\<lambda>s. s @ [0]) database) (Some (TDSQL_MYSQL_AUTH_PLUGIN @ [0])) (Some buffer2) (length buffer2) =
       (MYSQL_WIRE_STATUS_OK, Some message, Some len) \<and>
     handshake_trace (gr_capabilities g) [Message (Some ssl) 32 1 False False, Tls_ready, Message (Some message) len 2 True True] n (Some l) \<and>
     ng_phase n = TDSQL_MYSQL_WAIT_CREDENTIALS \<and>
     l = \<lparr>lg_header = header_of capabilities max_packet_size character_set, lg_username = wire_bytes username,
          lg_database = (case database of None \<Rightarrow> wire_bytes_zero | Some s \<Rightarrow> wire_bytes s),
          lg_auth_response = wire_bytes auth, lg_plugin = wire_bytes TDSQL_MYSQL_AUTH_PLUGIN\<rparr>"
  by (rule handshake_run [OF assms])

theorem handshake_completes_witness:
  "\<exists>capabilities ssl message len n l.
     mysql_wire_select_client_capabilities (Some example_greeting) True True = (MYSQL_WIRE_STATUS_OK, Some capabilities) \<and>
     handshake_trace (gr_capabilities example_greeting)
       [Message (Some ssl) 32 1 False False, Tls_ready, Message (Some message) len 2 True True] n (Some l) \<and>
     ng_phase n = TDSQL_MYSQL_WAIT_CREDENTIALS \<and> lg_username l = wire_bytes [114] \<and> lg_database l = wire_bytes [100]"
proof -
  have "gr_capabilities example_greeting AND MYSQL_WIRE_CLIENT_CONNECT_WITH_DB \<noteq> 0" "handshake_character_set 63"
    by (simp_all add: example_greeting_def tdsql_mysql_server_capabilities_def handshake_required_def handshake_character_set_def)
  with handshake_completes [OF example_valid, of "Some [100]" 1 63 "[114]" "[]" "replicate 32 0" "replicate 400 0"
      "\<lparr>out_data = None, out_capacity = 0, out_size = 0\<rparr>"] example_login
  show ?thesis by (auto simp: conj_assoc output_ok_def) (metis tdsql_mysql_login.select_convs(2,3))
qed

end
