(* ===== verification/Mysql_Auth.thy ===== *)
theory Mysql_Auth
  imports Server_Handshake
begin

text \<open>
  Credentials on both sides: the client's answer to the challenge of the server, \<open>src/mysql/auth/auth.c\<close>, and the server's
  verifier for the password it receives over TLS, \<open>src/tidessql/server/mysql/password.c\<close>.

  The hash functions of the cryptographic libraries are parameters that may fail: \<open>sha256\<close> and \<open>sha1\<close> of a message, and
  \<open>pbkdf2\<close> of a password, a salt and a number of iterations; so are the fresh salt \<open>salt\<close> and the comparison \<open>secure_equal\<close>.  A C string
  is the bytes of its array up to the first zero.  Wiping of secrets leaves no trace in the
  results and is not modelled.
\<close>

unbundle bit_operations_syntax

section \<open>The client's response\<close>

abbreviation (input) MYSQL_AUTH_NONCE_BYTES :: nat where "MYSQL_AUTH_NONCE_BYTES \<equiv> 20"
abbreviation (input) MYSQL_AUTH_RESPONSE_CAPACITY :: nat where "MYSQL_AUTH_RESPONSE_CAPACITY \<equiv> 32"

definition MYSQL_AUTH_CACHING_SHA2_PASSWORD :: bytes where
  "MYSQL_AUTH_CACHING_SHA2_PASSWORD = map of_char ''caching_sha2_password''"

definition MYSQL_AUTH_NATIVE_PASSWORD :: bytes where
  "MYSQL_AUTH_NATIVE_PASSWORD = map of_char ''mysql_native_password''"

definition mysql_auth_caching_sha2 :: "(bytes \<Rightarrow> bytes option) \<Rightarrow> bytes \<Rightarrow> bytes \<Rightarrow> bytes \<Rightarrow> mysql_wire_status \<times> bytes" where
  "mysql_auth_caching_sha2 sha256 password nonce out =
     (case sha256 (c_string password) of None \<Rightarrow> (MYSQL_WIRE_STATUS_INVALID, out)
      | Some first \<Rightarrow>
        (case sha256 first of None \<Rightarrow> (MYSQL_WIRE_STATUS_INVALID, out)
         | Some second \<Rightarrow>
           (case sha256 (second @ take MYSQL_AUTH_NONCE_BYTES nonce) of None \<Rightarrow> (MYSQL_WIRE_STATUS_INVALID, out)
            | Some challenge \<Rightarrow> (MYSQL_WIRE_STATUS_OK, map2 (XOR) first challenge @ drop 32 out))))"

definition mysql_auth_native :: "(bytes \<Rightarrow> bytes option) \<Rightarrow> bytes \<Rightarrow> bytes \<Rightarrow> bytes \<Rightarrow> mysql_wire_status \<times> bytes" where
  "mysql_auth_native sha1 password nonce out =
     (case sha1 (c_string password) of None \<Rightarrow> (MYSQL_WIRE_STATUS_INVALID, out)
      | Some first \<Rightarrow>
        (case sha1 first of None \<Rightarrow> (MYSQL_WIRE_STATUS_INVALID, out)
         | Some second \<Rightarrow>
           (case sha1 (take MYSQL_AUTH_NONCE_BYTES nonce @ second) of None \<Rightarrow> (MYSQL_WIRE_STATUS_INVALID, out)
            | Some challenge \<Rightarrow> (MYSQL_WIRE_STATUS_OK, map2 (XOR) first challenge @ drop 20 out))))"

text \<open>The array \<open>out\<close> and the place of its size are returned as they are left; \<open>sz\<close> is the size they hold before.\<close>

definition mysql_auth_build_response ::
    "(bytes \<Rightarrow> bytes option) \<Rightarrow> (bytes \<Rightarrow> bytes option) \<Rightarrow> ptr \<Rightarrow> ptr \<Rightarrow> ptr \<Rightarrow> nat \<Rightarrow> ptr \<Rightarrow> nat option \<Rightarrow> mysql_wire_status \<times> ptr \<times> nat option" where
  "mysql_auth_build_response sha256 sha1 plugin password nonce nonce_size out sz =
     (case (plugin, password, nonce, out, sz) of
        (Some plugin, Some password, Some nonce, Some _, Some _) \<Rightarrow>
          if nonce_size \<noteq> MYSQL_AUTH_NONCE_BYTES then (MYSQL_WIRE_STATUS_INVALID, out, sz)
          else
            let cleared = replicate MYSQL_AUTH_RESPONSE_CAPACITY 0 in
            if c_string plugin \<noteq> MYSQL_AUTH_CACHING_SHA2_PASSWORD \<and> c_string plugin \<noteq> MYSQL_AUTH_NATIVE_PASSWORD
            then (MYSQL_WIRE_STATUS_INVALID, Some cleared, Some 0)
            else if hd password = 0 then (MYSQL_WIRE_STATUS_OK, Some cleared, Some 0)
            else if c_string plugin = MYSQL_AUTH_CACHING_SHA2_PASSWORD then
              (case mysql_auth_caching_sha2 sha256 password nonce cleared of (status, out) \<Rightarrow>
                 (status, Some out, Some (if status = MYSQL_WIRE_STATUS_OK then 32 else 0)))
            else
              (case mysql_auth_native sha1 password nonce cleared of (status, out) \<Rightarrow>
                 (status, Some out, Some (if status = MYSQL_WIRE_STATUS_OK then 20 else 0)))
      | _ \<Rightarrow> (MYSQL_WIRE_STATUS_INVALID, out, sz))"


section \<open>The server's verifier\<close>

abbreviation (input) TDSQL_MYSQL_PASSWORD_BYTES :: nat where "TDSQL_MYSQL_PASSWORD_BYTES \<equiv> 1024"
abbreviation (input) TDSQL_MYSQL_PASSWORD_MIN_ITERATIONS :: u32 where "TDSQL_MYSQL_PASSWORD_MIN_ITERATIONS \<equiv> 600000"
abbreviation (input) TDSQL_MYSQL_PASSWORD_MAX_ITERATIONS :: u32 where "TDSQL_MYSQL_PASSWORD_MAX_ITERATIONS \<equiv> 2000000"

record tdsql_mysql_password_record =
  pw_iterations :: u32
  pw_salt :: bytes
  pw_hash :: bytes

definition password_iterations :: "u32 \<Rightarrow> bool" where
  "password_iterations count \<longleftrightarrow> count \<ge> TDSQL_MYSQL_PASSWORD_MIN_ITERATIONS \<and> count \<le> TDSQL_MYSQL_PASSWORD_MAX_ITERATIONS"

definition password_bytes :: "ptr \<Rightarrow> nat \<Rightarrow> turbodb_status" where
  "password_bytes data sz =
     (case data of None \<Rightarrow> TURBODB_STATUS_INVALID_ARGUMENT
      | Some d \<Rightarrow>
        if sz = 0 then TURBODB_STATUS_INVALID_ARGUMENT
        else if sz > TDSQL_MYSQL_PASSWORD_BYTES then TURBODB_STATUS_LIMIT_EXCEEDED
        else if 0 \<in> set (take sz d) then TURBODB_STATUS_INVALID_ARGUMENT else TURBODB_STATUS_OK)"

definition password_hash :: "(bytes \<Rightarrow> bytes \<Rightarrow> u32 \<Rightarrow> bytes option) \<Rightarrow> tdsql_mysql_password_record \<Rightarrow> bytes \<Rightarrow> nat \<Rightarrow> turbodb_status + bytes" where
  "password_hash pbkdf2 record_value data sz =
     (case pbkdf2 (take sz data) (pw_salt record_value) (pw_iterations record_value) of
        None \<Rightarrow> Inl TURBODB_STATUS_INTERNAL_ERROR | Some hash \<Rightarrow> Inr hash)"

definition tdsql_mysql_password_make ::
    "(bytes \<Rightarrow> bytes \<Rightarrow> u32 \<Rightarrow> bytes option) \<Rightarrow> bytes option \<Rightarrow> ptr \<Rightarrow> nat \<Rightarrow> u32 \<Rightarrow> bool \<Rightarrow> turbodb_status + tdsql_mysql_password_record" where
  "tdsql_mysql_password_make pbkdf2 salt password sz iterations wants =
     (if \<not> wants \<or> \<not> password_iterations iterations then Inl TURBODB_STATUS_INVALID_ARGUMENT
      else if password_bytes password sz \<noteq> TURBODB_STATUS_OK then Inl (password_bytes password sz)
      else case salt of None \<Rightarrow> Inl TURBODB_STATUS_INTERNAL_ERROR
      | Some s \<Rightarrow>
        let fresh = \<lparr>pw_iterations = iterations, pw_salt = s, pw_hash = replicate 32 0\<rparr> in
        (case password_hash pbkdf2 fresh (case password of None \<Rightarrow> [] | Some d \<Rightarrow> d) sz of
           Inl status \<Rightarrow> Inl status | Inr hash \<Rightarrow> Inr (fresh\<lparr>pw_hash := hash\<rparr>)))"

definition tdsql_mysql_password_verify ::
    "(bytes \<Rightarrow> bytes \<Rightarrow> u32 \<Rightarrow> bytes option) \<Rightarrow> (bytes \<Rightarrow> bytes \<Rightarrow> bool) \<Rightarrow> tdsql_mysql_password_record option \<Rightarrow> ptr \<Rightarrow> nat \<Rightarrow> bool \<Rightarrow> bool
      \<Rightarrow> turbodb_status + bool" where
  "tdsql_mysql_password_verify pbkdf2 secure_equal record_value payload sz tls wants =
     (if \<not> tls then Inl TURBODB_STATUS_INVALID_STATE
      else case record_value of None \<Rightarrow> Inl TURBODB_STATUS_INVALID_ARGUMENT
      | Some r \<Rightarrow>
        if \<not> wants \<or> \<not> password_iterations (pw_iterations r) then Inl TURBODB_STATUS_INVALID_ARGUMENT
        else case payload of None \<Rightarrow> Inl TURBODB_STATUS_INVALID_ARGUMENT
        | Some d \<Rightarrow>
          if sz = 0 then Inl TURBODB_STATUS_INVALID_ARGUMENT
          else if sz > TDSQL_MYSQL_PASSWORD_BYTES + 1 then Inl TURBODB_STATUS_LIMIT_EXCEEDED
          else if d ! (sz - 1) \<noteq> 0 then Inl TURBODB_STATUS_INVALID_ARGUMENT
          else if password_bytes payload (sz - 1) \<noteq> TURBODB_STATUS_OK then Inl (password_bytes payload (sz - 1))
          else (case password_hash pbkdf2 r d (sz - 1) of Inl status \<Rightarrow> Inl status | Inr hash \<Rightarrow> Inr (secure_equal hash (pw_hash r))))"

text \<open>The request for the password, two bytes.\<close>

definition tdsql_mysql_full_auth_encode :: "tdsql_mysql_output option \<Rightarrow> tdsql_mysql_status \<times> tdsql_mysql_output option" where
  "tdsql_mysql_full_auth_encode out =
     (case out of None \<Rightarrow> (TDSQL_MYSQL_INVALID, None)
      | Some o' \<Rightarrow>
        if out_capacity o' < 2 then (TDSQL_MYSQL_LIMIT, out)
        else (TDSQL_MYSQL_OK, Some (o'\<lparr>out_data := map_option (\<lambda>d. [1, 4] @ drop 2 d) (out_data o'), out_size := 2\<rparr>)))"


section \<open>The response answers the challenge\<close>

text \<open>
  The check a server makes that keeps only the hash of the hash of the password: the response, combined with the hash of the stored value
  and the nonce, is a preimage of the stored value.
\<close>

definition server_accepts :: "(bytes \<Rightarrow> bytes) \<Rightarrow> bytes \<Rightarrow> bytes \<Rightarrow> bytes \<Rightarrow> bool" where
  "server_accepts hash kept joined response \<longleftrightarrow> hash (map2 (XOR) response (hash joined)) = kept"

lemma xor_twice: "length a = length b \<Longrightarrow> map2 (XOR) (map2 (XOR) a b) b = (a :: bytes)"
  by (induction a b rule: list_induct2) (simp_all add: xor.assoc)

lemma plugin_names: "MYSQL_AUTH_NATIVE_PASSWORD \<noteq> MYSQL_AUTH_CACHING_SHA2_PASSWORD"
  by (simp add: MYSQL_AUTH_NATIVE_PASSWORD_def MYSQL_AUTH_CACHING_SHA2_PASSWORD_def)

text \<open>
  C24. The client's response to a challenge is the one the server can check.  For both authentication methods, a nonce of 20 bytes, a password that is not
  empty, and digests that do not fail and have 32 and 20 bytes, the builder succeeds, reports the size of a digest, leaves the rest of the array zero, and the response passes the check of a
  server that knows only the hash of the hash of the password and the nonce it sent.
\<close>

theorem auth_response_accepted:
  assumes "\<And>m. length (h256 m) = 32" and "\<And>m. length (h1 m) = 20"
    and "c_string plugin = MYSQL_AUTH_CACHING_SHA2_PASSWORD \<or> c_string plugin = MYSQL_AUTH_NATIVE_PASSWORD"
    and "hd password \<noteq> 0" and "length nonce = 20"
  shows "\<exists>response. mysql_auth_build_response (Some \<circ> h256) (Some \<circ> h1) (Some plugin) (Some password) (Some nonce) 20 (Some out) (Some sz) =
      (MYSQL_WIRE_STATUS_OK, Some (response @ replicate (32 - length response) 0), Some (length response)) \<and>
    (if c_string plugin = MYSQL_AUTH_CACHING_SHA2_PASSWORD
     then length response = 32 \<and> server_accepts h256 (h256 (h256 (c_string password))) (h256 (h256 (c_string password)) @ nonce) response
     else length response = 20 \<and> server_accepts h1 (h1 (h1 (c_string password))) (nonce @ h1 (h1 (c_string password))) response)"
proof (cases "c_string plugin = MYSQL_AUTH_CACHING_SHA2_PASSWORD")
  case True
  let ?first = "h256 (c_string password)"
  let ?response = "map2 (XOR) ?first (h256 (h256 ?first @ nonce))"
  have "server_accepts h256 (h256 ?first) (h256 ?first @ nonce) ?response" by (simp add: server_accepts_def xor_twice assms(1))
  then show ?thesis using assms True
    by (intro exI [of _ ?response]) (simp add: mysql_auth_build_response_def mysql_auth_caching_sha2_def)
next
  case False
  let ?first = "h1 (c_string password)"
  let ?response = "map2 (XOR) ?first (h1 (nonce @ h1 ?first))"
  have "server_accepts h1 (h1 ?first) (nonce @ h1 ?first) ?response" by (simp add: server_accepts_def xor_twice assms(2))
  then show ?thesis using assms False
    by (intro exI [of _ ?response]) (simp add: mysql_auth_build_response_def mysql_auth_native_def)
qed

theorem auth_response_accepted_witness:
  "\<exists>response. mysql_auth_build_response (Some \<circ> (\<lambda>m. replicate 32 (sum_list m))) (Some \<circ> (\<lambda>m. replicate 20 (sum_list m)))
       (Some (MYSQL_AUTH_NATIVE_PASSWORD @ [0])) (Some [0x70, 0x77, 0]) (Some (replicate 20 7)) 20 (Some (replicate 32 0)) (Some 0) =
     (MYSQL_WIRE_STATUS_OK, Some (response @ replicate 12 0), Some 20)"
proof -
  have "c_string (MYSQL_AUTH_NATIVE_PASSWORD @ [0]) = MYSQL_AUTH_NATIVE_PASSWORD"
    by (simp add: c_string_def MYSQL_AUTH_NATIVE_PASSWORD_def)
  then show ?thesis
    using auth_response_accepted [of "\<lambda>m. replicate 32 (sum_list m)" "\<lambda>m. replicate 20 (sum_list m)" "MYSQL_AUTH_NATIVE_PASSWORD @ [0]"
        "[0x70, 0x77, 0]" "replicate 20 7" "replicate 32 0" 0] plugin_names by auto
qed


section \<open>The verifier accepts the password\<close>

lemma password_bytes_ok:
  "password_bytes (Some d) sz = TURBODB_STATUS_OK \<longleftrightarrow> 0 < sz \<and> sz \<le> 1024 \<and> 0 \<notin> set (take sz d)"
  by (auto simp: password_bytes_def)

lemma made_record:
  assumes "tdsql_mysql_password_make pbkdf2 salt (Some password) (length password) iterations wants = Inr r"
  shows "password_iterations (pw_iterations r)" and "pbkdf2 password (pw_salt r) (pw_iterations r) = Some (pw_hash r)"
    and "password \<noteq> []" and "length password \<le> 1024" and "0 \<notin> set password"
  using assms
  by (auto simp: tdsql_mysql_password_make_def password_hash_def password_bytes_ok Let_def split: if_splits option.splits sum.splits)

text \<open>
  C25. The server's password verifier accepts the password it was made for, and only over TLS.  For a record made from a password, the
  payload of that password with its terminator verifies; every payload that is decided at all came over TLS, is a nonempty
  password of at most 1024 bytes without zeros, followed by one zero, and is accepted exactly when its derived key under
  the salt and the iterations of the record is the recorded one.
\<close>

theorem password_verify_correct:
  assumes "tdsql_mysql_password_make pbkdf2 salt (Some password) (length password) iterations wants = Inr r"
    and "\<And>a b. secure_equal a b \<longleftrightarrow> a = b"
  shows "tdsql_mysql_password_verify pbkdf2 secure_equal (Some r) (Some (password @ [0])) (length password + 1) True True = Inr True \<and>
    (\<forall>payload tls v. tdsql_mysql_password_verify pbkdf2 secure_equal (Some r) (Some payload) (length payload) tls True = Inr v \<longrightarrow>
       tls \<and> (\<exists>q. payload = q @ [0] \<and> q \<noteq> [] \<and> length q \<le> 1024 \<and> 0 \<notin> set q \<and>
         (v \<longleftrightarrow> pbkdf2 q (pw_salt r) (pw_iterations r) = pbkdf2 password (pw_salt r) (pw_iterations r))))"
proof (intro conjI allI impI)
  note made = made_record [OF assms(1)]
  show "tdsql_mysql_password_verify pbkdf2 secure_equal (Some r) (Some (password @ [0])) (length password + 1) True True = Inr True"
    using made by (simp add: tdsql_mysql_password_verify_def password_bytes_ok password_hash_def assms(2) nth_append)
  fix payload tls v
  assume verified: "tdsql_mysql_password_verify pbkdf2 secure_equal (Some r) (Some payload) (length payload) tls True = Inr v"
  then show tls by (auto simp: tdsql_mysql_password_verify_def split: if_splits)
  have last: "payload \<noteq> []" "payload ! (length payload - 1) = 0"
    and q: "0 < length payload - 1" "length payload - 1 \<le> 1024" "0 \<notin> set (take (length payload - 1) payload)"
    using verified by (auto simp: tdsql_mysql_password_verify_def password_bytes_ok split: if_splits)
  have "last payload = 0" using last by (simp add: last_conv_nth)
  then have "payload = butlast payload @ [0]" using append_butlast_last_id [OF last(1)] by simp
  moreover have "butlast payload = take (length payload - 1) payload" by (rule butlast_conv_take)
  moreover have "v \<longleftrightarrow> pbkdf2 (take (length payload - 1) payload) (pw_salt r) (pw_iterations r) = pbkdf2 password (pw_salt r) (pw_iterations r)"
    using verified made(2) by (auto simp: tdsql_mysql_password_verify_def password_hash_def assms(2) split: if_splits option.splits)
  ultimately show "\<exists>q. payload = q @ [0] \<and> q \<noteq> [] \<and> length q \<le> 1024 \<and> 0 \<notin> set q \<and>
      (v \<longleftrightarrow> pbkdf2 q (pw_salt r) (pw_iterations r) = pbkdf2 password (pw_salt r) (pw_iterations r))"
    using q by (intro exI [of _ "butlast payload"]) auto
qed

theorem password_verify_correct_witness:
  "\<exists>r. tdsql_mysql_password_make (\<lambda>p s n. Some (p @ s)) (Some (replicate 16 7)) (Some [0x70, 0x77]) 2 600000 True = Inr r \<and>
     tdsql_mysql_password_verify (\<lambda>p s n. Some (p @ s)) (=) (Some r) (Some [0x70, 0x77, 0]) 3 True True = Inr True"
proof -
  obtain r where r: "tdsql_mysql_password_make (\<lambda>p s n. Some (p @ s)) (Some (replicate 16 7)) (Some [0x70, 0x77]) (length [0x70, 0x77 :: u8]) 600000 True = Inr r"
    by (simp add: tdsql_mysql_password_make_def password_iterations_def password_bytes_def password_hash_def)
  then show ?thesis using password_verify_correct [OF r, of "(=)"] by (auto simp: numeral_eq_Suc)
qed

end
