(* ===== verification/Server_Authenticate.thy ===== *)
theory Server_Authenticate
  imports Mysql_Auth
begin

text \<open>
  The owner of one login, \<open>src/tidessql/server/mysql/authenticate.c\<close> and \<open>authenticate.h\<close>: the policy of accounts and databases, and the
  state machine that asks for the password, verifies and authorises it, opens one session of the engine, answers, and hands
  the session over once.

  The engine's calls \<open>tdsql_database_connect\<close>, \<open>tdsql_connection_state\<close> and \<open>tdsql_connection_close\<close> are the parameters
  \<open>connect\<close>, \<open>session\<close> and \<open>close\<close> of the operations that make them, with nothing assumed; every event of a run has its own.  \<open>'d\<close> and \<open>'c\<close> are the
  handles \<open>tdsql_database *\<close> and \<open>tdsql_connection *\<close>, \<open>None\<close> the null handle.
  A policy is immutable while it is borrowed, so its owner holds the value.
\<close>

unbundle bit_operations_syntax

section \<open>Data\<close>

abbreviation (input) "TDSQL_MYSQL_MAX_ACCOUNTS \<equiv> 1024 :: nat"
abbreviation (input) "TDSQL_MYSQL_MAX_DATABASES \<equiv> 64 :: nat"
abbreviation (input) "TDSQL_MYSQL_AUTH_PAYLOAD_BYTES \<equiv> 128 :: nat"
abbreviation (input) "TDSQL_MYSQL_AUTH_SEND_FULL \<equiv> 1 :: int"
abbreviation (input) "TDSQL_MYSQL_AUTH_WAIT_PASSWORD \<equiv> 2 :: int"
abbreviation (input) "TDSQL_MYSQL_AUTH_SEND_RESULT \<equiv> 3 :: int"
abbreviation (input) "TDSQL_MYSQL_AUTH_READY \<equiv> 4 :: int"
abbreviation (input) "TDSQL_MYSQL_AUTH_TRANSFERRED \<equiv> 5 :: int"
abbreviation (input) "TDSQL_MYSQL_AUTH_FAILED \<equiv> 6 :: int"

abbreviation (input) "AUTH_FULL_SEQUENCE \<equiv> 3 :: u8"
abbreviation (input) "AUTH_DENIED \<equiv> 1045 :: u16"
abbreviation (input) "AUTH_DB_DENIED \<equiv> 1044 :: u16"
abbreviation (input) "AUTH_DB_UNKNOWN \<equiv> 1049 :: u16"
abbreviation (input) "AUTH_CONNECTION_LIMIT \<equiv> 1040 :: u16"
abbreviation (input) "AUTH_MEMORY \<equiv> 1037 :: u16"
abbreviation (input) "AUTH_INTERNAL \<equiv> 1105 :: u16"

record vstr =
  vs_data :: ptr
  vs_len :: nat

record tdsql_mysql_account =
  ac_username :: vstr
  ac_password :: tdsql_mysql_password_record
  ac_databases :: u64
  ac_default_database :: nat

record 'd tdsql_mysql_database_binding =
  db_name :: vstr
  db_database :: "'d option"

record 'd tdsql_mysql_auth_policy =
  po_accounts :: "tdsql_mysql_account list option"
  po_account_count :: nat
  po_max_accounts :: nat
  po_databases :: "'d tdsql_mysql_database_binding list option"
  po_database_count :: nat

record tdsql_session_state =
  ss_autocommit :: bool
  ss_in_transaction :: bool
  ss_transaction_read_only :: bool
  ss_session_read_only :: bool
  ss_busy :: bool
  ss_rollback_required :: bool
  ss_warning_count :: u64
  ss_failure :: turbodb_status

record ('d, 'c) tdsql_mysql_auth =
  au_policy :: "'d tdsql_mysql_auth_policy option"
  au_connection :: "'c option"
  au_ok :: mysql_wire_ok_packet
  au_account :: nat
  au_database :: nat
  au_failure :: turbodb_status
  au_cleanup_failure :: turbodb_status
  au_error_code :: u16
  au_sequence :: u8
  au_next_sequence :: u8
  au_phase :: int
  au_emitted :: bool

definition ok_zero :: mysql_wire_ok_packet where
  "ok_zero = \<lparr>ok_header = 0, ok_affected_rows = 0, ok_last_insert_id = 0, ok_status_flags = 0, ok_warnings = 0,
     ok_info = wire_bytes_zero, ok_session_state = wire_bytes_zero\<rparr>"

definition auth_zero :: "('d, 'c) tdsql_mysql_auth" where
  "auth_zero = \<lparr>au_policy = None, au_connection = None, au_ok = ok_zero, au_account = 0, au_database = 0,
     au_failure = TURBODB_STATUS_OK, au_cleanup_failure = TURBODB_STATUS_OK, au_error_code = 0,
     au_sequence = 0, au_next_sequence = 0, au_phase = 0, au_emitted = False\<rparr>"


section \<open>The policy\<close>

definition vstr_bytes :: "vstr \<Rightarrow> bytes" where
  "vstr_bytes v = take (vs_len v) (case vs_data v of None \<Rightarrow> [] | Some d \<Rightarrow> d)"

definition auth_name :: "vstr \<Rightarrow> nat \<Rightarrow> bool" where
  "auth_name name limit \<longleftrightarrow> vs_data name \<noteq> None \<and> vs_len name \<noteq> 0 \<and> vs_len name \<le> limit \<and> 0 \<notin> set (vstr_bytes name)"

definition auth_same :: "vstr \<Rightarrow> vstr \<Rightarrow> bool" where
  "auth_same first second \<longleftrightarrow> vs_len first = vs_len second \<and> (vs_len first = 0 \<or> vstr_bytes first = vstr_bytes second)"

definition tdsql_mysql_auth_policy_init ::
    "bool \<Rightarrow> 'd tdsql_mysql_auth_policy option \<Rightarrow> turbodb_status + 'd tdsql_mysql_auth_policy" where
  "tdsql_mysql_auth_policy_init wants config =
     (case config of None \<Rightarrow> Inl TURBODB_STATUS_INVALID_ARGUMENT
      | Some p \<Rightarrow>
        (case (po_accounts p, po_databases p) of
           (Some accounts, Some databases) \<Rightarrow>
             if \<not> wants \<or> po_account_count p = 0 \<or> po_database_count p = 0 \<or> po_max_accounts p = 0 \<or>
                po_max_accounts p > TDSQL_MYSQL_MAX_ACCOUNTS
             then Inl TURBODB_STATUS_INVALID_ARGUMENT
             else if po_account_count p > po_max_accounts p \<or> po_database_count p > TDSQL_MYSQL_MAX_DATABASES
             then Inl TURBODB_STATUS_LIMIT_EXCEEDED
             else
               let mask = (if po_database_count p = TDSQL_MYSQL_MAX_DATABASES then - 1 else push_bit (po_database_count p) 1 - 1) in
               if \<exists>i\<in>set [0..<po_database_count p].
                    db_database (databases ! i) = None \<or> \<not> auth_name (db_name (databases ! i)) TDSQL_MYSQL_DATABASE_BYTES \<or>
                    (\<exists>j\<in>set [0..<i]. auth_same (db_name (databases ! i)) (db_name (databases ! j)))
               then Inl TURBODB_STATUS_INVALID_ARGUMENT
               else if \<exists>i\<in>set [0..<po_account_count p]. let account = accounts ! i in
                    \<not> auth_name (ac_username account) TDSQL_MYSQL_USERNAME_BYTES \<or> ac_databases account = 0 \<or>
                    ac_databases account AND NOT mask \<noteq> 0 \<or> ac_default_database account \<ge> po_database_count p \<or>
                    ac_databases account AND push_bit (ac_default_database account) 1 = 0 \<or>
                    pw_iterations (ac_password account) < TDSQL_MYSQL_PASSWORD_MIN_ITERATIONS \<or>
                    pw_iterations (ac_password account) > TDSQL_MYSQL_PASSWORD_MAX_ITERATIONS \<or>
                    pw_iterations (ac_password account) \<noteq> pw_iterations (ac_password (accounts ! 0)) \<or>
                    (\<exists>j\<in>set [0..<i]. auth_same (ac_username account) (ac_username (accounts ! j)))
               then Inl TURBODB_STATUS_INVALID_ARGUMENT
               else Inr p
         | _ \<Rightarrow> Inl TURBODB_STATUS_INVALID_ARGUMENT))"


section \<open>Operations of the owner\<close>

definition auth_find :: "(nat \<Rightarrow> bool) \<Rightarrow> nat \<Rightarrow> nat" where
  "auth_find same count = (case find same [0..<count] of None \<Rightarrow> SIZE_MAX | Some i \<Rightarrow> i)"

definition login_vstr :: "mysql_wire_bytes \<Rightarrow> vstr" where
  "login_vstr b = \<lparr>vs_data = wb_data b, vs_len = wb_length b\<rparr>"

definition tdsql_mysql_auth_begin ::
    "('d, 'c) tdsql_mysql_auth option \<Rightarrow> 'd tdsql_mysql_auth_policy option \<Rightarrow> tdsql_mysql_negotiation option \<Rightarrow> tdsql_mysql_login option
      \<Rightarrow> turbodb_status \<times> ('d, 'c) tdsql_mysql_auth option" where
  "tdsql_mysql_auth_begin out policy gate login =
     (case (out, policy, gate, login) of
        (Some owner, Some p, Some g, Some l) \<Rightarrow>
          (case (po_accounts p, po_databases p) of
             (Some accounts, Some databases) \<Rightarrow>
               if po_account_count p = 0 \<or> po_database_count p = 0 then (TURBODB_STATUS_INVALID_ARGUMENT, out)
               else if au_phase owner \<noteq> 0 \<or> au_connection owner \<noteq> None then (TURBODB_STATUS_BUSY, out)
               else if ng_phase g \<noteq> TDSQL_MYSQL_WAIT_CREDENTIALS \<or>
                  lh_capabilities (lg_header l) \<noteq> lh_capabilities (ng_header g) \<or>
                  lh_max_packet_size (lg_header l) \<noteq> lh_max_packet_size (ng_header g) \<or>
                  lh_character_set (lg_header l) \<noteq> lh_character_set (ng_header g)
               then (TURBODB_STATUS_INVALID_STATE, out)
               else
                 let user = login_vstr (lg_username l); name = login_vstr (lg_database l) in
                 if \<not> auth_name user TDSQL_MYSQL_USERNAME_BYTES \<or> (vs_len name \<noteq> 0 \<and> \<not> auth_name name TDSQL_MYSQL_DATABASE_BYTES)
                 then (TURBODB_STATUS_INVALID_ARGUMENT, out)
                 else
                   let account = auth_find (\<lambda>i. auth_same user (ac_username (accounts ! i))) (po_account_count p);
                       database =
                         (if vs_len name = 0 then (if account \<noteq> SIZE_MAX then ac_default_database (accounts ! account) else SIZE_MAX)
                          else auth_find (\<lambda>i. auth_same name (db_name (databases ! i))) (po_database_count p))
                   in (TURBODB_STATUS_OK, Some (auth_zero\<lparr>au_policy := policy, au_account := account, au_database := database,
                         au_sequence := AUTH_FULL_SEQUENCE, au_phase := TDSQL_MYSQL_AUTH_SEND_FULL\<rparr>))
           | _ \<Rightarrow> (TURBODB_STATUS_INVALID_ARGUMENT, out))
      | _ \<Rightarrow> (TURBODB_STATUS_INVALID_ARGUMENT, out))"

definition auth_plan_error :: "('d, 'c) tdsql_mysql_auth \<Rightarrow> turbodb_status \<Rightarrow> u16 \<Rightarrow> ('d, 'c) tdsql_mysql_auth" where
  "auth_plan_error auth status code =
     auth\<lparr>au_failure := status, au_error_code := code, au_phase := TDSQL_MYSQL_AUTH_SEND_RESULT\<rparr>"

definition auth_sdk_code :: "turbodb_status \<Rightarrow> u16" where
  "auth_sdk_code status =
     (if status = TURBODB_STATUS_LIMIT_EXCEEDED then AUTH_CONNECTION_LIMIT
      else if status = TURBODB_STATUS_OUT_OF_MEMORY then AUTH_MEMORY else AUTH_INTERNAL)"

definition auth_open ::
    "('d option \<Rightarrow> turbodb_status \<times> 'c option) \<Rightarrow> ('c option \<Rightarrow> turbodb_status \<times> tdsql_session_state) \<Rightarrow> 'd tdsql_mysql_database_binding
      \<Rightarrow> ('d, 'c) tdsql_mysql_auth \<Rightarrow> ('d, 'c) tdsql_mysql_auth" where
  "auth_open connect session binding auth =
     (let (status, connection) = connect (db_database binding);
          auth = auth\<lparr>au_connection := connection\<rparr>
      in if status \<noteq> TURBODB_STATUS_OK then auth_plan_error auth status (auth_sdk_code status)
      else
        let (status, state) = session connection;
            status = (if status = TURBODB_STATUS_OK \<and> (ss_failure state \<noteq> TURBODB_STATUS_OK \<or> ss_busy state \<or> ss_in_transaction state)
                      then TURBODB_STATUS_INVALID_STATE else status)
        in if status \<noteq> TURBODB_STATUS_OK then auth_plan_error auth status (auth_sdk_code status)
        else auth\<lparr>au_ok := ok_zero\<lparr>ok_status_flags := (if ss_autocommit state then TDSQL_MYSQL_SERVER_AUTOCOMMIT else 0),
                      ok_warnings := (if ss_warning_count state > 0xffff then 0xffff else ucast (ss_warning_count state))\<rparr>,
                   au_phase := TDSQL_MYSQL_AUTH_SEND_RESULT\<rparr>)"

definition tdsql_mysql_auth_accept ::
    "(bytes \<Rightarrow> bytes \<Rightarrow> u32 \<Rightarrow> bytes option) \<Rightarrow> (bytes \<Rightarrow> bytes \<Rightarrow> bool) \<Rightarrow> ('d option \<Rightarrow> turbodb_status \<times> 'c option)
      \<Rightarrow> ('c option \<Rightarrow> turbodb_status \<times> tdsql_session_state) \<Rightarrow> ('d, 'c) tdsql_mysql_auth option \<Rightarrow> ptr \<Rightarrow> nat \<Rightarrow> u8 \<Rightarrow> bool
      \<Rightarrow> turbodb_status \<times> ('d, 'c) tdsql_mysql_auth option" where
  "tdsql_mysql_auth_accept pbkdf2 secure_equal connect session owner payload sz sequence tls =
     (case owner of None \<Rightarrow> (TURBODB_STATUS_INVALID_ARGUMENT, owner)
      | Some auth \<Rightarrow>
        (case au_policy auth of None \<Rightarrow> (TURBODB_STATUS_INVALID_ARGUMENT, owner)
         | Some p \<Rightarrow>
           if au_phase auth \<noteq> TDSQL_MYSQL_AUTH_WAIT_PASSWORD \<or> \<not> tls \<or> sequence \<noteq> au_sequence auth
           then (TURBODB_STATUS_INVALID_STATE, Some (auth\<lparr>au_phase := TDSQL_MYSQL_AUTH_FAILED\<rparr>))
           else
             let account = the (po_accounts p) ! (if au_account auth = SIZE_MAX then 0 else au_account auth);
                 result = tdsql_mysql_password_verify pbkdf2 secure_equal (Some (ac_password account)) payload sz True True;
                 auth = auth\<lparr>au_sequence := sequence + 1\<rparr>
             in (TURBODB_STATUS_OK, Some
               (case result of
                  Inl status \<Rightarrow>
                    auth_plan_error auth status
                      (if status = TURBODB_STATUS_INVALID_ARGUMENT \<or> status = TURBODB_STATUS_LIMIT_EXCEEDED
                       then AUTH_DENIED else auth_sdk_code status)
                | Inr verified \<Rightarrow>
                    if \<not> verified \<or> au_account auth = SIZE_MAX then auth_plan_error auth TURBODB_STATUS_CONNECTION_ERROR AUTH_DENIED
                    else if au_database auth = SIZE_MAX then auth_plan_error auth TURBODB_STATUS_CONNECTION_ERROR AUTH_DB_UNKNOWN
                    else if ac_databases account AND push_bit (au_database auth) 1 = 0
                    then auth_plan_error auth TURBODB_STATUS_CONNECTION_ERROR AUTH_DB_DENIED
                    else auth_open connect session (the (po_databases p) ! au_database auth) auth))))"

definition auth_sqlstate :: "u16 \<Rightarrow> bytes" where
  "auth_sqlstate code = map of_char
     (if code = AUTH_DENIED then ''28000'' else if code = AUTH_DB_DENIED \<or> code = AUTH_DB_UNKNOWN then ''42000''
      else if code = AUTH_CONNECTION_LIMIT then ''08004'' else if code = AUTH_MEMORY then ''HY001'' else ''HY000'')"

definition auth_reason :: "u16 \<Rightarrow> bytes" where
  "auth_reason code = map of_char
     (if code = AUTH_DENIED then ''Access denied'' else if code = AUTH_DB_DENIED then ''Database access denied''
      else if code = AUTH_DB_UNKNOWN then ''Unknown logical database''
      else if code = AUTH_CONNECTION_LIMIT then ''SQL session capacity exceeded''
      else if code = AUTH_MEMORY then ''Authentication resources exhausted'' else ''Authentication initialization failed'')"

text \<open>\<open>array\<close> is what the uninitialised local array holds when a reply is encoded into it.\<close>

definition tdsql_mysql_auth_emit ::
    "bytes \<Rightarrow> bytes \<Rightarrow> ('d, 'c) tdsql_mysql_auth option \<Rightarrow> tdsql_mysql_output option
      \<Rightarrow> turbodb_status \<times> ('d, 'c) tdsql_mysql_auth option \<times> tdsql_mysql_output option" where
  "tdsql_mysql_auth_emit dp array owner out =
     (case (owner, out) of
        (Some auth, Some reply) \<Rightarrow>
          if out_data reply = None then (TURBODB_STATUS_INVALID_ARGUMENT, owner, out)
          else if au_emitted auth then (TURBODB_STATUS_BUSY, owner, out)
          else if au_phase auth \<noteq> TDSQL_MYSQL_AUTH_SEND_FULL \<and> au_phase auth \<noteq> TDSQL_MYSQL_AUTH_SEND_RESULT
          then (TURBODB_STATUS_INVALID_STATE, owner, out)
          else
            let payload = Some \<lparr>out_data = Some array, out_capacity = TDSQL_MYSQL_AUTH_PAYLOAD_BYTES, out_size = 0\<rparr>;
                (status, payload) =
                  (if au_phase auth = TDSQL_MYSQL_AUTH_SEND_FULL then tdsql_mysql_full_auth_encode payload
                   else if au_error_code auth \<noteq> 0
                   then tdsql_mysql_err_encode dp (au_error_code auth) (Some (auth_sqlstate (au_error_code auth)))
                          (wire_bytes (auth_reason (au_error_code auth))) payload
                   else tdsql_mysql_ok_encode dp (Some (au_ok auth)) False payload);
                (status, reply, sequence) =
                  (if status = TDSQL_MYSQL_OK
                   then tdsql_mysql_frame_encode (out_data (the payload)) (out_size (the payload)) (au_sequence auth) reply
                   else (status, reply, None))
            in if status \<noteq> TDSQL_MYSQL_OK
               then (if status = TDSQL_MYSQL_LIMIT then TURBODB_STATUS_LIMIT_EXCEEDED else TURBODB_STATUS_INTERNAL_ERROR, owner, Some reply)
               else (TURBODB_STATUS_OK,
                 Some (auth\<lparr>au_next_sequence := (case sequence of None \<Rightarrow> au_sequence auth | Some s \<Rightarrow> s), au_emitted := True\<rparr>), Some reply)
      | _ \<Rightarrow> (TURBODB_STATUS_INVALID_ARGUMENT, owner, out))"

definition tdsql_mysql_auth_acknowledge :: "('d, 'c) tdsql_mysql_auth option \<Rightarrow> turbodb_status \<times> ('d, 'c) tdsql_mysql_auth option" where
  "tdsql_mysql_auth_acknowledge owner =
     (case owner of None \<Rightarrow> (TURBODB_STATUS_INVALID_STATE, owner)
      | Some auth \<Rightarrow>
        if \<not> au_emitted auth \<or> (au_phase auth \<noteq> TDSQL_MYSQL_AUTH_SEND_FULL \<and> au_phase auth \<noteq> TDSQL_MYSQL_AUTH_SEND_RESULT)
        then (TURBODB_STATUS_INVALID_STATE, owner)
        else (TURBODB_STATUS_OK, Some (auth\<lparr>au_sequence := au_next_sequence auth, au_emitted := False,
          au_phase := (if au_phase auth = TDSQL_MYSQL_AUTH_SEND_FULL then TDSQL_MYSQL_AUTH_WAIT_PASSWORD
                       else if au_error_code auth \<noteq> 0 then TDSQL_MYSQL_AUTH_FAILED else TDSQL_MYSQL_AUTH_READY)\<rparr>)))"

definition tdsql_mysql_auth_take ::
    "('d, 'c) tdsql_mysql_auth option \<Rightarrow> bool \<Rightarrow> turbodb_status \<times> ('d, 'c) tdsql_mysql_auth option \<times> 'c option" where
  "tdsql_mysql_auth_take owner wants =
     (case owner of None \<Rightarrow> (TURBODB_STATUS_INVALID_ARGUMENT, owner, None)
      | Some auth \<Rightarrow>
        if \<not> wants then (TURBODB_STATUS_INVALID_ARGUMENT, owner, None)
        else if au_phase auth \<noteq> TDSQL_MYSQL_AUTH_READY \<or> au_connection auth = None then (TURBODB_STATUS_INVALID_STATE, owner, None)
        else (TURBODB_STATUS_OK, Some (auth\<lparr>au_connection := None, au_phase := TDSQL_MYSQL_AUTH_TRANSFERRED\<rparr>), au_connection auth))"

definition tdsql_mysql_auth_reject ::
    "('d, 'c) tdsql_mysql_auth option \<Rightarrow> turbodb_status \<Rightarrow> turbodb_status \<times> ('d, 'c) tdsql_mysql_auth option" where
  "tdsql_mysql_auth_reject owner status =
     (case owner of None \<Rightarrow> (TURBODB_STATUS_INVALID_ARGUMENT, owner)
      | Some auth \<Rightarrow>
        if status = TURBODB_STATUS_OK then (TURBODB_STATUS_INVALID_ARGUMENT, owner)
        else if au_phase auth \<noteq> TDSQL_MYSQL_AUTH_SEND_RESULT \<or> au_emitted auth \<or> au_error_code auth \<noteq> 0
        then (TURBODB_STATUS_INVALID_STATE, owner)
        else (TURBODB_STATUS_OK, Some (auth_plan_error auth status (auth_sdk_code status))))"

definition tdsql_mysql_auth_dispose ::
    "('c option \<Rightarrow> turbodb_status) \<Rightarrow> ('d, 'c) tdsql_mysql_auth option \<Rightarrow> turbodb_status \<times> ('d, 'c) tdsql_mysql_auth option" where
  "tdsql_mysql_auth_dispose close owner =
     (case owner of None \<Rightarrow> (TURBODB_STATUS_OK, owner)
      | Some auth \<Rightarrow>
        if au_cleanup_failure auth \<noteq> TURBODB_STATUS_OK then (au_cleanup_failure auth, owner)
        else
          let auth = auth\<lparr>au_phase := TDSQL_MYSQL_AUTH_FAILED\<rparr>; status = close (au_connection auth) in
          if status \<noteq> TURBODB_STATUS_OK
          then (status, Some (if status \<noteq> TURBODB_STATUS_BUSY then auth\<lparr>au_cleanup_failure := status\<rparr> else auth))
          else (TURBODB_STATUS_OK, Some auth_zero))"


section \<open>Runs of one login\<close>

text \<open>What a caller may do with an owner, in any order, with the results the engine gives to each call.\<close>

datatype ('d, 'c) auth_event =
    AUTH_ACCEPT ptr nat u8 bool "'d option \<Rightarrow> turbodb_status \<times> 'c option" "'c option \<Rightarrow> turbodb_status \<times> tdsql_session_state"
  | AUTH_EMIT bytes "tdsql_mysql_output option"
  | AUTH_ACKNOWLEDGE
  | AUTH_TAKE bool
  | AUTH_REJECT turbodb_status
  | AUTH_DISPOSE "'c option \<Rightarrow> turbodb_status"

fun auth_event_step ::
    "(bytes \<Rightarrow> bytes \<Rightarrow> u32 \<Rightarrow> bytes option) \<Rightarrow> (bytes \<Rightarrow> bytes \<Rightarrow> bool) \<Rightarrow> bytes \<Rightarrow> ('d, 'c) auth_event \<Rightarrow> ('d, 'c) tdsql_mysql_auth
      \<Rightarrow> ('d, 'c) tdsql_mysql_auth option \<times> 'c option" where
  "auth_event_step pbkdf2 equal dp (AUTH_ACCEPT payload sz sequence tls connect session) auth =
     (snd (tdsql_mysql_auth_accept pbkdf2 equal connect session (Some auth) payload sz sequence tls), None)"
| "auth_event_step pbkdf2 equal dp (AUTH_EMIT array out) auth = (fst (snd (tdsql_mysql_auth_emit dp array (Some auth) out)), None)"
| "auth_event_step pbkdf2 equal dp AUTH_ACKNOWLEDGE auth = (snd (tdsql_mysql_auth_acknowledge (Some auth)), None)"
| "auth_event_step pbkdf2 equal dp (AUTH_TAKE wants) auth = snd (tdsql_mysql_auth_take (Some auth) wants)"
| "auth_event_step pbkdf2 equal dp (AUTH_REJECT status) auth = (snd (tdsql_mysql_auth_reject (Some auth) status), None)"
| "auth_event_step pbkdf2 equal dp (AUTH_DISPOSE close) auth = (snd (tdsql_mysql_auth_dispose close (Some auth)), None)"

text \<open>A run of one login under a validated policy: its events so far, the owner, and the sessions handed over.\<close>

inductive auth_run for pbkdf2 equal dp policy gate login where
  auth_run_begin:
    "tdsql_mysql_auth_policy_init True (Some policy) = Inr policy \<Longrightarrow>
     tdsql_mysql_auth_begin (Some auth_zero) (Some policy) (Some gate) (Some login) = (TURBODB_STATUS_OK, Some auth) \<Longrightarrow>
     auth_run pbkdf2 equal dp policy gate login [] auth []"
| auth_run_event:
    "auth_run pbkdf2 equal dp policy gate login events auth taken \<Longrightarrow>
     auth_event_step pbkdf2 equal dp event auth = (Some auth', handed) \<Longrightarrow>
     auth_run pbkdf2 equal dp policy gate login (events @ [event]) auth' (taken @ (case handed of None \<Rightarrow> [] | Some c \<Rightarrow> [c]))"


section \<open>A session is handed over to the account that logged in, once\<close>

text \<open>
  A login may have a session of the engine: the caller received a payload over TLS that the record of its account verifies, the
  account is the only one of that name and was granted the database, the one the login names or else the default one,
  and the engine opened the session on that database.
\<close>

definition auth_granted where
  "auth_granted pbkdf2 equal policy login events c \<longleftrightarrow>
     (\<exists>payload sz sequence connect session accounts databases i d.
        AUTH_ACCEPT payload sz sequence True connect session \<in> set events \<and>
        po_accounts policy = Some accounts \<and> po_databases policy = Some databases \<and>
        i < po_account_count policy \<and> d < po_database_count policy \<and>
        (\<forall>j < po_account_count policy. auth_same (login_vstr (lg_username login)) (ac_username (accounts ! j)) \<longleftrightarrow> j = i) \<and>
        tdsql_mysql_password_verify pbkdf2 equal (Some (ac_password (accounts ! i))) payload sz True True = Inr True \<and>
        bit (ac_databases (accounts ! i)) d \<and>
        (if wb_length (lg_database login) = 0 then d = ac_default_database (accounts ! i)
         else auth_same (login_vstr (lg_database login)) (db_name (databases ! d))) \<and>
        connect (db_database (databases ! d)) = (TURBODB_STATUS_OK, Some c))"

lemma auth_granted_more: "auth_granted pbkdf2 equal policy login events c \<Longrightarrow> auth_granted pbkdf2 equal policy login (events @ later) c"
  unfolding auth_granted_def by (metis UnI1 set_append)

lemma auth_find_some: "auth_find same count = i \<Longrightarrow> i \<noteq> SIZE_MAX \<Longrightarrow> i < count \<and> same i"
  by (auto simp: auth_find_def find_Some_iff split: option.splits)

lemma auth_same_sym: "auth_same a b \<Longrightarrow> auth_same b a"
  by (auto simp: auth_same_def)

lemma auth_same_trans: "auth_same a b \<Longrightarrow> auth_same b c \<Longrightarrow> auth_same a c"
  by (auto simp: auth_same_def)

lemma grant_bit: "(w :: u64) AND 2 ^ d = 0 \<longleftrightarrow> \<not> bit w d"
  by (rule and_exp_eq_0_iff_not_bit)

lemma policy_valid:
  assumes "tdsql_mysql_auth_policy_init wants (Some policy) = Inr checked"
  obtains accounts databases where "checked = policy" "po_accounts policy = Some accounts" "po_databases policy = Some databases"
    "\<And>i j. i < po_account_count policy \<Longrightarrow> j < po_account_count policy \<Longrightarrow> auth_same (ac_username (accounts ! i)) (ac_username (accounts ! j)) \<Longrightarrow> i = j"
    "\<And>i. i < po_account_count policy \<Longrightarrow> ac_default_database (accounts ! i) < po_database_count policy"
    "\<And>i j. i < po_database_count policy \<Longrightarrow> j < po_database_count policy \<Longrightarrow> auth_same (db_name (databases ! i)) (db_name (databases ! j)) \<Longrightarrow> i = j"
    "po_account_count policy \<le> TDSQL_MYSQL_MAX_ACCOUNTS" "po_database_count policy \<le> TDSQL_MYSQL_MAX_DATABASES"
proof -
  obtain accounts databases where spans: "po_accounts policy = Some accounts" "po_databases policy = Some databases"
    using assms by (auto simp: tdsql_mysql_auth_policy_init_def split: option.splits)
  have checks: "checked = policy"
    "\<And>i. i < po_account_count policy \<Longrightarrow> ac_default_database (accounts ! i) < po_database_count policy"
    "\<And>i j. i < po_account_count policy \<Longrightarrow> j < i \<Longrightarrow> \<not> auth_same (ac_username (accounts ! i)) (ac_username (accounts ! j))"
    "\<And>i j. i < po_database_count policy \<Longrightarrow> j < i \<Longrightarrow> \<not> auth_same (db_name (databases ! i)) (db_name (databases ! j))"
    "po_account_count policy \<le> TDSQL_MYSQL_MAX_ACCOUNTS" "po_database_count policy \<le> TDSQL_MYSQL_MAX_DATABASES"
    using assms spans by (auto simp: tdsql_mysql_auth_policy_init_def Let_def not_le split: if_splits)
  show thesis
  proof (rule that [OF checks(1) spans _ checks(2) _ checks(5,6)])
    fix i j
    show "i = j" if "i < po_account_count policy" "j < po_account_count policy" "auth_same (ac_username (accounts ! i)) (ac_username (accounts ! j))"
      using that checks(3) auth_same_sym by (metis linorder_neqE_nat)
    show "i = j" if "i < po_database_count policy" "j < po_database_count policy" "auth_same (db_name (databases ! i)) (db_name (databases ! j))"
      using that checks(4) auth_same_sym by (metis linorder_neqE_nat)
  qed
qed

text \<open>The account and the database an owner selects for a login, where it selects one.\<close>

definition auth_selected where
  "auth_selected policy login account database \<longleftrightarrow>
     (\<exists>accounts databases. po_accounts policy = Some accounts \<and> po_databases policy = Some databases \<and>
        (account \<noteq> SIZE_MAX \<and> database \<noteq> SIZE_MAX \<longrightarrow>
           account < po_account_count policy \<and> database < po_database_count policy \<and>
           (\<forall>j < po_account_count policy. auth_same (login_vstr (lg_username login)) (ac_username (accounts ! j)) \<longleftrightarrow> j = account) \<and>
           (if wb_length (lg_database login) = 0 then database = ac_default_database (accounts ! account)
            else auth_same (login_vstr (lg_database login)) (db_name (databases ! database)))))"

lemma auth_begin_selects:
  assumes "tdsql_mysql_auth_policy_init True (Some policy) = Inr policy"
    and "tdsql_mysql_auth_begin (Some auth_zero) (Some policy) (Some gate) (Some login) = (TURBODB_STATUS_OK, Some auth)"
  shows "au_phase auth = TDSQL_MYSQL_AUTH_SEND_FULL" and "au_policy auth = Some policy"
    and "auth_selected policy login (au_account auth) (au_database auth)"
proof -
  obtain accounts databases where valid: "po_accounts policy = Some accounts" "po_databases policy = Some databases"
    "\<And>i j. i < po_account_count policy \<Longrightarrow> j < po_account_count policy \<Longrightarrow> auth_same (ac_username (accounts ! i)) (ac_username (accounts ! j)) \<Longrightarrow> i = j"
    "\<And>i. i < po_account_count policy \<Longrightarrow> ac_default_database (accounts ! i) < po_database_count policy"
    using policy_valid [OF assms(1)] by metis
  let ?user = "login_vstr (lg_username login)" and ?name = "login_vstr (lg_database login)"
  have begun: "au_phase auth = TDSQL_MYSQL_AUTH_SEND_FULL" "au_policy auth = Some policy"
    "au_account auth = auth_find (\<lambda>i. auth_same ?user (ac_username (accounts ! i))) (po_account_count policy)"
    "au_database auth =
       (if vs_len ?name = 0 then (if au_account auth \<noteq> SIZE_MAX then ac_default_database (accounts ! au_account auth) else SIZE_MAX)
        else auth_find (\<lambda>i. auth_same ?name (db_name (databases ! i))) (po_database_count policy))"
    using assms(2) valid(1,2) by (auto simp: tdsql_mysql_auth_begin_def Let_def split: if_splits)
  have "au_account auth < po_account_count policy \<and> au_database auth < po_database_count policy \<and>
      (\<forall>j < po_account_count policy. auth_same ?user (ac_username (accounts ! j)) \<longleftrightarrow> j = au_account auth) \<and>
      (if wb_length (lg_database login) = 0 then au_database auth = ac_default_database (accounts ! au_account auth)
       else auth_same ?name (db_name (databases ! au_database auth)))"
    if some: "au_account auth \<noteq> SIZE_MAX" "au_database auth \<noteq> SIZE_MAX"
  proof -
    have account: "au_account auth < po_account_count policy" "auth_same ?user (ac_username (accounts ! au_account auth))"
      using auth_find_some [OF begun(3) [symmetric] some(1)] by auto
    have "\<forall>j < po_account_count policy. auth_same ?user (ac_username (accounts ! j)) \<longleftrightarrow> j = au_account auth"
      using account valid(3) auth_same_sym auth_same_trans by meson
    moreover have "au_database auth < po_database_count policy \<and>
        (if wb_length (lg_database login) = 0 then au_database auth = ac_default_database (accounts ! au_account auth)
         else auth_same ?name (db_name (databases ! au_database auth)))"
    proof (cases "wb_length (lg_database login) = 0")
      case True
      then show ?thesis using begun(4) some(1) valid(4) [OF account(1)] by (simp add: login_vstr_def)
    next
      case False
      then have "auth_find (\<lambda>i. auth_same ?name (db_name (databases ! i))) (po_database_count policy) = au_database auth"
        using begun(4) by (simp add: login_vstr_def)
      from auth_find_some [OF this some(2)] False show ?thesis by simp
    qed
    ultimately show ?thesis using account(1) by blast
  qed
  then show "au_phase auth = TDSQL_MYSQL_AUTH_SEND_FULL" "au_policy auth = Some policy" "auth_selected policy login (au_account auth) (au_database auth)"
    using begun(1,2) valid(1,2) unfolding auth_selected_def by blast+
qed

definition auth_invariant where
  "auth_invariant pbkdf2 equal policy login events auth taken \<longleftrightarrow>
     (taken = [] \<or> (\<exists>c. taken = [c] \<and> auth_granted pbkdf2 equal policy login events c)) \<and>
     (au_phase auth \<in> {TDSQL_MYSQL_AUTH_SEND_FULL .. TDSQL_MYSQL_AUTH_READY} \<longrightarrow>
        taken = [] \<and> au_policy auth = Some policy \<and> auth_selected policy login (au_account auth) (au_database auth)) \<and>
     (au_phase auth = TDSQL_MYSQL_AUTH_READY \<or> au_phase auth = TDSQL_MYSQL_AUTH_SEND_RESULT \<and> au_error_code auth = 0 \<longrightarrow>
        (\<forall>c. au_connection auth = Some c \<longrightarrow> auth_granted pbkdf2 equal policy login events c))"

lemma auth_sdk_code_nonzero [simp]: "auth_sdk_code status \<noteq> 0"
  by (simp add: auth_sdk_code_def)

lemma auth_plan_error_fields [simp]:
  "au_phase (auth_plan_error auth status code) = TDSQL_MYSQL_AUTH_SEND_RESULT" "au_error_code (auth_plan_error auth status code) = code"
  "au_policy (auth_plan_error auth status code) = au_policy auth" "au_account (auth_plan_error auth status code) = au_account auth"
  "au_database (auth_plan_error auth status code) = au_database auth"
  by (simp_all add: auth_plan_error_def)

lemma auth_open_fields:
  "au_phase (auth_open connect session binding auth) = TDSQL_MYSQL_AUTH_SEND_RESULT"
  "au_policy (auth_open connect session binding auth) = au_policy auth" "au_account (auth_open connect session binding auth) = au_account auth"
  "au_database (auth_open connect session binding auth) = au_database auth"
  by (simp_all add: auth_open_def auth_plan_error_def Let_def split: prod.splits)

lemma auth_open_connects:
  "au_error_code (auth_open connect session binding auth) = 0 \<Longrightarrow> au_connection (auth_open connect session binding auth) = Some c \<Longrightarrow>
   connect (db_database binding) = (TURBODB_STATUS_OK, Some c)"
  by (auto simp: auth_open_def Let_def split: prod.splits if_splits)

lemma auth_invariant_kept:
  assumes "auth_invariant pbkdf2 equal policy login events auth taken"
    and "au_phase auth' = au_phase auth \<or> au_phase auth' \<notin> {TDSQL_MYSQL_AUTH_SEND_FULL .. TDSQL_MYSQL_AUTH_READY} \<or>
      au_phase auth = TDSQL_MYSQL_AUTH_SEND_FULL \<and> au_phase auth' = TDSQL_MYSQL_AUTH_WAIT_PASSWORD \<or>
      au_phase auth = TDSQL_MYSQL_AUTH_SEND_RESULT \<and> au_error_code auth = 0 \<and> au_phase auth' = TDSQL_MYSQL_AUTH_READY"
    and "au_phase auth' \<in> {TDSQL_MYSQL_AUTH_SEND_FULL .. TDSQL_MYSQL_AUTH_READY} \<Longrightarrow> au_policy auth' = au_policy auth \<and>
      au_account auth' = au_account auth \<and> au_database auth' = au_database auth \<and> au_connection auth' = au_connection auth \<and>
      (au_error_code auth' = 0 \<longrightarrow> au_error_code auth = 0)"
  shows "auth_invariant pbkdf2 equal policy login (events @ [event]) auth' taken"
  using assms unfolding auth_invariant_def by (auto intro: auth_granted_more)

lemma auth_accept_step:
  assumes "auth_invariant pbkdf2 equal policy login events auth taken"
    and "tdsql_mysql_auth_accept pbkdf2 equal connect session (Some auth) payload sz sequence tls = (status, Some auth')"
  shows "auth_invariant pbkdf2 equal policy login (events @ [AUTH_ACCEPT payload sz sequence tls connect session]) auth' taken"
proof (cases "au_policy auth = None \<or> au_phase auth \<noteq> TDSQL_MYSQL_AUTH_WAIT_PASSWORD \<or> \<not> tls \<or> sequence \<noteq> au_sequence auth")
  case True
  then show ?thesis using assms(2)
    by (intro auth_invariant_kept [OF assms(1)]) (auto simp: tdsql_mysql_auth_accept_def split: option.splits if_splits)
next
  case False
  then have phase: "au_phase auth = TDSQL_MYSQL_AUTH_WAIT_PASSWORD" and tls by auto
  have inv: "taken = []" "au_policy auth = Some policy" and selected: "auth_selected policy login (au_account auth) (au_database auth)"
    using assms(1) phase unfolding auth_invariant_def by auto
  obtain accounts databases where spans: "po_accounts policy = Some accounts" "po_databases policy = Some databases"
    using selected unfolding auth_selected_def by auto
  let ?events = "events @ [AUTH_ACCEPT payload sz sequence tls connect session]"
  have fields: "au_phase auth' = TDSQL_MYSQL_AUTH_SEND_RESULT" "au_policy auth' = Some policy"
    "au_account auth' = au_account auth" "au_database auth' = au_database auth"
    using assms(2) False inv(2)
    by (auto simp: tdsql_mysql_auth_accept_def Let_def auth_open_fields split: if_splits sum.splits)
  have "auth_granted pbkdf2 equal policy login ?events c" if result: "au_error_code auth' = 0" "au_connection auth' = Some c" for c
  proof -
    let ?account = "accounts ! au_account auth" and ?binding = "databases ! au_database auth"
    have passed: "au_account auth \<noteq> SIZE_MAX" "au_database auth \<noteq> SIZE_MAX"
      "tdsql_mysql_password_verify pbkdf2 equal (Some (ac_password ?account)) payload sz True True = Inr True"
      "bit (ac_databases ?account) (au_database auth)"
      "auth' = auth_open connect session ?binding (auth\<lparr>au_sequence := sequence + 1\<rparr>)"
      using assms(2) False inv(2) spans result(1)
      by (auto simp: tdsql_mysql_auth_accept_def Let_def grant_bit split: if_splits sum.splits)
    have "connect (db_database ?binding) = (TURBODB_STATUS_OK, Some c)"
      by (rule auth_open_connects [OF result [unfolded passed(5)]])
    then show ?thesis using selected passed spans \<open>tls\<close> unfolding auth_granted_def auth_selected_def
      by (intro exI [of _ payload] exI [of _ sz] exI [of _ sequence] exI [of _ connect] exI [of _ session] exI [of _ accounts]
        exI [of _ databases] exI [of _ "au_account auth"] exI [of _ "au_database auth"]) auto
  qed
  then show ?thesis using inv(1) fields selected unfolding auth_invariant_def by simp
qed

lemma auth_take_step:
  assumes "auth_invariant pbkdf2 equal policy login events auth taken"
    and "tdsql_mysql_auth_take (Some auth) wants = (status, Some auth', handed)"
  shows "auth_invariant pbkdf2 equal policy login (events @ [event]) auth' (taken @ (case handed of None \<Rightarrow> [] | Some c \<Rightarrow> [c]))"
proof (cases handed)
  case None
  then show ?thesis using assms(2) auth_invariant_kept [OF assms(1), of auth event]
    by (auto simp: tdsql_mysql_auth_take_def split: if_splits)
next
  case (Some c)
  then have "au_phase auth = TDSQL_MYSQL_AUTH_READY" "au_connection auth = Some c" "au_phase auth' = TDSQL_MYSQL_AUTH_TRANSFERRED"
    using assms(2) by (auto simp: tdsql_mysql_auth_take_def split: if_splits)
  then show ?thesis using assms(1) Some unfolding auth_invariant_def by (auto intro: auth_granted_more)
qed

lemma auth_emit_fields:
  assumes "tdsql_mysql_auth_emit dp array (Some auth) out = (status, Some auth', reply)"
  shows "\<exists>s e. auth' = auth\<lparr>au_next_sequence := s, au_emitted := e\<rparr>"
proof -
  have "auth' = auth \<or> (\<exists>s. auth' = auth\<lparr>au_next_sequence := s, au_emitted := True\<rparr>)"
    using assms by (auto simp: tdsql_mysql_auth_emit_def Let_def split: option.splits if_splits prod.splits)
  moreover have "auth = auth\<lparr>au_next_sequence := au_next_sequence auth, au_emitted := au_emitted auth\<rparr>" by simp
  ultimately show ?thesis by metis
qed

lemma auth_event_invariant:
  assumes inv: "auth_invariant pbkdf2 equal policy login events auth taken"
    and step: "auth_event_step pbkdf2 equal dp event auth = (Some auth', handed)"
  shows "auth_invariant pbkdf2 equal policy login (events @ [event]) auth' (taken @ (case handed of None \<Rightarrow> [] | Some c \<Rightarrow> [c]))"
proof (cases event)
  case (AUTH_ACCEPT payload sz sequence tls connect session)
  then show ?thesis using step auth_accept_step [OF inv] by (cases "tdsql_mysql_auth_accept pbkdf2 equal connect session (Some auth) payload sz sequence tls") auto
next
  case (AUTH_EMIT array out)
  then obtain s e where "auth' = auth\<lparr>au_next_sequence := s, au_emitted := e\<rparr>" "handed = None"
    using step auth_emit_fields by (cases "tdsql_mysql_auth_emit dp array (Some auth) out") fastforce
  then show ?thesis by (simp add: auth_invariant_kept [OF inv])
next
  case AUTH_ACKNOWLEDGE
  then show ?thesis using step
    by (auto simp: tdsql_mysql_auth_acknowledge_def split: if_splits intro!: auth_invariant_kept [OF inv])
next
  case (AUTH_TAKE wants)
  then show ?thesis using step auth_take_step [OF inv] by (cases "tdsql_mysql_auth_take (Some auth) wants") auto
next
  case (AUTH_REJECT status)
  then show ?thesis using step
    by (auto simp: tdsql_mysql_auth_reject_def auth_plan_error_def split: if_splits intro!: auth_invariant_kept [OF inv])
next
  case (AUTH_DISPOSE close)
  then show ?thesis using step
    by (auto simp: tdsql_mysql_auth_dispose_def auth_zero_def Let_def split: if_splits intro!: auth_invariant_kept [OF inv])
qed

section \<open>A granted login is served\<close>

lemma frame_encode_prefix:
  assumes "sz \<le> TDSQL_MYSQL_AUTH_PAYLOAD_BYTES"
  shows "tdsql_mysql_frame_encode (Some p) sz sequence out = tdsql_mysql_frame_encode (Some (take sz p)) sz sequence out"
proof -
  have "sz div max_packet = 0" using assms by (simp add: max_packet_value)
  moreover have "unat (of_nat sz :: u32) = sz" using assms by (simp add: unat_of_nat)
  moreover have "\<not> max_packet < sz" using assms by (simp add: max_packet_value)
  ultimately show ?thesis by (simp add: tdsql_mysql_frame_encode_def Let_def split: prod.splits)
qed

text \<open>\<open>reply_room out\<close>: owned storage with room for a reply of up to seven bytes.\<close>

definition reply_room :: "tdsql_mysql_output \<Rightarrow> bool" where
  "reply_room out \<longleftrightarrow> (\<exists>buf. out_data out = Some buf \<and> out_capacity out \<le> length buf) \<and> 11 \<le> out_capacity out \<and> out_capacity out \<le> SIZE_MAX"

lemma frame_encode_reply:
  assumes "reply_room out" and "length xs \<le> 7"
  shows "\<exists>reply. tdsql_mysql_frame_encode (Some (memcpy array 0 xs)) (length xs) sequence out = (TDSQL_MYSQL_OK, reply, Some (sequence + 1))"
proof -
  have "length xs div max_packet = 0" using assms(2) by (simp add: max_packet_value)
  moreover have "take (length xs) (memcpy array 0 xs) = xs" by (simp add: memcpy_def)
  ultimately show ?thesis
    using assms frame_encode_prefix [of "length xs" "memcpy array 0 xs"] by (auto simp: reply_room_def frame_encode_spec length_frames)
qed

lemma auth_emit_full:
  assumes "reply_room out" and "length array = TDSQL_MYSQL_AUTH_PAYLOAD_BYTES"
    and "au_phase auth = TDSQL_MYSQL_AUTH_SEND_FULL" and "\<not> au_emitted auth"
  shows "fst (snd (tdsql_mysql_auth_emit dp array (Some auth) (Some out))) = Some (auth\<lparr>au_next_sequence := au_sequence auth + 1, au_emitted := True\<rparr>)"
proof -
  obtain reply where "tdsql_mysql_frame_encode (Some (memcpy array 0 [1, 4])) 2 (au_sequence auth) out = (TDSQL_MYSQL_OK, reply, Some (au_sequence auth + 1))"
    using frame_encode_reply [OF assms(1), of "[1, 4]" array "au_sequence auth"] by (auto simp: numeral_2_eq_2)
  then show ?thesis using assms
    by (auto simp: tdsql_mysql_auth_emit_def tdsql_mysql_full_auth_encode_def reply_room_def memcpy_def numeral_2_eq_2)
qed

lemma auth_emit_ok:
  assumes "reply_room out" and "length array = TDSQL_MYSQL_AUTH_PAYLOAD_BYTES"
    and "au_phase auth = TDSQL_MYSQL_AUTH_SEND_RESULT" and "\<not> au_emitted auth" and "au_error_code auth = 0"
    and "au_ok auth = ok_zero\<lparr>ok_status_flags := if autocommit then TDSQL_MYSQL_SERVER_AUTOCOMMIT else 0, ok_warnings := warnings\<rparr>"
  shows "fst (snd (tdsql_mysql_auth_emit dp array (Some auth) (Some out))) = Some (auth\<lparr>au_next_sequence := au_sequence auth + 1, au_emitted := True\<rparr>)"
proof -
  let ?xs = "ok_payload 0 0 0 (ok_status_flags (au_ok auth)) (ok_warnings (au_ok auth)) []"
  let ?array = "\<lparr>out_data = Some array, out_capacity = TDSQL_MYSQL_AUTH_PAYLOAD_BYTES, out_size = 0\<rparr>"
  have short: "length ?xs = 7" by (simp add: ok_payload_def lenenc_int_def u16_bytes_def)
  have "ok_packet_valid (au_ok auth) False"
    by (simp add: assms(6) ok_packet_valid_def ok_zero_def wire_bytes_zero_def status_flags_def wire_span_ok_def span_ok_def)
  moreover have "ok_header (au_ok auth) = 0" "ok_affected_rows (au_ok auth) = 0" "ok_last_insert_id (au_ok auth) = 0" "wire_text (ok_info (au_ok auth)) = []"
    by (simp_all add: assms(6) ok_zero_def wire_bytes_zero_def wire_text_def wire_value_def)
  ultimately have "puts_new (response_write dp (RESPONSE_OK (Some (au_ok auth)) False)) ?xs" using puts_ok by metis
  then have "tdsql_mysql_ok_encode dp (Some (au_ok auth)) False (Some ?array) = encoded ?array ?xs"
    unfolding tdsql_mysql_ok_encode_def by (rule response_encode_puts) (simp add: output_ok_def assms(2))
  moreover obtain reply where "tdsql_mysql_frame_encode (Some (memcpy array 0 ?xs)) 7 (au_sequence auth) out = (TDSQL_MYSQL_OK, reply, Some (au_sequence auth + 1))"
    using frame_encode_reply [OF assms(1), of ?xs array "au_sequence auth"] short by auto
  ultimately show ?thesis using assms(1,3-5) short
    by (auto simp: tdsql_mysql_auth_emit_def reply_room_def encoded_def)
qed

lemma auth_run_silent:
  assumes "auth_run pbkdf2 equal dp policy gate login events auth taken" and "auth_event_step pbkdf2 equal dp event auth = (Some auth', None)"
  shows "auth_run pbkdf2 equal dp policy gate login (events @ [event]) auth' taken"
  using auth_run_event [OF assms] by simp

lemma auth_find_unique:
  assumes "i < count" and "\<And>j. j < count \<Longrightarrow> same j \<longleftrightarrow> j = i"
  shows "auth_find same count = i"
  using assms by (auto simp: auth_find_def find_None_iff find_Some_iff split: option.splits)

lemma auth_find_name:
  assumes "i < count" and "auth_same name (names i)"
    and distinct: "\<And>i j. i < count \<Longrightarrow> j < count \<Longrightarrow> auth_same (names i) (names j) \<Longrightarrow> i = j"
  shows "auth_find (\<lambda>j. auth_same name (names j)) count = i"
proof (rule auth_find_unique [OF assms(1)])
  fix j assume "j < count"
  then show "auth_same name (names j) \<longleftrightarrow> j = i"
    using assms(2) distinct [OF assms(1), of j] auth_same_trans [OF auth_same_sym [OF assms(2)], of "names j"] by blast
qed

lemma auth_begin_known:
  assumes "tdsql_mysql_auth_policy_init True (Some policy) = Inr policy"
    and "tdsql_mysql_auth_begin (Some auth_zero) (Some policy) (Some gate) (Some login) = (TURBODB_STATUS_OK, Some auth)"
    and spans: "po_accounts policy = Some accounts" "po_databases policy = Some databases"
    and account: "i < po_account_count policy" "auth_same (login_vstr (lg_username login)) (ac_username (accounts ! i))"
    and database: "if wb_length (lg_database login) = 0 then d = ac_default_database (accounts ! i)
      else d < po_database_count policy \<and> auth_same (login_vstr (lg_database login)) (db_name (databases ! d))"
  shows "auth = auth_zero\<lparr>au_policy := Some policy, au_account := i, au_database := d, au_sequence := AUTH_FULL_SEQUENCE,
      au_phase := TDSQL_MYSQL_AUTH_SEND_FULL\<rparr>"
    and "i < SIZE_MAX" and "d < SIZE_MAX"
proof -
  have valid: "\<And>i j. i < po_account_count policy \<Longrightarrow> j < po_account_count policy \<Longrightarrow> auth_same (ac_username (accounts ! i)) (ac_username (accounts ! j)) \<Longrightarrow> i = j"
    "\<And>i. i < po_account_count policy \<Longrightarrow> ac_default_database (accounts ! i) < po_database_count policy"
    "\<And>i j. i < po_database_count policy \<Longrightarrow> j < po_database_count policy \<Longrightarrow> auth_same (db_name (databases ! i)) (db_name (databases ! j)) \<Longrightarrow> i = j"
    "po_account_count policy \<le> TDSQL_MYSQL_MAX_ACCOUNTS" "po_database_count policy \<le> TDSQL_MYSQL_MAX_DATABASES"
    using policy_valid [OF assms(1)] spans by (metis option.inject)+
  have "d < po_database_count policy" using database valid(2) [OF account(1)] by (auto split: if_splits)
  then show small: "i < SIZE_MAX" "d < SIZE_MAX" using account(1) valid(4,5) by (simp_all add: SIZE_MAX_def)
  have "auth_find (\<lambda>j. auth_same (login_vstr (lg_username login)) (ac_username (accounts ! j))) (po_account_count policy) = i"
    by (rule auth_find_name [where names = "\<lambda>j. ac_username (accounts ! j)", OF account valid(1)])
  moreover have "auth_find (\<lambda>j. auth_same (login_vstr (lg_database login)) (db_name (databases ! j))) (po_database_count policy) = d"
    if "wb_length (lg_database login) \<noteq> 0"
    by (rule auth_find_name [where names = "\<lambda>j. db_name (databases ! j)", OF _ _ valid(3)]) (use database that in simp_all)
  ultimately show "auth = auth_zero\<lparr>au_policy := Some policy, au_account := i, au_database := d, au_sequence := AUTH_FULL_SEQUENCE,
      au_phase := TDSQL_MYSQL_AUTH_SEND_FULL\<rparr>"
    using assms(2) spans database small
    by (auto simp: tdsql_mysql_auth_begin_def Let_def login_vstr_def split: if_splits)
qed

text \<open>The exchange of request, password and reply, from an owner that has just begun with account \<open>i\<close> and database \<open>d\<close>.\<close>

lemma auth_exchange:
  fixes auth :: "('d, 'c) tdsql_mysql_auth" and c :: 'c
  assumes "auth = auth_zero\<lparr>au_policy := Some policy, au_account := i, au_database := d, au_sequence := AUTH_FULL_SEQUENCE,
      au_phase := TDSQL_MYSQL_AUTH_SEND_FULL\<rparr>"
    and "auth_run pbkdf2 equal dp policy gate login [] auth []" and "i < SIZE_MAX" and "d < SIZE_MAX"
    and spans: "po_accounts policy = Some accounts" "po_databases policy = Some databases"
    and verified: "tdsql_mysql_password_verify pbkdf2 equal (Some (ac_password (accounts ! i))) payload sz True True = Inr True"
    and granted: "bit (ac_databases (accounts ! i)) d"
    and opened: "connect (db_database (databases ! d)) = (TURBODB_STATUS_OK, Some c)" "session (Some c) = (TURBODB_STATUS_OK, state)"
    and idle: "ss_failure state = TURBODB_STATUS_OK" "\<not> ss_busy state" "\<not> ss_in_transaction state"
    and room: "reply_room first" "reply_room second" "length array = 128" "length array' = 128"
  shows "\<exists>auth'. auth_run pbkdf2 equal dp policy gate login
    [AUTH_EMIT array (Some first), AUTH_ACKNOWLEDGE, AUTH_ACCEPT payload sz 4 True connect session,
     AUTH_EMIT array' (Some second), AUTH_ACKNOWLEDGE, AUTH_TAKE True] auth' [c]"
proof -
  let ?asked = "auth\<lparr>au_sequence := 4, au_next_sequence := 4, au_phase := TDSQL_MYSQL_AUTH_WAIT_PASSWORD\<rparr>"
  let ?ok = "ok_zero\<lparr>ok_status_flags := if ss_autocommit state then TDSQL_MYSQL_SERVER_AUTOCOMMIT else 0,
    ok_warnings := if ss_warning_count state > 0xffff then 0xffff else ucast (ss_warning_count state)\<rparr>"
  let ?open = "?asked\<lparr>au_connection := Some c, au_ok := ?ok, au_sequence := 5, au_phase := TDSQL_MYSQL_AUTH_SEND_RESULT\<rparr>"
  note run = auth_run_silent [OF assms(2), of "AUTH_EMIT array (Some first)" "auth\<lparr>au_next_sequence := 4, au_emitted := True\<rparr>"]
  have "auth_run pbkdf2 equal dp policy gate login [AUTH_EMIT array (Some first)] (auth\<lparr>au_next_sequence := 4, au_emitted := True\<rparr>) []"
    using run auth_emit_full [OF room(1,3), of auth dp] by (simp add: assms(1) auth_zero_def)
  from auth_run_silent [OF this, of AUTH_ACKNOWLEDGE ?asked]
  have "auth_run pbkdf2 equal dp policy gate login [AUTH_EMIT array (Some first), AUTH_ACKNOWLEDGE] ?asked []"
    by (simp add: assms(1) auth_zero_def tdsql_mysql_auth_acknowledge_def)
  from auth_run_silent [OF this, of "AUTH_ACCEPT payload sz 4 True connect session" ?open]
  have "auth_run pbkdf2 equal dp policy gate login
      [AUTH_EMIT array (Some first), AUTH_ACKNOWLEDGE, AUTH_ACCEPT payload sz 4 True connect session] ?open []"
    using assms(3,4) spans verified granted opened idle
    by (simp add: assms(1) auth_zero_def tdsql_mysql_auth_accept_def auth_open_def grant_bit Let_def)
  from auth_run_silent [OF this, of "AUTH_EMIT array' (Some second)" "?open\<lparr>au_next_sequence := 6, au_emitted := True\<rparr>"]
  have "auth_run pbkdf2 equal dp policy gate login
      [AUTH_EMIT array (Some first), AUTH_ACKNOWLEDGE, AUTH_ACCEPT payload sz 4 True connect session, AUTH_EMIT array' (Some second)]
      (?open\<lparr>au_next_sequence := 6, au_emitted := True\<rparr>) []"
    using auth_emit_ok [OF room(2,4), where auth = ?open and autocommit = "ss_autocommit state" and warnings = "ok_warnings ?ok" and dp = dp] by (simp add: assms(1) auth_zero_def)
  from auth_run_silent [OF this, of AUTH_ACKNOWLEDGE "?open\<lparr>au_sequence := 6, au_next_sequence := 6, au_phase := TDSQL_MYSQL_AUTH_READY\<rparr>"]
  have ready: "auth_run pbkdf2 equal dp policy gate login
      [AUTH_EMIT array (Some first), AUTH_ACKNOWLEDGE, AUTH_ACCEPT payload sz 4 True connect session, AUTH_EMIT array' (Some second),
       AUTH_ACKNOWLEDGE] (?open\<lparr>au_sequence := 6, au_next_sequence := 6, au_phase := TDSQL_MYSQL_AUTH_READY\<rparr>) []"
    by (simp add: assms(1) auth_zero_def tdsql_mysql_auth_acknowledge_def)
  show ?thesis
    using auth_run_event [OF ready, of "AUTH_TAKE True" _ "Some c"] by (auto simp: assms(1) auth_zero_def tdsql_mysql_auth_take_def)
qed


section \<open>Witnesses\<close>

text \<open>A policy of one account \<open>a\<close> and one database \<open>d\<close>, a login of that account, and a key derivation that only joins password and salt.\<close>

definition demo_derive :: "bytes \<Rightarrow> bytes \<Rightarrow> u32 \<Rightarrow> bytes option" where
  "demo_derive p s n = Some (p @ s)"

definition demo_name :: "u8 \<Rightarrow> vstr" where
  "demo_name b = \<lparr>vs_data = Some [b], vs_len = 1\<rparr>"

definition demo_account :: tdsql_mysql_account where
  "demo_account = \<lparr>ac_username = demo_name 0x61, ac_password = \<lparr>pw_iterations = 600000, pw_salt = [7], pw_hash = [0x70, 7]\<rparr>,
     ac_databases = 1, ac_default_database = 0\<rparr>"

definition demo_policy :: "nat tdsql_mysql_auth_policy" where
  "demo_policy = \<lparr>po_accounts = Some [demo_account], po_account_count = 1, po_max_accounts = 128,
     po_databases = Some [\<lparr>db_name = demo_name 0x64, db_database = Some 3\<rparr>], po_database_count = 1\<rparr>"

definition demo_header :: tdsql_mysql_login_header where
  "demo_header = \<lparr>lh_capabilities = 0, lh_max_packet_size = 0, lh_character_set = 45\<rparr>"

definition demo_gate :: tdsql_mysql_negotiation where
  "demo_gate = \<lparr>ng_header = demo_header, ng_advertised = 0, ng_phase = TDSQL_MYSQL_WAIT_CREDENTIALS\<rparr>"

definition demo_login :: tdsql_mysql_login where
  "demo_login = \<lparr>lg_header = demo_header, lg_username = wire_bytes [0x61], lg_database = wire_bytes [0x64],
     lg_auth_response = wire_bytes_zero, lg_plugin = wire_bytes_zero\<rparr>"

definition demo_connect :: "nat option \<Rightarrow> turbodb_status \<times> nat option" where
  "demo_connect database = (TURBODB_STATUS_OK, map_option (\<lambda>d. d + 4) database)"

definition demo_session :: "nat option \<Rightarrow> turbodb_status \<times> tdsql_session_state" where
  "demo_session connection = (TURBODB_STATUS_OK, \<lparr>ss_autocommit = True, ss_in_transaction = False, ss_transaction_read_only = False,
     ss_session_read_only = False, ss_busy = False, ss_rollback_required = False, ss_warning_count = 0, ss_failure = TURBODB_STATUS_OK\<rparr>)"

definition demo_reply :: tdsql_mysql_output where
  "demo_reply = \<lparr>out_data = Some (replicate 16 0), out_capacity = 16, out_size = 0\<rparr>"

definition demo_events :: "(nat, nat) auth_event list" where
  "demo_events = [AUTH_EMIT (replicate 128 0) (Some demo_reply), AUTH_ACKNOWLEDGE,
     AUTH_ACCEPT (Some [0x70, 0]) 2 4 True demo_connect demo_session,
     AUTH_EMIT (replicate 128 0) (Some demo_reply), AUTH_ACKNOWLEDGE, AUTH_TAKE True]"

definition demo_begun :: "(nat, nat) tdsql_mysql_auth" where
  "demo_begun = auth_zero\<lparr>au_policy := Some demo_policy, au_account := 0, au_database := 0, au_sequence := AUTH_FULL_SEQUENCE,
     au_phase := TDSQL_MYSQL_AUTH_SEND_FULL\<rparr>"

lemmas demo_names = demo_name_def demo_account_def demo_policy_def demo_header_def demo_gate_def demo_login_def
  auth_name_def auth_same_def vstr_bytes_def login_vstr_def wire_bytes_def

lemma demo_policy_valid: "tdsql_mysql_auth_policy_init True (Some demo_policy) = Inr demo_policy"
  by (simp add: tdsql_mysql_auth_policy_init_def demo_names)

lemma demo_begins: "tdsql_mysql_auth_begin (Some auth_zero) (Some demo_policy) (Some demo_gate) (Some demo_login) = (TURBODB_STATUS_OK, Some demo_begun)"
  by (simp add: tdsql_mysql_auth_begin_def auth_find_def demo_begun_def demo_names) (simp add: auth_zero_def)

lemma demo_login_facts:
  "po_accounts demo_policy = Some [demo_account]" "po_databases demo_policy = Some [\<lparr>db_name = demo_name 0x64, db_database = Some 3\<rparr>]"
  "0 < po_account_count demo_policy" "0 < po_database_count demo_policy"
  "auth_same (login_vstr (lg_username demo_login)) (ac_username demo_account)"
  "wb_length (lg_database demo_login) \<noteq> 0" "auth_same (login_vstr (lg_database demo_login)) (demo_name 0x64)"
  "tdsql_mysql_password_verify demo_derive (=) (Some (ac_password demo_account)) (Some [0x70, 0]) 2 True True = Inr True"
  "bit (ac_databases demo_account) 0" "demo_connect (Some 3) = (TURBODB_STATUS_OK, Some 7)" "reply_room demo_reply"
  by (simp_all add: demo_names tdsql_mysql_password_verify_def password_iterations_def password_bytes_def password_hash_def demo_derive_def
      demo_connect_def demo_reply_def reply_room_def SIZE_MAX_def)

lemma demo_run: "\<exists>auth. auth_run demo_derive (=) [] demo_policy demo_gate demo_login demo_events auth [7]"
  unfolding demo_events_def
  by (rule auth_exchange [where auth = demo_begun and accounts = "[demo_account]" and databases = "[\<lparr>db_name = demo_name 0x64, db_database = Some 3\<rparr>]"
        and i = 0 and d = 0 and state = "snd (demo_session None)"])
    (use demo_login_facts auth_run_begin [OF demo_policy_valid demo_begins] in \<open>simp_all add: demo_session_def demo_begun_def SIZE_MAX_def\<close>)

text \<open>
  C5. A session of the engine is handed over only to a login that may have it, and only once.  In every run of one login under a
  validated policy, whatever events come in whatever order and whatever the engine answers, at most one session is handed over; when one
  is, the gate of the handshake had reached the point of waiting for credentials, a payload arrived over TLS that the record of
  the account of that name verifies, the account was granted the database of the login, and the engine opened the session on it.
\<close>

theorem auth_hands_over_granted_session:
  assumes "auth_run pbkdf2 equal dp policy gate login events auth taken"
  shows "taken = [] \<or> (\<exists>c. taken = [c] \<and> ng_phase gate = TDSQL_MYSQL_WAIT_CREDENTIALS \<and> auth_granted pbkdf2 equal policy login events c)"
proof -
  have "auth_invariant pbkdf2 equal policy login events auth taken" using assms
  proof (induction rule: auth_run.induct)
    case (auth_run_begin auth)
    then show ?case using auth_begin_selects [OF auth_run_begin] by (simp add: auth_invariant_def)
  next
    case (auth_run_event events auth taken event auth' handed)
    then show ?case using auth_event_invariant by blast
  qed
  moreover have "ng_phase gate = TDSQL_MYSQL_WAIT_CREDENTIALS" using assms
    by (induction rule: auth_run.induct) (auto simp: tdsql_mysql_auth_begin_def Let_def split: option.splits if_splits)
  ultimately show ?thesis unfolding auth_invariant_def by blast
qed


theorem auth_hands_over_granted_session_witness:
  "(\<exists>auth. auth_run demo_derive (=) [] demo_policy demo_gate demo_login demo_events auth [7]) \<and>
   auth_granted demo_derive (=) demo_policy demo_login demo_events 7"
proof -
  obtain auth where "auth_run demo_derive (=) [] demo_policy demo_gate demo_login demo_events auth [7]"
    using demo_run by blast
  from auth_hands_over_granted_session [OF this] demo_run show ?thesis by simp
qed

text \<open>
  C6. A login that may have a session gets one.  For a login the owner accepts under a validated policy, whose account exists, whose database is
  granted, and whose payload the account's record verifies: when the engine opens the session and reports it idle, the plain exchange
  of request, password and reply hands that session over, whatever the local arrays held and for every reply buffer with room
  for eleven bytes.
\<close>

theorem auth_granted_login_served:
  fixes auth :: "('d, 'c) tdsql_mysql_auth" and c :: 'c
  assumes "tdsql_mysql_auth_policy_init True (Some policy) = Inr policy"
    and "tdsql_mysql_auth_begin (Some auth_zero) (Some policy) (Some gate) (Some login) = (TURBODB_STATUS_OK, Some auth)"
    and "po_accounts policy = Some accounts" and "po_databases policy = Some databases"
    and "i < po_account_count policy" and "auth_same (login_vstr (lg_username login)) (ac_username (accounts ! i))"
    and "if wb_length (lg_database login) = 0 then d = ac_default_database (accounts ! i)
      else d < po_database_count policy \<and> auth_same (login_vstr (lg_database login)) (db_name (databases ! d))"
    and "tdsql_mysql_password_verify pbkdf2 equal (Some (ac_password (accounts ! i))) payload sz True True = Inr True"
    and "bit (ac_databases (accounts ! i)) d"
    and "connect (db_database (databases ! d)) = (TURBODB_STATUS_OK, Some c)" "session (Some c) = (TURBODB_STATUS_OK, state)"
    and "ss_failure state = TURBODB_STATUS_OK" "\<not> ss_busy state" "\<not> ss_in_transaction state"
    and "reply_room first" "reply_room second" "length array = 128" "length array' = 128"
  shows "\<exists>auth'. auth_run pbkdf2 equal dp policy gate login
    [AUTH_EMIT array (Some first), AUTH_ACKNOWLEDGE, AUTH_ACCEPT payload sz 4 True connect session,
     AUTH_EMIT array' (Some second), AUTH_ACKNOWLEDGE, AUTH_TAKE True] auth' [c]"
  by (rule auth_exchange [where auth = auth and accounts = accounts and databases = databases and i = i and d = d and state = state])
    (fact auth_begin_known [OF assms(1-7)] auth_run_begin [OF assms(1,2)] assms)+

theorem auth_granted_login_served_witness:
  "\<exists>auth. auth_run demo_derive (=) [] demo_policy demo_gate demo_login
     [AUTH_EMIT (replicate 128 0) (Some demo_reply), AUTH_ACKNOWLEDGE,
      AUTH_ACCEPT (Some [0x70, 0]) 2 4 True demo_connect demo_session,
      AUTH_EMIT (replicate 128 0) (Some demo_reply), AUTH_ACKNOWLEDGE, AUTH_TAKE True] auth [7]"
  by (rule auth_granted_login_served [where auth = demo_begun and accounts = "[demo_account]" and
        databases = "[\<lparr>db_name = demo_name 0x64, db_database = Some 3\<rparr>]" and i = 0 and d = 0 and state = "snd (demo_session None)"])
    (use demo_login_facts demo_policy_valid demo_begins in \<open>simp_all add: demo_session_def\<close>)

end
