(* ===== verification/Sql_Budget.thy ===== *)
theory Sql_Budget
  imports Turbodb_Types
begin

text \<open>
  The resource ledger of the SQL engine, \<open>src/tidessql/src/budget.c\<close>: per statement eleven counters with
  limits and peaks, per transaction three cumulative counters, and work bytes retained across statements.

  The array indexed by \<open>orm_sql_budget_resource\<close> is a function on the enum, and the loops over it run
  over the list of its members in order.  Counters are 64-bit words, so that every subtraction and
  addition of the code is the wrapping one; that none of them ever wraps is part of what is proved.
  The text of the diagnostics (\<open>turbodb_error_t\<close>) is not modelled, only the status that goes with it.

  \<open>budget_inv\<close> is the invariant of the ledger, \<open>ledger\<close> its specification over natural numbers, which the
  operations refine.
\<close>

section \<open>Data\<close>

datatype orm_sql_budget_resource =
    ORM_SQL_BUDGET_WORK_BYTES
  | ORM_SQL_BUDGET_MATERIALIZED_ROWS
  | ORM_SQL_BUDGET_GROUPS
  | ORM_SQL_BUDGET_AST_NODES
  | ORM_SQL_BUDGET_PLAN_NODES
  | ORM_SQL_BUDGET_JOIN_PAIRS
  | ORM_SQL_BUDGET_EXECUTION_STEPS
  | ORM_SQL_BUDGET_WRITE_ROWS
  | ORM_SQL_BUDGET_WRITE_BYTES
  | ORM_SQL_BUDGET_READ_ROWS
  | ORM_SQL_BUDGET_READ_BYTES

definition budget_resources :: "orm_sql_budget_resource list" where
  "budget_resources =
     [ORM_SQL_BUDGET_WORK_BYTES, ORM_SQL_BUDGET_MATERIALIZED_ROWS, ORM_SQL_BUDGET_GROUPS, ORM_SQL_BUDGET_AST_NODES,
      ORM_SQL_BUDGET_PLAN_NODES, ORM_SQL_BUDGET_JOIN_PAIRS, ORM_SQL_BUDGET_EXECUTION_STEPS, ORM_SQL_BUDGET_WRITE_ROWS,
      ORM_SQL_BUDGET_WRITE_BYTES, ORM_SQL_BUDGET_READ_ROWS, ORM_SQL_BUDGET_READ_BYTES]"

type_synonym orm_sql_budget_amount = "orm_sql_budget_resource \<Rightarrow> u64"

record orm_sql_transaction_budget_amount =
  tx_read_rows :: u64
  tx_read_bytes :: u64
  tx_write_bytes :: u64

record orm_sql_budget_limits =
  lim_statement :: orm_sql_budget_amount
  lim_transaction :: orm_sql_transaction_budget_amount

record orm_tidesdb_sql_budget =
  bud_limits :: orm_sql_budget_limits
  bud_used :: orm_sql_budget_amount
  bud_peak :: orm_sql_budget_amount
  bud_transaction_used :: orm_sql_transaction_budget_amount
  bud_retained_work_bytes :: u64
  bud_statement_active :: bool

definition amount_zero :: orm_sql_budget_amount where
  "amount_zero = (\<lambda>_. 0)"

definition transaction_zero :: orm_sql_transaction_budget_amount where
  "transaction_zero = \<lparr>tx_read_rows = 0, tx_read_bytes = 0, tx_write_bytes = 0\<rparr>"


section \<open>Operations\<close>

definition releasable :: "orm_sql_budget_resource \<Rightarrow> bool" where
  "releasable resource \<longleftrightarrow>
     resource = ORM_SQL_BUDGET_WORK_BYTES \<or> resource = ORM_SQL_BUDGET_MATERIALIZED_ROWS \<or> resource = ORM_SQL_BUDGET_GROUPS"

definition require_active :: "orm_tidesdb_sql_budget option \<Rightarrow> turbodb_status" where
  "require_active budget =
     (case budget of None \<Rightarrow> TURBODB_STATUS_INVALID_ARGUMENT
      | Some b \<Rightarrow> if \<not> bud_statement_active b then TURBODB_STATUS_INVALID_STATE else TURBODB_STATUS_OK)"

definition orm_tidesdb_sql_budget_init ::
    "orm_tidesdb_sql_budget option \<Rightarrow> orm_sql_budget_limits option \<Rightarrow> turbodb_status \<times> orm_tidesdb_sql_budget option" where
  "orm_tidesdb_sql_budget_init out limits =
     (case (out, limits) of
        (Some _, Some l) \<Rightarrow>
          if list_ex (\<lambda>r. lim_statement l r = 0) budget_resources then (TURBODB_STATUS_INVALID_ARGUMENT, out)
          else if unat (lim_statement l ORM_SQL_BUDGET_WORK_BYTES) > SIZE_MAX \<or>
                  tx_read_rows (lim_transaction l) < lim_statement l ORM_SQL_BUDGET_READ_ROWS \<or>
                  tx_read_bytes (lim_transaction l) < lim_statement l ORM_SQL_BUDGET_READ_BYTES \<or>
                  tx_write_bytes (lim_transaction l) < lim_statement l ORM_SQL_BUDGET_WRITE_BYTES
          then (TURBODB_STATUS_INVALID_ARGUMENT, out)
          else (TURBODB_STATUS_OK,
                Some \<lparr>bud_limits = l, bud_used = amount_zero, bud_peak = amount_zero, bud_transaction_used = transaction_zero,
                      bud_retained_work_bytes = 0, bud_statement_active = False\<rparr>)
      | _ \<Rightarrow> (TURBODB_STATUS_INVALID_ARGUMENT, out))"

definition orm_tidesdb_sql_budget_begin ::
    "orm_tidesdb_sql_budget option \<Rightarrow> turbodb_status \<times> orm_tidesdb_sql_budget option" where
  "orm_tidesdb_sql_budget_begin budget =
     (case budget of None \<Rightarrow> (TURBODB_STATUS_INVALID_ARGUMENT, None)
      | Some b \<Rightarrow>
        if bud_statement_active b then (TURBODB_STATUS_BUSY, budget)
        else (TURBODB_STATUS_OK,
              Some (b\<lparr>bud_used := amount_zero(ORM_SQL_BUDGET_WORK_BYTES := bud_retained_work_bytes b),
                      bud_peak := amount_zero(ORM_SQL_BUDGET_WORK_BYTES := bud_retained_work_bytes b),
                      bud_statement_active := True\<rparr>)))"

definition orm_tidesdb_sql_budget_end ::
    "orm_tidesdb_sql_budget option \<Rightarrow> turbodb_status \<times> orm_tidesdb_sql_budget option" where
  "orm_tidesdb_sql_budget_end budget =
     (let status = require_active budget in
      if status \<noteq> TURBODB_STATUS_OK then (status, budget)
      else case budget of None \<Rightarrow> (status, budget)
      | Some b \<Rightarrow>
        if list_ex (\<lambda>r. releasable r \<and>
             bud_used b r \<noteq> (if r = ORM_SQL_BUDGET_WORK_BYTES then bud_retained_work_bytes b else 0)) budget_resources
        then (TURBODB_STATUS_BUSY, budget)
        else (TURBODB_STATUS_OK, Some (b\<lparr>bud_statement_active := False\<rparr>)))"

text \<open>One round of the accounting loop.\<close>

definition charge_resource :: "orm_sql_budget_amount \<Rightarrow> orm_sql_budget_resource \<Rightarrow> orm_tidesdb_sql_budget \<Rightarrow> orm_tidesdb_sql_budget" where
  "charge_resource charge r b =
     (let b = b\<lparr>bud_used := (bud_used b)(r := bud_used b r + charge r)\<rparr> in
      if bud_used b r > bud_peak b r then b\<lparr>bud_peak := (bud_peak b)(r := bud_used b r)\<rparr> else b)"

definition orm_tidesdb_sql_budget_reserve ::
    "orm_tidesdb_sql_budget option \<Rightarrow> orm_sql_budget_amount option \<Rightarrow> turbodb_status \<times> orm_tidesdb_sql_budget option" where
  "orm_tidesdb_sql_budget_reserve budget amount =
     (let status = require_active budget in
      if status \<noteq> TURBODB_STATUS_OK then (status, budget)
      else case (budget, amount) of
        (Some b, Some charge) \<Rightarrow>
          if list_ex (\<lambda>r. charge r > lim_statement (bud_limits b) r - bud_used b r) budget_resources
          then (TURBODB_STATUS_LIMIT_EXCEEDED, budget)
          else
            let tx = \<lparr>tx_read_rows = charge ORM_SQL_BUDGET_READ_ROWS, tx_read_bytes = charge ORM_SQL_BUDGET_READ_BYTES,
                      tx_write_bytes = charge ORM_SQL_BUDGET_WRITE_BYTES\<rparr>;
                limit = lim_transaction (bud_limits b); used = bud_transaction_used b in
            if tx_read_rows tx > tx_read_rows limit - tx_read_rows used then (TURBODB_STATUS_LIMIT_EXCEEDED, budget)
            else if tx_read_bytes tx > tx_read_bytes limit - tx_read_bytes used then (TURBODB_STATUS_LIMIT_EXCEEDED, budget)
            else if tx_write_bytes tx > tx_write_bytes limit - tx_write_bytes used then (TURBODB_STATUS_LIMIT_EXCEEDED, budget)
            else
              let b = fold (charge_resource charge) budget_resources b in
              (TURBODB_STATUS_OK,
               Some (b\<lparr>bud_transaction_used :=
                       \<lparr>tx_read_rows = tx_read_rows used + tx_read_rows tx, tx_read_bytes = tx_read_bytes used + tx_read_bytes tx,
                        tx_write_bytes = tx_write_bytes used + tx_write_bytes tx\<rparr>\<rparr>))
      | _ \<Rightarrow> (TURBODB_STATUS_INVALID_ARGUMENT, budget))"

text \<open>The place for the receipt is given by \<open>wants\<close>; the receipt is returned on success.\<close>

definition orm_tidesdb_sql_budget_reserve_capacity ::
    "orm_tidesdb_sql_budget option \<Rightarrow> nat \<Rightarrow> nat \<Rightarrow> nat \<Rightarrow> bool \<Rightarrow> turbodb_status \<times> orm_tidesdb_sql_budget option \<times> nat option" where
  "orm_tidesdb_sql_budget_reserve_capacity budget capacity element_bytes overhead_bytes wants =
     (let status = require_active budget in
      if status \<noteq> TURBODB_STATUS_OK then (status, budget, None)
      else if \<not> wants \<or> element_bytes = 0 then (TURBODB_STATUS_INVALID_ARGUMENT, budget, None)
      else if capacity > (SIZE_MAX - overhead_bytes) div element_bytes then (TURBODB_STATUS_LIMIT_EXCEEDED, budget, None)
      else
        let bytes = capacity * element_bytes + overhead_bytes;
            charge = amount_zero(ORM_SQL_BUDGET_WORK_BYTES := of_nat bytes) in
        case orm_tidesdb_sql_budget_reserve budget (Some charge) of (status, budget) \<Rightarrow>
          (status, budget, if status = TURBODB_STATUS_OK then Some bytes else None))"

definition orm_tidesdb_sql_budget_release ::
    "orm_tidesdb_sql_budget option \<Rightarrow> orm_sql_budget_resource \<Rightarrow> u64 \<Rightarrow> turbodb_status \<times> orm_tidesdb_sql_budget option" where
  "orm_tidesdb_sql_budget_release budget resource amount =
     (let status = require_active budget in
      if status \<noteq> TURBODB_STATUS_OK then (status, budget)
      else case budget of None \<Rightarrow> (status, budget)
      | Some b \<Rightarrow>
        if \<not> releasable resource \<or> amount > bud_used b resource \<or>
           (resource = ORM_SQL_BUDGET_WORK_BYTES \<and> bud_used b resource - amount < bud_retained_work_bytes b)
        then (TURBODB_STATUS_INVALID_ARGUMENT, budget)
        else (TURBODB_STATUS_OK, Some (b\<lparr>bud_used := (bud_used b)(resource := bud_used b resource - amount)\<rparr>)))"

definition orm_tidesdb_sql_budget_reserve_retained_capacity ::
    "orm_tidesdb_sql_budget option \<Rightarrow> nat \<Rightarrow> nat \<Rightarrow> nat \<Rightarrow> bool \<Rightarrow> turbodb_status \<times> orm_tidesdb_sql_budget option \<times> nat option" where
  "orm_tidesdb_sql_budget_reserve_retained_capacity budget capacity element_bytes overhead_bytes wants =
     (if \<not> wants then (TURBODB_STATUS_INVALID_ARGUMENT, budget, None)
      else case orm_tidesdb_sql_budget_reserve_capacity budget capacity element_bytes overhead_bytes True of
        (status, budget, receipt) \<Rightarrow>
          if status \<noteq> TURBODB_STATUS_OK then (status, budget, None)
          else
            let bytes = (case receipt of None \<Rightarrow> 0 | Some bytes \<Rightarrow> bytes) in
            (TURBODB_STATUS_OK,
             map_option (\<lambda>b. b\<lparr>bud_retained_work_bytes := bud_retained_work_bytes b + of_nat bytes\<rparr>) budget,
             Some bytes))"

definition orm_tidesdb_sql_budget_release_retained ::
    "orm_tidesdb_sql_budget option \<Rightarrow> u64 \<Rightarrow> turbodb_status \<times> orm_tidesdb_sql_budget option" where
  "orm_tidesdb_sql_budget_release_retained budget amount =
     (case budget of None \<Rightarrow> (TURBODB_STATUS_INVALID_ARGUMENT, None)
      | Some b \<Rightarrow>
        if amount > bud_retained_work_bytes b \<or> amount > bud_used b ORM_SQL_BUDGET_WORK_BYTES
        then (TURBODB_STATUS_INVALID_ARGUMENT, budget)
        else (TURBODB_STATUS_OK,
              Some (b\<lparr>bud_retained_work_bytes := bud_retained_work_bytes b - amount,
                      bud_used := (bud_used b)(ORM_SQL_BUDGET_WORK_BYTES := bud_used b ORM_SQL_BUDGET_WORK_BYTES - amount)\<rparr>)))"

definition orm_tidesdb_sql_budget_reset_transaction ::
    "orm_tidesdb_sql_budget option \<Rightarrow> turbodb_status \<times> orm_tidesdb_sql_budget option" where
  "orm_tidesdb_sql_budget_reset_transaction budget =
     (case budget of None \<Rightarrow> (TURBODB_STATUS_INVALID_ARGUMENT, None)
      | Some b \<Rightarrow>
        if bud_statement_active b \<or> bud_retained_work_bytes b \<noteq> 0 then (TURBODB_STATUS_BUSY, budget)
        else (TURBODB_STATUS_OK, Some (b\<lparr>bud_transaction_used := transaction_zero\<rparr>)))"


section \<open>The accounting loop\<close>

lemma budget_resources_all: "set budget_resources = UNIV"
proof -
  have "r \<in> set budget_resources" for r by (cases r) (simp_all add: budget_resources_def)
  then show ?thesis by blast
qed

lemma budget_resources_distinct: "distinct budget_resources"
  by (simp add: budget_resources_def)

lemma all_resources: "list_all P budget_resources \<longleftrightarrow> (\<forall>r. P r)" "list_ex P budget_resources \<longleftrightarrow> (\<exists>r. P r)"
  by (simp_all add: list_all_iff list_ex_iff budget_resources_all)

lemma fold_charge:
  "distinct rs \<Longrightarrow>
   fold (charge_resource charge) rs b =
     b\<lparr>bud_used := (\<lambda>r. if r \<in> set rs then bud_used b r + charge r else bud_used b r),
       bud_peak := (\<lambda>r. if r \<in> set rs then max (bud_peak b r) (bud_used b r + charge r) else bud_peak b r)\<rparr>"
proof (induction rs arbitrary: b)
  case Nil
  then show ?case by simp
next
  case (Cons x rs)
  have x: "charge_resource charge x b =
      b\<lparr>bud_used := (bud_used b)(x := bud_used b x + charge x),
        bud_peak := (bud_peak b)(x := max (bud_peak b x) (bud_used b x + charge x))\<rparr>"
    by (cases b) (auto simp: charge_resource_def Let_def max_def not_less)
  show ?case
    using Cons by (auto simp: x intro!: arg_cong2 [where f = "\<lambda>u p. b\<lparr>bud_used := u, bud_peak := p\<rparr>"])
qed

lemma charge_all:
  "fold (charge_resource charge) budget_resources b =
     b\<lparr>bud_used := (\<lambda>r. bud_used b r + charge r), bud_peak := (\<lambda>r. max (bud_peak b r) (bud_used b r + charge r))\<rparr>"
  by (simp add: fold_charge budget_resources_distinct budget_resources_all)


section \<open>The invariant\<close>

definition limits_ok :: "orm_sql_budget_limits \<Rightarrow> bool" where
  "limits_ok l \<longleftrightarrow>
     (\<forall>r. lim_statement l r \<noteq> 0) \<and>
     lim_statement l ORM_SQL_BUDGET_READ_ROWS \<le> tx_read_rows (lim_transaction l) \<and>
     lim_statement l ORM_SQL_BUDGET_READ_BYTES \<le> tx_read_bytes (lim_transaction l) \<and>
     lim_statement l ORM_SQL_BUDGET_WRITE_BYTES \<le> tx_write_bytes (lim_transaction l)"

definition budget_inv :: "orm_tidesdb_sql_budget \<Rightarrow> bool" where
  "budget_inv b \<longleftrightarrow>
     limits_ok (bud_limits b) \<and>
     (\<forall>r. bud_used b r \<le> bud_peak b r \<and> bud_peak b r \<le> lim_statement (bud_limits b) r) \<and>
     tx_read_rows (bud_transaction_used b) \<le> tx_read_rows (lim_transaction (bud_limits b)) \<and>
     tx_read_bytes (bud_transaction_used b) \<le> tx_read_bytes (lim_transaction (bud_limits b)) \<and>
     tx_write_bytes (bud_transaction_used b) \<le> tx_write_bytes (lim_transaction (bud_limits b)) \<and>
     bud_retained_work_bytes b \<le> bud_used b ORM_SQL_BUDGET_WORK_BYTES \<and>
     (bud_statement_active b \<or>
        bud_used b ORM_SQL_BUDGET_WORK_BYTES = bud_retained_work_bytes b \<and>
        bud_used b ORM_SQL_BUDGET_MATERIALIZED_ROWS = 0 \<and> bud_used b ORM_SQL_BUDGET_GROUPS = 0)"

lemma reserve_fits:
  fixes l u c :: u64
  assumes "u \<le> l"
  shows "c > l - u \<longleftrightarrow> unat l < unat u + unat c"
    and "\<not> c > l - u \<Longrightarrow> u + c \<le> l" and "\<not> c > l - u \<Longrightarrow> unat (u + c) = unat u + unat c" and "\<not> c > l - u \<Longrightarrow> u \<le> u + c"
proof -
  have le: "unat u \<le> unat l" using assms by (simp add: word_le_nat_alt)
  have lt: "unat l < 2 ^ 64" using unsigned_less [of l] by simp
  show a: "c > l - u \<longleftrightarrow> unat l < unat u + unat c"
    using le by (auto simp: word_less_nat_alt unat_sub [OF assms])
  assume "\<not> c > l - u"
  then have "unat u + unat c \<le> unat l" using a by simp
  then show "unat (u + c) = unat u + unat c" using lt by (subst unat_add_lem [THEN iffD1]) simp_all
  then show "u + c \<le> l" "u \<le> u + c" using \<open>unat u + unat c \<le> unat l\<close> by (simp_all add: word_le_nat_alt)
qed

text \<open>What a successful reservation has checked, and what it leaves.\<close>

lemma reserve_ok:
  assumes "orm_tidesdb_sql_budget_reserve (Some b) (Some charge) = (TURBODB_STATUS_OK, budget')"
  shows "bud_statement_active b" "\<not> charge r > lim_statement (bud_limits b) r - bud_used b r"
    "\<not> charge ORM_SQL_BUDGET_READ_ROWS > tx_read_rows (lim_transaction (bud_limits b)) - tx_read_rows (bud_transaction_used b)"
    "\<not> charge ORM_SQL_BUDGET_READ_BYTES > tx_read_bytes (lim_transaction (bud_limits b)) - tx_read_bytes (bud_transaction_used b)"
    "\<not> charge ORM_SQL_BUDGET_WRITE_BYTES > tx_write_bytes (lim_transaction (bud_limits b)) - tx_write_bytes (bud_transaction_used b)"
    "budget' = Some (b\<lparr>bud_used := (\<lambda>r. bud_used b r + charge r),
        bud_peak := (\<lambda>r. max (bud_peak b r) (bud_used b r + charge r)),
        bud_transaction_used :=
          \<lparr>tx_read_rows = tx_read_rows (bud_transaction_used b) + charge ORM_SQL_BUDGET_READ_ROWS,
           tx_read_bytes = tx_read_bytes (bud_transaction_used b) + charge ORM_SQL_BUDGET_READ_BYTES,
           tx_write_bytes = tx_write_bytes (bud_transaction_used b) + charge ORM_SQL_BUDGET_WRITE_BYTES\<rparr>\<rparr>)"
  using assms
  by (auto simp: orm_tidesdb_sql_budget_reserve_def require_active_def Let_def charge_all all_resources split: if_splits)

lemma reserve_failure:
  "orm_tidesdb_sql_budget_reserve budget amount = (status, budget') \<Longrightarrow> status \<noteq> TURBODB_STATUS_OK \<Longrightarrow> budget' = budget"
  by (auto simp: orm_tidesdb_sql_budget_reserve_def Let_def split: if_splits option.splits)

text \<open>The operations on an initialised ledger, with their status.\<close>

datatype budget_op =
    Begin
  | End
  | Reserve orm_sql_budget_amount
  | Reserve_capacity nat nat nat
  | Reserve_retained nat nat nat
  | Release orm_sql_budget_resource u64
  | Release_retained u64
  | Reset_transaction

fun budget_call :: "budget_op \<Rightarrow> orm_tidesdb_sql_budget \<Rightarrow> turbodb_status \<times> orm_tidesdb_sql_budget option" where
  "budget_call Begin b = orm_tidesdb_sql_budget_begin (Some b)"
| "budget_call End b = orm_tidesdb_sql_budget_end (Some b)"
| "budget_call (Reserve charge) b = orm_tidesdb_sql_budget_reserve (Some b) (Some charge)"
| "budget_call (Reserve_capacity n e v) b =
     (case orm_tidesdb_sql_budget_reserve_capacity (Some b) n e v True of (status, budget, _) \<Rightarrow> (status, budget))"
| "budget_call (Reserve_retained n e v) b =
     (case orm_tidesdb_sql_budget_reserve_retained_capacity (Some b) n e v True of (status, budget, _) \<Rightarrow> (status, budget))"
| "budget_call (Release r amount) b = orm_tidesdb_sql_budget_release (Some b) r amount"
| "budget_call (Release_retained amount) b = orm_tidesdb_sql_budget_release_retained (Some b) amount"
| "budget_call Reset_transaction b = orm_tidesdb_sql_budget_reset_transaction (Some b)"

inductive budget_reachable :: "orm_sql_budget_limits \<Rightarrow> orm_tidesdb_sql_budget \<Rightarrow> bool" for limits where
  init: "orm_tidesdb_sql_budget_init (Some b0) (Some limits) = (TURBODB_STATUS_OK, Some b) \<Longrightarrow> budget_reachable limits b"
| step: "budget_reachable limits b \<Longrightarrow> budget_call op b = (status, Some b') \<Longrightarrow> budget_reachable limits b'"

lemma reserve_inv:
  assumes inv: "budget_inv b" and r: "orm_tidesdb_sql_budget_reserve (Some b) (Some charge) = (TURBODB_STATUS_OK, Some b')"
  shows "budget_inv b'"
proof -
  note ok = reserve_ok [OF r]
  have u: "bud_used b x \<le> lim_statement (bud_limits b) x" for x
    using inv by (meson budget_inv_def order_trans)
  have used: "bud_used b x + charge x \<le> lim_statement (bud_limits b) x" "bud_used b x \<le> bud_used b x + charge x" for x
    using reserve_fits(2,4) [OF u ok(2)] by blast+
  have retained: "bud_retained_work_bytes b \<le> bud_used b ORM_SQL_BUDGET_WORK_BYTES + charge ORM_SQL_BUDGET_WORK_BYTES"
    using inv used(2) [of ORM_SQL_BUDGET_WORK_BYTES] unfolding budget_inv_def by (blast intro: order_trans)
  show ?thesis
    using inv ok used retained unfolding budget_inv_def
    by (auto intro: reserve_fits(2))
qed

definition receipt_bytes :: "nat \<Rightarrow> nat \<Rightarrow> nat \<Rightarrow> nat" where
  "receipt_bytes capacity element_bytes overhead_bytes = capacity * element_bytes + overhead_bytes"

lemma reserve_capacity_ok:
  assumes "orm_tidesdb_sql_budget_reserve_capacity (Some b) n e v wants = (TURBODB_STATUS_OK, budget', receipt)"
  shows "orm_tidesdb_sql_budget_reserve (Some b) (Some (amount_zero(ORM_SQL_BUDGET_WORK_BYTES := of_nat (receipt_bytes n e v)))) =
      (TURBODB_STATUS_OK, budget')"
    "receipt = Some (receipt_bytes n e v)" "0 < e" "wants" "n \<le> (SIZE_MAX - v) div e"
  using assms
  by (auto simp: orm_tidesdb_sql_budget_reserve_capacity_def Let_def receipt_bytes_def split: if_splits prod.splits)

lemma reserve_capacity_failure:
  "orm_tidesdb_sql_budget_reserve_capacity budget n e v wants = (status, budget', receipt) \<Longrightarrow> status \<noteq> TURBODB_STATUS_OK \<Longrightarrow>
   budget' = budget \<and> receipt = None"
  by (auto simp: orm_tidesdb_sql_budget_reserve_capacity_def Let_def split: if_splits prod.splits dest: reserve_failure)

text \<open>The capacity computation does not overflow, when the overhead is a \<open>size_t\<close>.\<close>

lemma receipt_fits: "0 < e \<Longrightarrow> v \<le> SIZE_MAX \<Longrightarrow> n \<le> (SIZE_MAX - v) div e \<Longrightarrow> receipt_bytes n e v \<le> SIZE_MAX"
proof -
  assume e: "0 < e" and v: "v \<le> SIZE_MAX" and n: "n \<le> (SIZE_MAX - v) div e"
  have "n * e \<le> (SIZE_MAX - v) div e * e" using n by simp
  also have "\<dots> \<le> SIZE_MAX - v" by simp
  finally show ?thesis using v by (simp add: receipt_bytes_def)
qed

lemma reserve_retained_ok:
  assumes "orm_tidesdb_sql_budget_reserve_retained_capacity (Some b) n e v wants = (TURBODB_STATUS_OK, budget', receipt)"
  obtains b1 where
    "orm_tidesdb_sql_budget_reserve (Some b) (Some (amount_zero(ORM_SQL_BUDGET_WORK_BYTES := of_nat (receipt_bytes n e v)))) =
      (TURBODB_STATUS_OK, Some b1)"
    "budget' = Some (b1\<lparr>bud_retained_work_bytes := bud_retained_work_bytes b1 + of_nat (receipt_bytes n e v)\<rparr>)"
    "receipt = Some (receipt_bytes n e v)"
proof -
  obtain budget1 rc where c: "orm_tidesdb_sql_budget_reserve_capacity (Some b) n e v True = (TURBODB_STATUS_OK, budget1, rc)"
      "budget' = map_option (\<lambda>b. b\<lparr>bud_retained_work_bytes := bud_retained_work_bytes b + of_nat (case rc of None \<Rightarrow> 0 | Some bytes \<Rightarrow> bytes)\<rparr>) budget1"
      "receipt = Some (case rc of None \<Rightarrow> 0 | Some bytes \<Rightarrow> bytes)"
    using assms by (auto simp: orm_tidesdb_sql_budget_reserve_retained_capacity_def Let_def split: if_splits prod.splits)
  note ok = reserve_capacity_ok [OF c(1)]
  then obtain b1 where "budget1 = Some b1" using reserve_ok(6) [OF ok(1)] by simp
  then show ?thesis using that ok c by simp
qed

lemma reserve_retained_failure:
  "orm_tidesdb_sql_budget_reserve_retained_capacity budget n e v wants = (status, budget', receipt) \<Longrightarrow> status \<noteq> TURBODB_STATUS_OK \<Longrightarrow>
   budget' = budget \<and> receipt = None"
  by (auto simp: orm_tidesdb_sql_budget_reserve_retained_capacity_def Let_def split: if_splits prod.splits dest: reserve_capacity_failure)

lemma budget_call_failure: "budget_call op b = (status, budget') \<Longrightarrow> status \<noteq> TURBODB_STATUS_OK \<Longrightarrow> budget' = Some b"
  by (cases op)
     (auto simp: orm_tidesdb_sql_budget_begin_def orm_tidesdb_sql_budget_end_def orm_tidesdb_sql_budget_release_def
       orm_tidesdb_sql_budget_release_retained_def orm_tidesdb_sql_budget_reset_transaction_def Let_def
       split: if_splits prod.splits dest: reserve_failure reserve_capacity_failure reserve_retained_failure)

lemma word_add_mono_fits:
  fixes a b c :: u64
  assumes "a \<le> b" and "b \<le> b + c"
  shows "a + c \<le> b + c" and "unat (a + c) = unat a + unat c"
proof -
  have "unat b + unat c < 2 ^ 64"
  proof (rule ccontr)
    assume "\<not> unat b + unat c < 2 ^ 64"
    then have "unat (b + c) = unat b + unat c - 2 ^ 64" by (simp add: unat_plus_if')
    moreover have "unat c < 2 ^ 64" using unsigned_less [of c] by simp
    ultimately have "unat (b + c) < unat b" using \<open>\<not> unat b + unat c < 2 ^ 64\<close> by linarith
    then show False using assms(2) by (simp add: word_le_nat_alt)
  qed
  moreover have "unat a \<le> unat b" using assms(1) by (simp add: word_le_nat_alt)
  ultimately have "unat (a + c) = unat a + unat c" "unat (b + c) = unat b + unat c"
    by (simp_all add: unat_add_lem [THEN iffD1])
  then show "a + c \<le> b + c" "unat (a + c) = unat a + unat c" using \<open>unat a \<le> unat b\<close> by (simp_all add: word_le_nat_alt)
qed

lemma word_sub_mono:
  fixes a b c :: u64
  assumes "c \<le> a" and "a \<le> b"
  shows "a - c \<le> b - c" and "b - c \<le> b"
proof -
  have "c \<le> b" using assms by (rule order_trans)
  then show "a - c \<le> b - c" "b - c \<le> b"
    using assms by (simp_all add: word_le_nat_alt unat_sub)
qed

lemma used_le_limit: "budget_inv b \<Longrightarrow> bud_used b r \<le> lim_statement (bud_limits b) r"
  unfolding budget_inv_def by (blast intro: order_trans)

lemma reserve_retained_inv:
  assumes inv: "budget_inv b"
    and r: "orm_tidesdb_sql_budget_reserve_retained_capacity (Some b) n e v wants = (TURBODB_STATUS_OK, Some b', receipt)"
  shows "budget_inv b'"
proof -
  let ?c = "amount_zero(ORM_SQL_BUDGET_WORK_BYTES := of_nat (receipt_bytes n e v)) :: orm_sql_budget_amount"
  obtain b1 where b1: "orm_tidesdb_sql_budget_reserve (Some b) (Some ?c) = (TURBODB_STATUS_OK, Some b1)"
    "b' = b1\<lparr>bud_retained_work_bytes := bud_retained_work_bytes b1 + of_nat (receipt_bytes n e v)\<rparr>"
    using reserve_retained_ok [OF r] by (metis option.inject)
  note ok = reserve_ok [OF b1(1)]
  have inv1: "budget_inv b1" by (rule reserve_inv [OF inv b1(1)])
  have e: "bud_retained_work_bytes b1 = bud_retained_work_bytes b"
    "bud_used b1 ORM_SQL_BUDGET_WORK_BYTES = bud_used b ORM_SQL_BUDGET_WORK_BYTES + of_nat (receipt_bytes n e v)" "bud_statement_active b1"
    using ok(1,6) by simp_all
  have "bud_retained_work_bytes b \<le> bud_used b ORM_SQL_BUDGET_WORK_BYTES" using inv by (simp add: budget_inv_def)
  from word_add_mono_fits(1) [OF this, of "of_nat (receipt_bytes n e v)"] reserve_fits(4) [OF used_le_limit [OF inv] ok(2) [of ORM_SQL_BUDGET_WORK_BYTES]]
  have "bud_retained_work_bytes b + of_nat (receipt_bytes n e v) \<le> bud_used b ORM_SQL_BUDGET_WORK_BYTES + of_nat (receipt_bytes n e v)"
    by simp
  then show ?thesis using inv1 e unfolding budget_inv_def b1(2) by simp
qed

lemma begin_inv: "budget_inv b \<Longrightarrow> orm_tidesdb_sql_budget_begin (Some b) = (TURBODB_STATUS_OK, Some b') \<Longrightarrow> budget_inv b'"
  using used_le_limit [of b ORM_SQL_BUDGET_WORK_BYTES]
  by (auto simp: orm_tidesdb_sql_budget_begin_def budget_inv_def amount_zero_def split: if_splits)

lemma end_inv: "budget_inv b \<Longrightarrow> orm_tidesdb_sql_budget_end (Some b) = (TURBODB_STATUS_OK, Some b') \<Longrightarrow> budget_inv b'"
  by (auto simp: orm_tidesdb_sql_budget_end_def budget_inv_def releasable_def Let_def all_resources split: if_splits)

lemma release_inv:
  assumes "budget_inv b" and "orm_tidesdb_sql_budget_release (Some b) r amount = (TURBODB_STATUS_OK, Some b')"
  shows "budget_inv b'"
proof -
  have a: "amount \<le> bud_used b r" "b' = b\<lparr>bud_used := (bud_used b)(r := bud_used b r - amount)\<rparr>" "bud_statement_active b"
    "r = ORM_SQL_BUDGET_WORK_BYTES \<Longrightarrow> bud_retained_work_bytes b \<le> bud_used b r - amount"
    using assms(2) by (auto simp: orm_tidesdb_sql_budget_release_def require_active_def Let_def split: if_splits)
  have "bud_used b r - amount \<le> bud_used b r" by (rule word_sub_mono(2) [OF a(1) order_refl])
  then have "bud_used b r - amount \<le> bud_peak b r" using assms(1) unfolding budget_inv_def by (blast intro: order_trans)
  then show ?thesis using assms(1) a by (auto simp: budget_inv_def)
qed

lemma release_retained_inv:
  assumes "budget_inv b" and "orm_tidesdb_sql_budget_release_retained (Some b) amount = (TURBODB_STATUS_OK, Some b')"
  shows "budget_inv b'"
proof -
  let ?w = "ORM_SQL_BUDGET_WORK_BYTES"
  have a: "amount \<le> bud_retained_work_bytes b" "amount \<le> bud_used b ?w"
    "b' = b\<lparr>bud_retained_work_bytes := bud_retained_work_bytes b - amount, bud_used := (bud_used b)(?w := bud_used b ?w - amount)\<rparr>"
    using assms(2) by (auto simp: orm_tidesdb_sql_budget_release_retained_def split: if_splits)
  have r: "bud_retained_work_bytes b \<le> bud_used b ?w" using assms(1) by (simp add: budget_inv_def)
  have "bud_used b ?w - amount \<le> bud_peak b ?w"
    using word_sub_mono(2) [OF a(1) r] assms(1) unfolding budget_inv_def by (blast intro: order_trans)
  then show ?thesis using assms(1) a(3) word_sub_mono(1) [OF a(1) r] by (auto simp: budget_inv_def)
qed

lemma reset_inv: "budget_inv b \<Longrightarrow> orm_tidesdb_sql_budget_reset_transaction (Some b) = (TURBODB_STATUS_OK, Some b') \<Longrightarrow> budget_inv b'"
  by (auto simp: orm_tidesdb_sql_budget_reset_transaction_def budget_inv_def transaction_zero_def split: if_splits)

lemma budget_call_inv:
  assumes inv: "budget_inv b" and c: "budget_call op b = (status, Some b')"
  shows "budget_inv b'"
proof (cases "status = TURBODB_STATUS_OK")
  case False
  then show ?thesis using budget_call_failure [OF c] inv by simp
next
  case True
  with c inv show ?thesis
    by (cases op)
       (auto split: prod.splits intro: begin_inv end_inv reserve_inv release_inv release_retained_inv reset_inv
         reserve_retained_inv dest: reserve_capacity_ok(1))
qed

lemma init_inv: "orm_tidesdb_sql_budget_init (Some b0) (Some limits) = (TURBODB_STATUS_OK, Some b) \<Longrightarrow> budget_inv b \<and> bud_limits b = limits"
  by (auto simp: orm_tidesdb_sql_budget_init_def all_resources budget_inv_def limits_ok_def amount_zero_def transaction_zero_def
      not_less split: if_splits)


section \<open>The specification\<close>

text \<open>
  The ledger over natural numbers.  A reservation is granted when every counter stays within its limit
  after adding the charge; \<open>None\<close> is a refusal.
\<close>

record ledger =
  led_limit :: "orm_sql_budget_resource \<Rightarrow> nat"
  led_used :: "orm_sql_budget_resource \<Rightarrow> nat"
  led_peak :: "orm_sql_budget_resource \<Rightarrow> nat"
  led_tx_limit :: "orm_sql_budget_resource \<Rightarrow> nat"
  led_tx_used :: "orm_sql_budget_resource \<Rightarrow> nat"
  led_retained :: nat
  led_active :: bool

definition cumulative :: "orm_sql_budget_resource set" where
  "cumulative = {ORM_SQL_BUDGET_READ_ROWS, ORM_SQL_BUDGET_READ_BYTES, ORM_SQL_BUDGET_WRITE_BYTES}"

definition of_transaction :: "orm_sql_transaction_budget_amount \<Rightarrow> orm_sql_budget_resource \<Rightarrow> nat" where
  "of_transaction tx r =
     (if r = ORM_SQL_BUDGET_READ_ROWS then unat (tx_read_rows tx)
      else if r = ORM_SQL_BUDGET_READ_BYTES then unat (tx_read_bytes tx)
      else if r = ORM_SQL_BUDGET_WRITE_BYTES then unat (tx_write_bytes tx) else 0)"

definition ledger_of :: "orm_tidesdb_sql_budget \<Rightarrow> ledger" where
  "ledger_of b =
     \<lparr>led_limit = (\<lambda>r. unat (lim_statement (bud_limits b) r)), led_used = (\<lambda>r. unat (bud_used b r)),
      led_peak = (\<lambda>r. unat (bud_peak b r)), led_tx_limit = of_transaction (lim_transaction (bud_limits b)),
      led_tx_used = of_transaction (bud_transaction_used b), led_retained = unat (bud_retained_work_bytes b),
      led_active = bud_statement_active b\<rparr>"

definition spec_reserve :: "(orm_sql_budget_resource \<Rightarrow> nat) \<Rightarrow> ledger \<Rightarrow> ledger option" where
  "spec_reserve c l =
     (if led_active l \<and> (\<forall>r. led_used l r + c r \<le> led_limit l r) \<and> (\<forall>r \<in> cumulative. led_tx_used l r + c r \<le> led_tx_limit l r)
      then Some (l\<lparr>led_used := (\<lambda>r. led_used l r + c r), led_peak := (\<lambda>r. max (led_peak l r) (led_used l r + c r)),
                   led_tx_used := (\<lambda>r. if r \<in> cumulative then led_tx_used l r + c r else led_tx_used l r)\<rparr>)
      else None)"

definition work_only :: "nat \<Rightarrow> orm_sql_budget_resource \<Rightarrow> nat" where
  "work_only n r = (if r = ORM_SQL_BUDGET_WORK_BYTES then n else 0)"

definition spec_capacity :: "nat \<Rightarrow> nat \<Rightarrow> nat \<Rightarrow> ledger \<Rightarrow> ledger option" where
  "spec_capacity n e v l =
     (if e = 0 \<or> receipt_bytes n e v > SIZE_MAX then None else spec_reserve (work_only (receipt_bytes n e v)) l)"

fun spec_call :: "budget_op \<Rightarrow> ledger \<Rightarrow> ledger option" where
  "spec_call Begin l =
     (if led_active l then None
      else Some (l\<lparr>led_used := work_only (led_retained l), led_peak := work_only (led_retained l), led_active := True\<rparr>))"
| "spec_call End l =
     (if led_active l \<and> (\<forall>r. releasable r \<longrightarrow> led_used l r = work_only (led_retained l) r)
      then Some (l\<lparr>led_active := False\<rparr>) else None)"
| "spec_call (Reserve charge) l = spec_reserve (\<lambda>r. unat (charge r)) l"
| "spec_call (Reserve_capacity n e v) l = spec_capacity n e v l"
| "spec_call (Reserve_retained n e v) l =
     map_option (\<lambda>l. l\<lparr>led_retained := led_retained l + receipt_bytes n e v\<rparr>) (spec_capacity n e v l)"
| "spec_call (Release r amount) l =
     (if led_active l \<and> releasable r \<and> unat amount \<le> led_used l r \<and>
         (r = ORM_SQL_BUDGET_WORK_BYTES \<longrightarrow> led_retained l + unat amount \<le> led_used l r)
      then Some (l\<lparr>led_used := (led_used l)(r := led_used l r - unat amount)\<rparr>) else None)"
| "spec_call (Release_retained amount) l =
     (if unat amount \<le> led_retained l
      then Some (l\<lparr>led_retained := led_retained l - unat amount,
                   led_used := (led_used l)(ORM_SQL_BUDGET_WORK_BYTES := led_used l ORM_SQL_BUDGET_WORK_BYTES - unat amount)\<rparr>)
      else None)"
| "spec_call Reset_transaction l =
     (if led_active l \<or> led_retained l \<noteq> 0 then None else Some (l\<lparr>led_tx_used := (\<lambda>_. 0)\<rparr>))"

text \<open>The sizes of a call are \<open>size_t\<close> values.\<close>

fun size_args :: "budget_op \<Rightarrow> bool" where
  "size_args (Reserve_capacity n e v) \<longleftrightarrow> n \<le> SIZE_MAX \<and> e \<le> SIZE_MAX \<and> v \<le> SIZE_MAX"
| "size_args (Reserve_retained n e v) \<longleftrightarrow> n \<le> SIZE_MAX \<and> e \<le> SIZE_MAX \<and> v \<le> SIZE_MAX"
| "size_args _ \<longleftrightarrow> True"

text \<open>A call agrees with the specification: it is granted with the specified effect, or refused without any.\<close>

definition agrees :: "orm_tidesdb_sql_budget \<Rightarrow> turbodb_status \<times> orm_tidesdb_sql_budget option \<Rightarrow> ledger option \<Rightarrow> bool" where
  "agrees b r l \<longleftrightarrow>
     (case r of (status, budget') \<Rightarrow>
        if status = TURBODB_STATUS_OK then \<exists>b'. budget' = Some b' \<and> l = Some (ledger_of b') else budget' = Some b \<and> l = None)"

lemma unat_max: "unat (max a b :: u64) = max (unat a) (unat b)"
  by (auto simp: max_def word_le_nat_alt)

lemma reserve_agrees:
  assumes inv: "budget_inv b"
  shows "agrees b (orm_tidesdb_sql_budget_reserve (Some b) (Some charge)) (spec_reserve (\<lambda>r. unat (charge r)) (ledger_of b))"
proof -
  have tx: "tx_read_rows (bud_transaction_used b) \<le> tx_read_rows (lim_transaction (bud_limits b))"
    "tx_read_bytes (bud_transaction_used b) \<le> tx_read_bytes (lim_transaction (bud_limits b))"
    "tx_write_bytes (bud_transaction_used b) \<le> tx_write_bytes (lim_transaction (bud_limits b))"
    using inv by (simp_all add: budget_inv_def)
  obtain status budget' where r: "orm_tidesdb_sql_budget_reserve (Some b) (Some charge) = (status, budget')" by fastforce
  note unat_fits = reserve_fits(3) [OF used_le_limit [OF inv]] reserve_fits(3) [OF tx(1)] reserve_fits(3) [OF tx(2)] reserve_fits(3) [OF tx(3)]
  note check = reserve_fits(1) [OF used_le_limit [OF inv]] reserve_fits(1) [OF tx(1)] reserve_fits(1) [OF tx(2)] reserve_fits(1) [OF tx(3)]
  show ?thesis
  proof (cases "status = TURBODB_STATUS_OK")
    case True
    note ok = reserve_ok [OF r [unfolded True]]
    show ?thesis
      using True r ok(1) ok(2) [unfolded check] ok(3) [unfolded check] ok(4) [unfolded check] ok(5) [unfolded check]
        unat_fits(1) [OF ok(2)] unat_fits(2) [OF ok(3)] unat_fits(3) [OF ok(4)] unat_fits(4) [OF ok(5)] unfolding ok(6)
      by (auto simp: agrees_def spec_reserve_def ledger_of_def cumulative_def of_transaction_def unat_max not_less fun_eq_iff)
  next
    case False
    have "\<not> (led_active (ledger_of b) \<and> (\<forall>r. led_used (ledger_of b) r + unat (charge r) \<le> led_limit (ledger_of b) r) \<and>
        (\<forall>r \<in> cumulative. led_tx_used (ledger_of b) r + unat (charge r) \<le> led_tx_limit (ledger_of b) r))"
    proof
      assume a: "led_active (ledger_of b) \<and> (\<forall>r. led_used (ledger_of b) r + unat (charge r) \<le> led_limit (ledger_of b) r) \<and>
        (\<forall>r \<in> cumulative. led_tx_used (ledger_of b) r + unat (charge r) \<le> led_tx_limit (ledger_of b) r)"
      then have "status = TURBODB_STATUS_OK"
        using r by (auto simp: orm_tidesdb_sql_budget_reserve_def require_active_def Let_def all_resources check ledger_of_def
            cumulative_def of_transaction_def not_less [symmetric] split: if_splits)
      with False show False by simp
    qed
    then show ?thesis using False r reserve_failure [OF r False] by (auto simp: agrees_def spec_reserve_def)
  qed
qed

lemma unat_of_size: "n \<le> SIZE_MAX \<Longrightarrow> unat (of_nat n :: u64) = n"
  by (simp add: SIZE_MAX_def unsigned_of_nat take_bit_nat_eq_self)

lemma receipt_overflow: "0 < e \<Longrightarrow> v \<le> SIZE_MAX \<Longrightarrow> n > (SIZE_MAX - v) div e \<Longrightarrow> receipt_bytes n e v > SIZE_MAX"
proof -
  assume e: "0 < e" and v: "v \<le> SIZE_MAX" and n: "n > (SIZE_MAX - v) div e"
  have "SIZE_MAX - v < ((SIZE_MAX - v) div e + 1) * e" using e by (simp add: dividend_less_div_times)
  also have "\<dots> \<le> n * e" using n by (intro mult_right_mono) simp_all
  finally show ?thesis using v by (simp add: receipt_bytes_def)
qed

lemma work_only_charge:
  "n \<le> SIZE_MAX \<Longrightarrow> (\<lambda>r. unat ((amount_zero(ORM_SQL_BUDGET_WORK_BYTES := of_nat n) :: orm_sql_budget_amount) r)) = work_only n"
  by (auto simp: work_only_def amount_zero_def unat_of_size)

lemma capacity_agrees:
  assumes inv: "budget_inv b" and "v \<le> SIZE_MAX"
  shows "agrees b (case orm_tidesdb_sql_budget_reserve_capacity (Some b) n e v True of (status, budget, _) \<Rightarrow> (status, budget))
     (spec_capacity n e v (ledger_of b))"
proof (cases "bud_statement_active b \<and> 0 < e \<and> n \<le> (SIZE_MAX - v) div e")
  case True
  then have fits: "receipt_bytes n e v \<le> SIZE_MAX" using assms(2) by (intro receipt_fits) simp_all
  let ?c = "amount_zero(ORM_SQL_BUDGET_WORK_BYTES := of_nat (receipt_bytes n e v)) :: orm_sql_budget_amount"
  have "(case orm_tidesdb_sql_budget_reserve_capacity (Some b) n e v True of (status, budget, _) \<Rightarrow> (status, budget)) =
      orm_tidesdb_sql_budget_reserve (Some b) (Some ?c)"
    using True by (simp add: orm_tidesdb_sql_budget_reserve_capacity_def require_active_def Let_def receipt_bytes_def not_less split: prod.splits)
  then show ?thesis
    using reserve_agrees [OF inv, of ?c, unfolded work_only_charge [OF fits]] True fits by (simp add: spec_capacity_def not_less)
next
  case False
  then have "spec_capacity n e v (ledger_of b) = None"
    using receipt_overflow [OF _ assms(2)] by (auto simp: spec_capacity_def spec_reserve_def ledger_of_def not_le)
  then show ?thesis
    using False by (auto simp: orm_tidesdb_sql_budget_reserve_capacity_def require_active_def Let_def agrees_def not_less)
qed

lemma retained_agrees:
  assumes inv: "budget_inv b" and v: "v \<le> SIZE_MAX"
  shows "agrees b (case orm_tidesdb_sql_budget_reserve_retained_capacity (Some b) n e v True of (status, budget, _) \<Rightarrow> (status, budget))
     (map_option (\<lambda>l. l\<lparr>led_retained := led_retained l + receipt_bytes n e v\<rparr>) (spec_capacity n e v (ledger_of b)))"
proof -
  obtain status budget' receipt where r: "orm_tidesdb_sql_budget_reserve_capacity (Some b) n e v True = (status, budget', receipt)"
    by (cases "orm_tidesdb_sql_budget_reserve_capacity (Some b) n e v True") auto
  have ag: "agrees b (status, budget') (spec_capacity n e v (ledger_of b))" using capacity_agrees [OF assms, of n e] r by simp
  show ?thesis
  proof (cases "status = TURBODB_STATUS_OK")
    case False
    then show ?thesis using ag r reserve_capacity_failure [OF r]
      by (simp add: orm_tidesdb_sql_budget_reserve_retained_capacity_def agrees_def)
  next
    case True
    note ok = reserve_capacity_ok [OF r [unfolded True]]
    then obtain b1 where b1: "budget' = Some b1" "spec_capacity n e v (ledger_of b) = Some (ledger_of b1)"
      using ag True by (auto simp: agrees_def)
    let ?n = "receipt_bytes n e v"
    have "?n \<le> SIZE_MAX" using ok(3,5) v by (intro receipt_fits)
    note ok1 = reserve_ok [OF ok(1)]
    have e: "bud_retained_work_bytes b1 = bud_retained_work_bytes b" using ok1(6) b1(1) by simp
    have "bud_retained_work_bytes b \<le> bud_used b ORM_SQL_BUDGET_WORK_BYTES" using inv by (simp add: budget_inv_def)
    from word_add_mono_fits(2) [OF this, of "of_nat ?n"] reserve_fits(4) [OF used_le_limit [OF inv] ok1(2) [of ORM_SQL_BUDGET_WORK_BYTES]]
    have "unat (bud_retained_work_bytes b + of_nat ?n) = unat (bud_retained_work_bytes b) + ?n"
      using unat_of_size [OF \<open>?n \<le> SIZE_MAX\<close>] by simp
    then show ?thesis
      using True r b1 ok(2) e
      by (auto simp: orm_tidesdb_sql_budget_reserve_retained_capacity_def agrees_def Let_def ledger_of_def)
  qed
qed

lemma begin_agrees: "agrees b (orm_tidesdb_sql_budget_begin (Some b)) (spec_call Begin (ledger_of b))"
  by (auto simp: agrees_def orm_tidesdb_sql_budget_begin_def ledger_of_def work_only_def amount_zero_def fun_eq_iff)

lemma end_agrees: "agrees b (orm_tidesdb_sql_budget_end (Some b)) (spec_call End (ledger_of b))"
proof -
  have "(\<exists>r. releasable r \<and> bud_used b r \<noteq> (if r = ORM_SQL_BUDGET_WORK_BYTES then bud_retained_work_bytes b else 0)) \<longleftrightarrow>
      \<not> (\<forall>r. releasable r \<longrightarrow> unat (bud_used b r) = work_only (unat (bud_retained_work_bytes b)) r)"
    by (auto simp: work_only_def word_unat_eq_iff)
  then show ?thesis
    by (auto simp: agrees_def orm_tidesdb_sql_budget_end_def require_active_def Let_def all_resources ledger_of_def)
qed

lemma release_agrees:
  assumes inv: "budget_inv b"
  shows "agrees b (orm_tidesdb_sql_budget_release (Some b) r amount) (spec_call (Release r amount) (ledger_of b))"
proof -
  have le: "amount > bud_used b r \<longleftrightarrow> \<not> unat amount \<le> unat (bud_used b r)" by (auto simp: word_less_nat_alt)
  have sub: "unat (bud_used b r - amount) = unat (bud_used b r) - unat amount" if "unat amount \<le> unat (bud_used b r)"
    using that by (intro unat_sub) (simp add: word_le_nat_alt)
  have retained: "bud_used b r - amount < bud_retained_work_bytes b \<longleftrightarrow> \<not> unat (bud_retained_work_bytes b) + unat amount \<le> unat (bud_used b r)"
    if "unat amount \<le> unat (bud_used b r)"
    using that sub by (auto simp: word_less_nat_alt)
  show ?thesis
    using sub retained
    by (auto simp: agrees_def orm_tidesdb_sql_budget_release_def require_active_def Let_def ledger_of_def le fun_eq_iff)
qed

lemma release_retained_agrees:
  assumes inv: "budget_inv b"
  shows "agrees b (orm_tidesdb_sql_budget_release_retained (Some b) amount) (spec_call (Release_retained amount) (ledger_of b))"
proof -
  let ?u = "bud_used b ORM_SQL_BUDGET_WORK_BYTES" and ?k = "bud_retained_work_bytes b"
  have k: "unat ?k \<le> unat ?u" using inv by (simp add: budget_inv_def word_le_nat_alt)
  have sub: "unat (?u - amount) = unat ?u - unat amount" "unat (?k - amount) = unat ?k - unat amount" if "unat amount \<le> unat ?k"
    using that k by (intro unat_sub; simp add: word_le_nat_alt)+
  show ?thesis
    using k by (auto simp: agrees_def orm_tidesdb_sql_budget_release_retained_def ledger_of_def sub word_less_nat_alt fun_eq_iff)
qed

lemma reset_agrees: "agrees b (orm_tidesdb_sql_budget_reset_transaction (Some b)) (spec_call Reset_transaction (ledger_of b))"
  by (auto simp: agrees_def orm_tidesdb_sql_budget_reset_transaction_def ledger_of_def transaction_zero_def of_transaction_def
      fun_eq_iff unat_eq_0)

lemma budget_call_agrees:
  assumes "budget_inv b" and "size_args op"
  shows "agrees b (budget_call op b) (spec_call op (ledger_of b))"
  using assms begin_agrees end_agrees reserve_agrees capacity_agrees retained_agrees release_agrees release_retained_agrees reset_agrees
  by (cases op) auto


text \<open>Releasing the receipt of a reservation.\<close>

lemma reserve_capacity_release:
  assumes inv: "budget_inv b" and v: "v \<le> SIZE_MAX"
    and r: "orm_tidesdb_sql_budget_reserve_capacity (Some b) n e v True = (TURBODB_STATUS_OK, Some b', Some bytes)"
  shows "orm_tidesdb_sql_budget_release (Some b') ORM_SQL_BUDGET_WORK_BYTES (of_nat bytes) =
     (TURBODB_STATUS_OK, Some (b\<lparr>bud_peak := bud_peak b'\<rparr>)) \<and> bytes = n * e + v \<and> bud_peak b ORM_SQL_BUDGET_WORK_BYTES \<le> bud_peak b' ORM_SQL_BUDGET_WORK_BYTES"
proof -
  note ok = reserve_capacity_ok [OF r]
  note ok1 = reserve_ok [OF ok(1)]
  let ?w = ORM_SQL_BUDGET_WORK_BYTES
  have bytes: "bytes = receipt_bytes n e v" using ok(2) by simp
  have grow: "bud_used b ?w \<le> bud_used b ?w + of_nat bytes" "unat (bud_used b ?w + of_nat bytes) = unat (bud_used b ?w) + unat (of_nat bytes :: u64)"
    using reserve_fits(3,4) [OF used_le_limit [OF inv] ok1(2) [of ?w]] bytes by simp_all
  have le: "(of_nat bytes :: u64) \<le> bud_used b ?w + of_nat bytes" using grow(2) by (simp add: word_le_nat_alt)
  have zero: "(amount_zero(?w := x)) r = 0" if "r \<noteq> ?w" for r and x :: u64 using that by (simp add: amount_zero_def)
  have b': "b' = b\<lparr>bud_used := (bud_used b)(?w := bud_used b ?w + of_nat bytes), bud_peak := bud_peak b'\<rparr>"
    using ok1(6) bytes by (cases b) (auto simp: fun_eq_iff amount_zero_def)
  have "bud_retained_work_bytes b \<le> bud_used b ?w" using inv by (simp add: budget_inv_def)
  then have "orm_tidesdb_sql_budget_release (Some b') ?w (of_nat bytes) = (TURBODB_STATUS_OK, Some (b\<lparr>bud_peak := bud_peak b'\<rparr>))"
    using ok1(1) le by (subst (1) b') (simp add: orm_tidesdb_sql_budget_release_def require_active_def releasable_def not_less fun_upd_idem)
  moreover have "bud_peak b ?w \<le> bud_peak b' ?w" using ok1(6) by simp
  ultimately show ?thesis using bytes by (simp add: receipt_bytes_def)
qed


section \<open>Properties\<close>

text \<open>
  C26. No sequence of calls ever exceeds a budget: in every reachable ledger each counter is at most its
  peak and the peak at most the limit, the transaction counters are within their limits, the retained
  work is part of the used work, and between statements nothing but the retained work is owned.
\<close>

theorem budget_never_exceeded:
  assumes "budget_reachable limits b"
  shows "budget_inv b \<and> bud_limits b = limits"
  using assms
proof (induction rule: budget_reachable.induct)
  case (init b0 b)
  then show ?case by (rule init_inv)
next
  case (step b op status b')
  then have "budget_inv b'" using budget_call_inv by blast
  moreover have "bud_limits b' = bud_limits b"
  proof (cases "status = TURBODB_STATUS_OK")
    case False
    then show ?thesis using budget_call_failure [OF step(2)] by simp
  next
    case True
    with step(2) show ?thesis
      by (cases op)
         (auto simp: orm_tidesdb_sql_budget_begin_def orm_tidesdb_sql_budget_end_def orm_tidesdb_sql_budget_release_def
           orm_tidesdb_sql_budget_release_retained_def orm_tidesdb_sql_budget_reset_transaction_def Let_def
           split: if_splits prod.splits dest!: reserve_ok(6) reserve_capacity_ok(1) elim!: reserve_retained_ok)
  qed
  ultimately show ?case using step by simp
qed

definition example_limits :: orm_sql_budget_limits where
  "example_limits = \<lparr>lim_statement = (\<lambda>_. 100), lim_transaction = \<lparr>tx_read_rows = 200, tx_read_bytes = 200, tx_write_bytes = 200\<rparr>\<rparr>"

definition example_budget :: orm_tidesdb_sql_budget where
  "example_budget = \<lparr>bud_limits = example_limits, bud_used = amount_zero, bud_peak = amount_zero, bud_transaction_used = transaction_zero,
     bud_retained_work_bytes = 0, bud_statement_active = False\<rparr>"

lemma example_init: "orm_tidesdb_sql_budget_init (Some b0) (Some example_limits) = (TURBODB_STATUS_OK, Some example_budget)"
proof -
  have "\<not> unat (100 :: u64) > SIZE_MAX" by (simp add: SIZE_MAX_def)
  then show ?thesis by (simp add: orm_tidesdb_sql_budget_init_def example_budget_def example_limits_def all_resources)
qed

text \<open>A statement that has begun and reserved 40 bytes of work.\<close>

theorem budget_never_exceeded_witness:
  "\<exists>b. budget_reachable example_limits b \<and> bud_used b ORM_SQL_BUDGET_WORK_BYTES = 40 \<and> budget_inv b"
proof -
  let ?begun = "example_budget\<lparr>bud_statement_active := True\<rparr>"
  obtain b where r: "orm_tidesdb_sql_budget_reserve_capacity (Some ?begun) 3 8 16 True = (TURBODB_STATUS_OK, Some b, Some 40)"
    by (simp add: orm_tidesdb_sql_budget_reserve_capacity_def orm_tidesdb_sql_budget_reserve_def require_active_def Let_def
        all_resources example_budget_def example_limits_def amount_zero_def transaction_zero_def SIZE_MAX_def)
  then have b: "budget_call (Reserve_capacity 3 8 16) ?begun = (TURBODB_STATUS_OK, Some b)" "bud_used b ORM_SQL_BUDGET_WORK_BYTES = 40"
    using reserve_ok(6) [OF reserve_capacity_ok(1) [OF r]] by (simp_all add: receipt_bytes_def example_budget_def amount_zero_def)
  have "budget_call Begin example_budget = (TURBODB_STATUS_OK, Some ?begun)"
    by (simp add: orm_tidesdb_sql_budget_begin_def example_budget_def amount_zero_def fun_upd_idem)
  from budget_reachable.step [OF budget_reachable.step [OF budget_reachable.init [OF example_init] this] b(1)]
  have reachable: "budget_reachable example_limits b" .
  then show ?thesis using budget_never_exceeded [OF reachable] b(2) by blast
qed

text \<open>
  C27. The ledger refines its specification: on every ledger that satisfies the invariant each call is
  granted exactly when the specification over natural numbers grants it, with the specified effect, and a
  refused call leaves the ledger as it was.  In particular no counter wraps and every charge is all or nothing.
\<close>

theorem budget_refines_ledger:
  assumes "budget_inv b" and "size_args op"
  shows "agrees b (budget_call op b) (spec_call op (ledger_of b))"
  by (rule budget_call_agrees [OF assms])

theorem budget_refines_ledger_witness:
  "agrees example_budget (budget_call Begin example_budget) (spec_call Begin (ledger_of example_budget))"
proof -
  have "budget_inv example_budget" using init_inv [OF example_init] by simp
  from budget_refines_ledger [OF this, of Begin] show ?thesis by simp
qed

text \<open>
  C28. A reservation and its release cancel out: releasing the receipt of a granted capacity reservation
  succeeds and restores every counter of used resources, and only the peak remembers the reservation.
\<close>

theorem reserve_release_roundtrip:
  assumes inv: "budget_inv b" and v: "v \<le> SIZE_MAX"
    and r: "orm_tidesdb_sql_budget_reserve_capacity (Some b) n e v True = (TURBODB_STATUS_OK, Some b', Some bytes)"
  shows "orm_tidesdb_sql_budget_release (Some b') ORM_SQL_BUDGET_WORK_BYTES (of_nat bytes) =
     (TURBODB_STATUS_OK, Some (b\<lparr>bud_peak := bud_peak b'\<rparr>)) \<and> bytes = n * e + v \<and> bud_peak b ORM_SQL_BUDGET_WORK_BYTES \<le> bud_peak b' ORM_SQL_BUDGET_WORK_BYTES"
  by (rule reserve_capacity_release [OF assms])

theorem reserve_release_roundtrip_witness:
  "\<exists>b'. orm_tidesdb_sql_budget_reserve_capacity (Some (example_budget\<lparr>bud_statement_active := True\<rparr>)) 3 8 16 True = (TURBODB_STATUS_OK, Some b', Some 40) \<and>
     orm_tidesdb_sql_budget_release (Some b') ORM_SQL_BUDGET_WORK_BYTES 40 =
       (TURBODB_STATUS_OK, Some (example_budget\<lparr>bud_statement_active := True, bud_peak := bud_peak b'\<rparr>))"
proof -
  let ?b = "example_budget\<lparr>bud_statement_active := True\<rparr>"
  have inv: "budget_inv ?b" using init_inv [OF example_init] by (auto simp: budget_inv_def)
  obtain b' where r: "orm_tidesdb_sql_budget_reserve_capacity (Some ?b) 3 8 16 True = (TURBODB_STATUS_OK, Some b', Some 40)"
    by (simp add: orm_tidesdb_sql_budget_reserve_capacity_def orm_tidesdb_sql_budget_reserve_def require_active_def Let_def
        all_resources example_budget_def example_limits_def amount_zero_def transaction_zero_def SIZE_MAX_def)
  have "(16 :: nat) \<le> SIZE_MAX" by (simp add: SIZE_MAX_def)
  from reserve_release_roundtrip [OF inv this r] r show ?thesis by auto
qed

end
