(* ===== verification/Sql_Work.thy ===== *)
theory Sql_Work
  imports Sql_Budget
begin

text \<open>
  Budgeted work storage and sorting, \<open>src/tidessql/src/work.c\<close>.  The vector (\<open>vec_t\<close>) and the sort belong
  to the container library the sources call; they are parameters: the record \<open>vec_ops\<close> of vector operations, and
  the function \<open>stable_sort\<close>.  A pointer that may be null is an option.  The status codes of that
  library are the three the code distinguishes and one for all others.
\<close>

unbundle bit_operations_syntax

section \<open>Operations\<close>

datatype stl_status = STL_OK | STL_OUT_OF_MEMORY | STL_CAPACITY_EXCEEDED | STL_OTHER

record 'v vec_ops =
  vec_initialized :: "'v \<Rightarrow> bool"
  vec_init_bytes :: "'v \<Rightarrow> nat \<Rightarrow> nat \<Rightarrow> nat \<Rightarrow> stl_status \<times> 'v"
  vec_reserve :: "'v \<Rightarrow> nat \<Rightarrow> stl_status \<times> 'v"
  vec_resize :: "'v \<Rightarrow> nat \<Rightarrow> stl_status \<times> 'v"
  vec_clear_bytes :: "'v \<Rightarrow> nat \<Rightarrow> 'v"
  vec_destroy :: "'v \<Rightarrow> 'v"

abbreviation (input) "sizeof_pointer \<equiv> 8 :: nat"

definition stl_failure :: "stl_status \<Rightarrow> turbodb_status" where
  "stl_failure s =
     (if s = STL_OUT_OF_MEMORY then TURBODB_STATUS_OUT_OF_MEMORY
      else if s = STL_CAPACITY_EXCEEDED then TURBODB_STATUS_LIMIT_EXCEEDED else TURBODB_STATUS_INTERNAL_ERROR)"

type_synonym 'v work = "turbodb_status \<times> 'v option \<times> orm_tidesdb_sql_budget option \<times> nat option"

definition orm_sql_work_allocate ::
    "'v vec_ops \<Rightarrow> 'v option \<Rightarrow> nat \<Rightarrow> nat \<Rightarrow> nat \<Rightarrow> nat \<Rightarrow> orm_tidesdb_sql_budget option \<Rightarrow> nat option \<Rightarrow> 'v work" where
  "orm_sql_work_allocate ops vector count sz align metadata budget reserved =
     (case (vector, reserved, budget) of
        (Some v, Some old, Some b) \<Rightarrow>
          if vec_initialized ops v \<or> old \<noteq> 0 \<or> sz = 0 \<or> align = 0 \<or> align AND (align - 1) \<noteq> 0 \<or> sz mod align \<noteq> 0
          then (TURBODB_STATUS_INVALID_ARGUMENT, vector, budget, reserved)
          else if align - 1 > SIZE_MAX - sizeof_pointer \<or> metadata > SIZE_MAX - (sizeof_pointer + align - 1)
          then (TURBODB_STATUS_LIMIT_EXCEEDED, vector, budget, reserved)
          else (case orm_tidesdb_sql_budget_reserve_capacity budget count sz (metadata + sizeof_pointer + align - 1) True of
            (status, budget, receipt) \<Rightarrow>
              if status \<noteq> TURBODB_STATUS_OK then (status, vector, budget, reserved)
              else
                let (allocated, v) = vec_init_bytes ops v sz align count;
                    (allocated, v) = (if allocated = STL_OK then vec_reserve ops v count else (allocated, v)) in
                (if allocated = STL_OK then TURBODB_STATUS_OK else stl_failure allocated, Some v, budget, receipt))
      | _ \<Rightarrow> (TURBODB_STATUS_INVALID_ARGUMENT, vector, budget, reserved))"

definition orm_sql_work_release ::
    "'v vec_ops \<Rightarrow> 'v \<Rightarrow> nat \<Rightarrow> orm_tidesdb_sql_budget option \<Rightarrow> turbodb_status \<times> 'v \<times> orm_tidesdb_sql_budget option" where
  "orm_sql_work_release ops vector reserved budget =
     (let vector = vec_destroy ops vector in
      if reserved \<noteq> 0 then
        case orm_tidesdb_sql_budget_release budget ORM_SQL_BUDGET_WORK_BYTES (of_nat reserved) of (status, budget) \<Rightarrow> (status, vector, budget)
      else (TURBODB_STATUS_OK, vector, budget))"

definition orm_sql_work_zero ::
    "'v vec_ops \<Rightarrow> 'v option \<Rightarrow> nat \<Rightarrow> nat \<Rightarrow> nat \<Rightarrow> orm_tidesdb_sql_budget option \<Rightarrow> nat option \<Rightarrow> 'v work" where
  "orm_sql_work_zero ops vector count sz align budget reserved =
     (if count = 0 then (TURBODB_STATUS_OK, vector, budget, reserved)
      else case orm_sql_work_allocate ops vector count sz align 0 budget reserved of (status, vector, budget, reserved) \<Rightarrow>
        (case vector of None \<Rightarrow> (status, vector, budget, reserved)
         | Some v \<Rightarrow>
             if status \<noteq> TURBODB_STATUS_OK then (status, vector, budget, reserved)
             else case vec_resize ops v count of (resized, v) \<Rightarrow>
               if resized \<noteq> STL_OK then (stl_failure resized, Some v, budget, reserved)
               else (TURBODB_STATUS_OK, Some (vec_clear_bytes ops v (count * sz)), budget, reserved)))"

text \<open>The descriptor of the element type: what the code reads of \<open>cmeta_type_desc\<close>.\<close>

record cmeta_type_desc =
  type_size :: nat
  type_align :: nat

definition sort_amount :: "nat \<Rightarrow> nat \<Rightarrow> orm_sql_budget_amount" where
  "sort_amount count steps = amount_zero(ORM_SQL_BUDGET_EXECUTION_STEPS := of_nat count * of_nat steps)"

text \<open>One charge per merge level; \<open>width\<close> is halved, rounding up.\<close>

function sort_charge :: "nat \<Rightarrow> nat \<Rightarrow> nat \<Rightarrow> orm_tidesdb_sql_budget option \<Rightarrow> turbodb_status \<times> orm_tidesdb_sql_budget option" where
  "sort_charge count steps width budget =
     (if width > 1 then
        case orm_tidesdb_sql_budget_reserve budget (Some (sort_amount count steps)) of (status, budget) \<Rightarrow>
          if status \<noteq> TURBODB_STATUS_OK then (status, budget)
          else sort_charge count steps (width div 2 + width mod 2) budget
      else (TURBODB_STATUS_OK, budget))"
  by auto
termination
proof (relation "measure (\<lambda>(count, steps, width, budget). width)", goal_cases)
  case (2 count steps width budget)
  have "width div 2 + width mod 2 < width" using 2(1) by presburger
  then show ?case by simp
qed simp

declare sort_charge.simps [simp del]

definition orm_sql_work_sort ::
    "('a list \<Rightarrow> nat \<Rightarrow> cmeta_type_desc \<Rightarrow> nat \<Rightarrow> stl_status \<times> 'a list) \<Rightarrow>
     'a list \<Rightarrow> nat \<Rightarrow> cmeta_type_desc option \<Rightarrow> nat \<Rightarrow> orm_tidesdb_sql_budget option
      \<Rightarrow> turbodb_status \<times> 'a list \<times> orm_tidesdb_sql_budget option" where
  "orm_sql_work_sort stable_sort base count type comparison_steps budget =
     (case type of None \<Rightarrow> (TURBODB_STATUS_INVALID_ARGUMENT, base, budget)
      | Some t \<Rightarrow>
        if type_size t = 0 \<or> type_align t = 0 \<or> type_align t AND (type_align t - 1) \<noteq> 0 \<or> type_size t mod type_align t \<noteq> 0 \<or>
           comparison_steps = 0
        then (TURBODB_STATUS_INVALID_ARGUMENT, base, budget)
        else if count < 2 then (TURBODB_STATUS_OK, base, budget)
        else if count > (2 ^ 64 - 1) div comparison_steps \<or> type_align t - 1 > SIZE_MAX - sizeof_pointer
        then (TURBODB_STATUS_LIMIT_EXCEEDED, base, budget)
        else case sort_charge count comparison_steps count budget of (status, budget) \<Rightarrow>
          if status \<noteq> TURBODB_STATUS_OK then (status, base, budget)
          else case orm_tidesdb_sql_budget_reserve_capacity budget count (type_size t) (sizeof_pointer + type_align t - 1) True of
            (status, budget, receipt) \<Rightarrow>
              if status \<noteq> TURBODB_STATUS_OK then (status, base, budget)
              else
                let bytes = (case receipt of None \<Rightarrow> 0 | Some n \<Rightarrow> n);
                    (sorted, base) = stable_sort base count t (count * type_size t);
                    status = (if sorted \<noteq> STL_OK then stl_failure sorted else status);
                    (released, budget) = orm_tidesdb_sql_budget_release budget ORM_SQL_BUDGET_WORK_BYTES (of_nat bytes) in
                (if status = TURBODB_STATUS_OK then released else status, base, budget))"

definition orm_sql_work_sort_u64 ::
    "(u64 list \<Rightarrow> nat \<Rightarrow> cmeta_type_desc \<Rightarrow> nat \<Rightarrow> stl_status \<times> u64 list) \<Rightarrow> u64 list \<Rightarrow> nat \<Rightarrow> orm_tidesdb_sql_budget option
      \<Rightarrow> turbodb_status \<times> u64 list \<times> orm_tidesdb_sql_budget option" where
  "orm_sql_work_sort_u64 stable_sort vals count budget =
     orm_sql_work_sort stable_sort vals count (Some \<lparr>type_size = 8, type_align = 8\<rparr>) 1 budget"


section \<open>The charges of a sort\<close>

lemma halving_rounds:
  fixes width :: nat
  assumes "1 < width" and "width div 2 + width mod 2 \<le> 2 ^ k" and "2 ^ k < 2 * (width div 2 + width mod 2)"
  shows "width \<le> 2 ^ Suc k" and "2 ^ Suc k < 2 * width"
proof -
  let ?w = "width div 2 + width mod 2"
  have w: "width \<le> 2 * ?w" "even width \<Longrightarrow> 2 * ?w = width" "odd width \<Longrightarrow> 2 * ?w = width + 1" by presburger+
  show "width \<le> 2 ^ Suc k" using w(1) assms(2) by simp
  have "2 ^ k < width"
  proof (cases "even width")
    case True
    then show ?thesis using assms(3) w(2) by simp
  next
    case False
    then have "2 ^ k \<le> width" using assms(3) w(3) by simp
    moreover have "2 ^ k \<noteq> width" using False assms(1) by (cases k) auto
    ultimately show ?thesis by simp
  qed
  then show "2 ^ Suc k < 2 * width" by simp
qed

text \<open>A granted reservation of comparison steps, and what it does to the ledger.\<close>

lemma used_limit: "budget_inv b \<Longrightarrow> bud_used b r \<le> lim_statement (bud_limits b) r"
  by (meson budget_inv_def order_trans)

lemma reserve_used:
  assumes "budget_inv b" and "orm_tidesdb_sql_budget_reserve (Some b) (Some charge) = (TURBODB_STATUS_OK, budget')"
  obtains b' where "budget' = Some b'" "budget_inv b'" "\<And>r. unat (bud_used b' r) = unat (bud_used b r) + unat (charge r)"
    "\<And>r. charge r = 0 \<Longrightarrow> bud_used b' r = bud_used b r"
proof -
  note ok = reserve_ok [OF assms(2)]
  from ok(6) obtain b' where b': "budget' = Some b'" "bud_used b' = (\<lambda>r. bud_used b r + charge r)" by simp
  moreover have "budget_inv b'" using reserve_inv [OF assms(1)] assms(2) b'(1) by simp
  moreover have "unat (bud_used b' r) = unat (bud_used b r) + unat (charge r)" for r
    using reserve_fits(3) [OF used_limit [OF assms(1)] ok(2)] b'(2) by simp
  ultimately show ?thesis using that by simp
qed

definition same_but_steps :: "orm_tidesdb_sql_budget \<Rightarrow> orm_tidesdb_sql_budget \<Rightarrow> bool" where
  "same_but_steps b b' \<longleftrightarrow> (\<forall>r. r \<noteq> ORM_SQL_BUDGET_EXECUTION_STEPS \<longrightarrow> bud_used b' r = bud_used b r)"

lemma sort_charge_spec:
  assumes "budget_inv b" and "count * steps < 2 ^ 64" and "sort_charge count steps width (Some b) = (status, budget')" and "1 \<le> width"
  shows "\<exists>b'. budget' = Some b' \<and> budget_inv b' \<and> same_but_steps b b' \<and>
    (status = TURBODB_STATUS_OK \<longrightarrow>
      (\<exists>k. width \<le> 2 ^ k \<and> 2 ^ k < 2 * width \<and>
         unat (bud_used b' ORM_SQL_BUDGET_EXECUTION_STEPS) = unat (bud_used b ORM_SQL_BUDGET_EXECUTION_STEPS) + k * (count * steps)))"
  using assms
proof (induction count steps width "Some b" arbitrary: b rule: sort_charge.induct)
  case (1 count steps width b)
  let ?e = ORM_SQL_BUDGET_EXECUTION_STEPS
  show ?case
  proof (cases "width > 1")
    case False
    then show ?thesis using "1.prems" by (auto simp: sort_charge.simps [of _ _ width] same_but_steps_def intro!: exI [of _ 0])
  next
    case True
    obtain st b1 where r: "orm_tidesdb_sql_budget_reserve (Some b) (Some (sort_amount count steps)) = (st, b1)" by fastforce
    show ?thesis
    proof (cases "st = TURBODB_STATUS_OK")
      case False
      then have "status = st" "budget' = Some b"
        using "1.prems"(3) True r reserve_failure [OF r] by (auto simp: sort_charge.simps [of _ _ width])
      then show ?thesis using False "1.prems"(1) by (simp add: same_but_steps_def)
    next
      case granted: True
      obtain c where c: "b1 = Some c" "budget_inv c" "\<And>r. unat (bud_used c r) = unat (bud_used b r) + unat (sort_amount count steps r)"
          "\<And>r. sort_amount count steps r = 0 \<Longrightarrow> bud_used c r = bud_used b r"
        using reserve_used [OF "1.prems"(1)] r granted by metis
      have e: "unat (sort_amount count steps ?e) = count * steps"
        using "1.prems"(2) by (simp add: sort_amount_def of_nat_mult [symmetric] unsigned_of_nat take_bit_nat_eq_self del: of_nat_mult)
      have same: "same_but_steps b c" using c(4) by (simp add: same_but_steps_def sort_amount_def amount_zero_def)
      have rest: "sort_charge count steps (width div 2 + width mod 2) (Some c) = (status, budget')"
        using "1.prems"(3) True r granted c(1) by (simp add: sort_charge.simps [of _ _ width])
      have "1 \<le> width div 2 + width mod 2" using True by presburger
      from "1.hyps" [OF True r [symmetric, unfolded c(1)] _ c(2) "1.prems"(2) rest this] granted
      obtain b' where b': "budget' = Some b'" "budget_inv b'" "same_but_steps c b'"
        "status = TURBODB_STATUS_OK \<longrightarrow> (\<exists>k. width div 2 + width mod 2 \<le> 2 ^ k \<and> 2 ^ k < 2 * (width div 2 + width mod 2) \<and>
           unat (bud_used b' ?e) = unat (bud_used c ?e) + k * (count * steps))" by auto
      have "\<exists>k. width \<le> 2 ^ k \<and> 2 ^ k < 2 * width \<and> unat (bud_used b' ?e) = unat (bud_used b ?e) + k * (count * steps)"
        if "status = TURBODB_STATUS_OK"
      proof -
        obtain k where k: "width div 2 + width mod 2 \<le> 2 ^ k" "2 ^ k < 2 * (width div 2 + width mod 2)"
          "unat (bud_used b' ?e) = unat (bud_used c ?e) + k * (count * steps)" using b'(4) \<open>status = TURBODB_STATUS_OK\<close> by blast
        show ?thesis using halving_rounds [OF True k(1,2)] k(3) c(3) [of ?e] e by (intro exI [of _ "Suc k"]) simp
      qed
      then show ?thesis using b' same by (auto simp: same_but_steps_def)
    qed
  qed
qed


section \<open>Properties\<close>

text \<open>
  C34. Sorting two or more elements charges a merge sort and keeps nothing else.  The charging loop ends after as many rounds as
  there are merge levels, the least \<open>k\<close> with \<open>count \<le> 2 ^ k\<close>; a sort that succeeds has paid \<open>k\<close> times the
  worst-case cost of one level in execution steps, and handed the span to the library's sort.  Whatever the
  outcome, also when a reservation or the library's sort fails, every other counter is
  back where it was, the scratch space included, and the ledger's invariant holds.
\<close>

theorem work_sort_pays_for_levels:
  assumes inv: "budget_inv b" and "2 \<le> count" and "type_size t \<le> SIZE_MAX" and "type_align t \<le> SIZE_MAX"
    and sort: "orm_sql_work_sort stable_sort base count (Some t) steps (Some b) = (status, base', budget')"
  shows "\<exists>b'. budget' = Some b' \<and> budget_inv b' \<and> same_but_steps b b' \<and>
    (status = TURBODB_STATUS_OK \<longrightarrow>
      stable_sort base count t (count * type_size t) = (STL_OK, base') \<and>
      (\<exists>k. count \<le> 2 ^ k \<and> 2 ^ k < 2 * count \<and>
         unat (bud_used b' ORM_SQL_BUDGET_EXECUTION_STEPS) = unat (bud_used b ORM_SQL_BUDGET_EXECUTION_STEPS) + k * (count * steps)))"
proof -
  let ?bad = "type_size t = 0 \<or> type_align t = 0 \<or> type_align t AND (type_align t - 1) \<noteq> 0 \<or> type_size t mod type_align t \<noteq> 0 \<or> steps = 0"
  let ?over = "count > (2 ^ 64 - 1) div steps \<or> type_align t - 1 > SIZE_MAX - sizeof_pointer"
  let ?v = "sizeof_pointer + type_align t - 1"
  show ?thesis
  proof (cases "?bad \<or> ?over")
    case True
    then show ?thesis using sort inv assms(2) by (auto simp: orm_sql_work_sort_def same_but_steps_def split: if_splits)
  next
    case False
    then have ok: "\<not> ?bad" "\<not> ?over" by blast+
    have "count \<le> (2 ^ 64 - 1) div steps" "0 < steps" using ok by auto
    then have "count * steps \<le> 2 ^ 64 - 1" by (metis div_times_less_eq_dividend mult_le_mono1 order_trans)
    then have small: "count * steps < 2 ^ 64" by simp
    have "type_align t - 1 \<le> SIZE_MAX - sizeof_pointer" using ok(2) by simp
    then have v: "?v \<le> SIZE_MAX" using assms(4) by (simp add: SIZE_MAX_def)
    obtain st b1 where charged: "sort_charge count steps count (Some b) = (st, b1)" by fastforce
    obtain c where c: "b1 = Some c" "budget_inv c" "same_but_steps b c"
      "st = TURBODB_STATUS_OK \<longrightarrow> (\<exists>k. count \<le> 2 ^ k \<and> 2 ^ k < 2 * count \<and>
         unat (bud_used c ORM_SQL_BUDGET_EXECUTION_STEPS) = unat (bud_used b ORM_SQL_BUDGET_EXECUTION_STEPS) + k * (count * steps))"
      using sort_charge_spec [OF inv small charged] assms(2) by auto
    obtain st2 b2 receipt where r: "orm_tidesdb_sql_budget_reserve_capacity (Some c) count (type_size t) ?v True = (st2, b2, receipt)"
      by (metis prod_cases3)
    have sort': "(status, base', budget') =
        (if st \<noteq> TURBODB_STATUS_OK then (st, base, Some c)
         else if st2 \<noteq> TURBODB_STATUS_OK then (st2, base, b2)
         else let (sorted, base) = stable_sort base count t (count * type_size t);
                  (released, budget) = orm_tidesdb_sql_budget_release b2 ORM_SQL_BUDGET_WORK_BYTES (of_nat (case receipt of None \<Rightarrow> 0 | Some n \<Rightarrow> n)) in
              (if sorted = STL_OK then released else stl_failure sorted, base, budget))"
      using sort ok assms(2) charged r c(1)
      by (auto simp: orm_sql_work_sort_def Let_def stl_failure_def split: if_splits prod.splits)
    consider (charge) "st \<noteq> TURBODB_STATUS_OK" | (reserve) "st = TURBODB_STATUS_OK" "st2 \<noteq> TURBODB_STATUS_OK"
      | (sorted) "st = TURBODB_STATUS_OK" "st2 = TURBODB_STATUS_OK" by blast
    then show ?thesis
    proof cases
      case charge
      then show ?thesis using sort' c by simp
    next
      case reserve
      then show ?thesis using sort' c reserve_capacity_failure [OF r] by simp
    next
      case sorted
      note granted = reserve_capacity_ok [OF r [unfolded sorted]]
      obtain d where d: "b2 = Some d" using reserve_ok(6) [OF granted(1)] by simp
      define bytes where "bytes = receipt_bytes count (type_size t) ?v"
      have bytes: "receipt = Some bytes" using granted(2) by (simp add: bytes_def)
      have rel: "orm_tidesdb_sql_budget_release (Some d) ORM_SQL_BUDGET_WORK_BYTES (of_nat bytes) = (TURBODB_STATUS_OK, Some (c\<lparr>bud_peak := bud_peak d\<rparr>))"
        using reserve_capacity_release [OF c(2) v, of count "type_size t" d bytes] r sorted(2) d bytes by blast
      have "budget_inv d" using reserve_inv [OF c(2)] granted(1) d by blast
      from release_inv [OF this rel] have "budget_inv (c\<lparr>bud_peak := bud_peak d\<rparr>)" .
      with rel show ?thesis
        using sort' sorted d bytes c by (auto simp: same_but_steps_def stl_failure_def split: prod.splits if_splits)
    qed
  qed
qed

definition example_active :: orm_tidesdb_sql_budget where
  "example_active = example_budget\<lparr>bud_statement_active := True\<rparr>"

lemma example_active_inv: "budget_inv example_active"
  using init_inv [OF example_init] by (auto simp: budget_inv_def example_active_def)

lemmas example_simps = orm_tidesdb_sql_budget_reserve_capacity_def orm_tidesdb_sql_budget_reserve_def require_active_def Let_def
  all_resources charge_all example_active_def example_budget_def example_limits_def amount_zero_def transaction_zero_def SIZE_MAX_def

theorem work_sort_pays_for_levels_witness:
  "\<exists>b'. orm_sql_work_sort (\<lambda>xs n t k. (STL_OK, sort xs)) [3, 1, 2 :: u64] 3 (Some \<lparr>type_size = 8, type_align = 8\<rparr>) 2 (Some example_active) =
     (TURBODB_STATUS_OK, [1, 2, 3], Some b') \<and> budget_inv b' \<and> same_but_steps example_active b' \<and>
     unat (bud_used b' ORM_SQL_BUDGET_EXECUTION_STEPS) = 12"
proof -
  let ?sort = "\<lambda>xs n t k. (STL_OK, sort xs) :: stl_status \<times> u64 list"
  let ?t = "\<lparr>type_size = 8, type_align = 8\<rparr>"
  obtain st base' bud where run: "orm_sql_work_sort ?sort [3, 1, 2] 3 (Some ?t) 2 (Some example_active) = (st, base', bud)" by (metis prod_cases3)
  have "(8 :: nat) AND 7 = 0" by code_simp
  then have "fst (orm_sql_work_sort ?sort [3, 1, 2] 3 (Some ?t) 2 (Some example_active)) = TURBODB_STATUS_OK"
    by (simp add: orm_sql_work_sort_def sort_charge.simps sort_amount_def orm_tidesdb_sql_budget_release_def releasable_def example_simps)
  then have st: "st = TURBODB_STATUS_OK" using run by simp
  have used: "unat (bud_used example_active ORM_SQL_BUDGET_EXECUTION_STEPS) = 0" by (simp add: example_simps)
  have sizes: "type_size ?t \<le> SIZE_MAX" "type_align ?t \<le> SIZE_MAX" "2 \<le> (3 :: nat)" by (simp_all add: SIZE_MAX_def)
  obtain b' k where b': "bud = Some b'" "budget_inv b'" "same_but_steps example_active b'" "base' = sort [3, 1, 2]"
    "(3 :: nat) \<le> 2 ^ k" "2 ^ k < 2 * (3 :: nat)" "unat (bud_used b' ORM_SQL_BUDGET_EXECUTION_STEPS) = k * (3 * 2)"
    using work_sort_pays_for_levels [OF example_active_inv sizes(3) sizes(1,2) run] st used by auto
  have "k = 2"
  proof (rule ccontr)
    assume "k \<noteq> 2"
    then consider "k = 0" | "k = 1" | "3 \<le> k" by linarith
    then show False
    proof cases
      case 3
      then have "(2 :: nat) ^ 3 \<le> 2 ^ k" by (rule power_increasing) simp
      then show ?thesis using b'(6) by simp
    qed (use b'(5) in auto)
  qed
  moreover have "sort [3, 1, 2 :: u64] = [1, 2, 3]" by code_simp
  ultimately show ?thesis using run st b' by simp
qed

text \<open>
  C35. Storage obtained from \<open>orm_sql_work_allocate\<close> can always be given back: after a success, and also
  after a failure of the library half way, \<open>orm_sql_work_release\<close> with the receipt succeeds and restores every counter of used
  resources.  The receipt of a success is the requested capacity with its overhead, computed without overflow.
\<close>

theorem work_release_refunds:
  assumes inv: "budget_inv b" and "align \<le> SIZE_MAX"
    and alloc: "orm_sql_work_allocate ops (Some v) count sz align metadata (Some b) (Some 0) = (status, Some v', Some b', Some reserved)"
  shows "\<exists>b''. orm_sql_work_release ops v' reserved (Some b') = (TURBODB_STATUS_OK, vec_destroy ops v', Some b'') \<and>
    bud_used b'' = bud_used b \<and> budget_inv b'' \<and>
    (status = TURBODB_STATUS_OK \<longrightarrow> reserved = count * sz + (metadata + sizeof_pointer + align - 1) \<and> reserved \<le> SIZE_MAX)"
proof -
  let ?v = "metadata + sizeof_pointer + align - 1"
  let ?bad = "vec_initialized ops v \<or> sz = 0 \<or> align = 0 \<or> align AND (align - 1) \<noteq> 0 \<or> sz mod align \<noteq> 0"
  let ?over = "align - 1 > SIZE_MAX - sizeof_pointer \<or> metadata > SIZE_MAX - (sizeof_pointer + align - 1)"
  have keep: ?thesis if "reserved = 0" "b' = b" "status \<noteq> TURBODB_STATUS_OK"
    using that inv by (simp add: orm_sql_work_release_def)
  show ?thesis
  proof (cases "?bad \<or> ?over")
    case True
    then show ?thesis using alloc keep by (auto simp: orm_sql_work_allocate_def split: if_splits)
  next
    case False
    then have "align - 1 \<le> SIZE_MAX - sizeof_pointer" "metadata \<le> SIZE_MAX - (sizeof_pointer + align - 1)" by auto
    then have fits: "?v \<le> SIZE_MAX" using assms(2) by (simp add: SIZE_MAX_def)
    obtain st b1 receipt where r: "orm_tidesdb_sql_budget_reserve_capacity (Some b) count sz ?v True = (st, b1, receipt)" by (metis prod_cases3)
    show ?thesis
    proof (cases "st = TURBODB_STATUS_OK")
      case False
      then show ?thesis
        using alloc r reserve_capacity_failure [OF r False] \<open>\<not> (?bad \<or> ?over)\<close> keep
        by (auto simp: orm_sql_work_allocate_def split: if_splits)
    next
      case True
      note granted = reserve_capacity_ok [OF r [unfolded True]]
      have res: "b1 = Some b'" "receipt = Some reserved"
        using alloc r True \<open>\<not> (?bad \<or> ?over)\<close> by (auto simp: orm_sql_work_allocate_def Let_def split: if_splits prod.splits)
      have rel: "orm_tidesdb_sql_budget_release (Some b') ORM_SQL_BUDGET_WORK_BYTES (of_nat reserved) = (TURBODB_STATUS_OK, Some (b\<lparr>bud_peak := bud_peak b'\<rparr>))"
        using reserve_capacity_release [OF inv fits, of count sz b' reserved] r True res by blast
      have "budget_inv b'" using reserve_inv [OF inv] granted(1) res(1) by blast
      from release_inv [OF this rel] have "budget_inv (b\<lparr>bud_peak := bud_peak b'\<rparr>)" .
      moreover have "reserved = count * sz + ?v" "reserved \<noteq> 0" "reserved \<le> SIZE_MAX"
        using granted(2) res(2) receipt_fits [OF granted(3) fits granted(5)] False by (auto simp: receipt_bytes_def)
      ultimately show ?thesis using rel by (simp add: orm_sql_work_release_def)
    qed
  qed
qed

definition example_vec :: "nat vec_ops" where
  "example_vec = \<lparr>vec_initialized = (\<lambda>v. v \<noteq> 0), vec_init_bytes = (\<lambda>v sz align n. (STL_OK, 1)), vec_reserve = (\<lambda>v n. (STL_OUT_OF_MEMORY, v)),
     vec_resize = (\<lambda>v n. (STL_OK, v)), vec_clear_bytes = (\<lambda>v n. v), vec_destroy = (\<lambda>v. 0)\<rparr>"

theorem work_release_refunds_witness:
  "\<exists>b' b''. orm_sql_work_allocate example_vec (Some 0) 4 8 8 0 (Some example_active) (Some 0) = (TURBODB_STATUS_OUT_OF_MEMORY, Some 1, Some b', Some 47) \<and>
     orm_sql_work_release example_vec 1 47 (Some b') = (TURBODB_STATUS_OK, 0, Some b'') \<and> bud_used b'' = bud_used example_active"
proof -
  have "(8 :: nat) AND 7 = 0" by code_simp
  then obtain b' where run: "orm_sql_work_allocate example_vec (Some 0) 4 8 8 0 (Some example_active) (Some 0) =
      (TURBODB_STATUS_OUT_OF_MEMORY, Some 1, Some b', Some 47)"
    by (simp add: orm_sql_work_allocate_def example_vec_def stl_failure_def example_simps)
  have "(8 :: nat) \<le> SIZE_MAX" by (simp add: SIZE_MAX_def)
  from work_release_refunds [OF example_active_inv this run] run show ?thesis by (auto simp: example_vec_def)
qed

end
