(* ===== verification/Sql_Predicate.thy ===== *)
theory Sql_Predicate
  imports Sql_Budget C_Printf "HOL-Library.List_Lexorder"
begin

text \<open>
  Scalar predicates of the SQL engine, \<open>src/tidessql/src/value.c\<close>: binding of an operator to operand types,
  validation of the operands, the charge for the work, and evaluation in three-valued logic.

  The kind of a value (\<open>turbodb_value_kind_t\<close>) is a datatype with one member for all integers that name no
  kind, and likewise the operator.  Doubles are bit patterns compared by the numbers they
  denote.  \<open>vstr_utf8_valid\<close> belongs to a string library outside the sources and is the parameter \<open>utf8_valid\<close>.  The text of
  the diagnostics is not modelled, only the status.

  The specification, \<open>predicate_spec\<close>, is Kleene's logic over exact comparisons.
\<close>

section \<open>Types and values\<close>

datatype turbodb_value_kind =
    KIND_NULL | KIND_INT64 | KIND_UINT64 | KIND_DOUBLE | KIND_BOOLEAN | KIND_TEXT | KIND_BLOB | KIND_OTHER

fun kind_of :: "turbodb_value_data \<Rightarrow> turbodb_value_kind" where
  "kind_of TURBODB_VALUE_NULL = KIND_NULL" |
  "kind_of (TURBODB_VALUE_INT64 _) = KIND_INT64" |
  "kind_of (TURBODB_VALUE_UINT64 _) = KIND_UINT64" |
  "kind_of (TURBODB_VALUE_DOUBLE _) = KIND_DOUBLE" |
  "kind_of (TURBODB_VALUE_BOOLEAN _) = KIND_BOOLEAN" |
  "kind_of (TURBODB_VALUE_TEXT _ _) = KIND_TEXT" |
  "kind_of (TURBODB_VALUE_BLOB _ _) = KIND_BLOB" |
  "kind_of TURBODB_VALUE_OTHER = KIND_OTHER"

abbreviation value_kind :: "turbodb_value \<Rightarrow> turbodb_value_kind" where
  "value_kind v \<equiv> kind_of (tv_data v)"

record orm_sql_type =
  sql_kind :: turbodb_value_kind
  sql_nullable :: bool

datatype orm_sql_predicate_op =
    ORM_SQL_EQUAL
  | ORM_SQL_NOT_EQUAL
  | ORM_SQL_LESS
  | ORM_SQL_LESS_EQUAL
  | ORM_SQL_GREATER
  | ORM_SQL_GREATER_EQUAL
  | ORM_SQL_NULL_SAFE_EQUAL
  | ORM_SQL_IS_NULL
  | ORM_SQL_IS_NOT_NULL
  | ORM_SQL_NOT
  | ORM_SQL_AND
  | ORM_SQL_OR
  | ORM_SQL_NO_PREDICATE

record orm_sql_predicate =
  pred_op :: orm_sql_predicate_op
  pred_left :: orm_sql_type
  pred_right :: orm_sql_type
  pred_result :: orm_sql_type
  pred_real_comparison :: bool

definition assignment_numeric :: "turbodb_value_kind \<Rightarrow> bool" where
  "assignment_numeric kind \<longleftrightarrow> kind = KIND_INT64 \<or> kind = KIND_UINT64 \<or> kind = KIND_DOUBLE"

definition orm_tidesdb_sql_assignment_compatible :: "orm_sql_type \<Rightarrow> orm_sql_type \<Rightarrow> bool" where
  "orm_tidesdb_sql_assignment_compatible target source =
     (if \<not> assignment_numeric (sql_kind target) then sql_kind target = sql_kind source \<or> sql_kind source = KIND_NULL
      else sql_kind source = KIND_NULL \<or> assignment_numeric (sql_kind source) \<or> sql_kind source = KIND_BOOLEAN \<or>
           sql_kind source = KIND_TEXT \<or> sql_kind source = KIND_BLOB)"

definition unary :: "orm_sql_predicate_op \<Rightarrow> bool" where
  "unary op \<longleftrightarrow> op = ORM_SQL_IS_NULL \<or> op = ORM_SQL_IS_NOT_NULL \<or> op = ORM_SQL_NOT"

definition valid_type :: "orm_sql_type \<Rightarrow> bool" where
  "valid_type t \<longleftrightarrow> sql_kind t \<noteq> KIND_OTHER \<and> (sql_kind t \<noteq> KIND_NULL \<or> sql_nullable t)"

definition integral :: "turbodb_value_kind \<Rightarrow> bool" where
  "integral kind \<longleftrightarrow> kind = KIND_INT64 \<or> kind = KIND_UINT64"

definition boolean_type :: "turbodb_value_kind \<Rightarrow> bool" where
  "boolean_type kind \<longleftrightarrow> kind = KIND_NULL \<or> kind = KIND_BOOLEAN"

text \<open>\<open>op <= ORM_SQL_NULL_SAFE_EQUAL\<close>: the comparison operators come first in the enum.\<close>

definition comparison_op :: "orm_sql_predicate_op \<Rightarrow> bool" where
  "comparison_op op \<longleftrightarrow> op \<in> set [ORM_SQL_EQUAL, ORM_SQL_NOT_EQUAL, ORM_SQL_LESS, ORM_SQL_LESS_EQUAL, ORM_SQL_GREATER,
     ORM_SQL_GREATER_EQUAL, ORM_SQL_NULL_SAFE_EQUAL]"

definition orm_tidesdb_sql_predicate_bind ::
    "orm_sql_predicate_op \<Rightarrow> orm_sql_type \<Rightarrow> orm_sql_type option \<Rightarrow> bool \<Rightarrow> turbodb_status + orm_sql_predicate" where
  "orm_tidesdb_sql_predicate_bind op left right wants =
     (if op = ORM_SQL_NO_PREDICATE then Inl TURBODB_STATUS_UNSUPPORTED
      else if \<not> wants \<or> (if unary op then right \<noteq> None else right = None) then Inl TURBODB_STATUS_INVALID_ARGUMENT
      else if \<not> valid_type left \<or> (case right of None \<Rightarrow> False | Some r \<Rightarrow> \<not> valid_type r) then Inl TURBODB_STATUS_TYPE_ERROR
      else
        let compatible =
              (if op = ORM_SQL_NOT \<or> op = ORM_SQL_AND \<or> op = ORM_SQL_OR
               then boolean_type (sql_kind left) \<and> (case right of None \<Rightarrow> True | Some r \<Rightarrow> boolean_type (sql_kind r))
               else if \<not> unary op
               then (case right of None \<Rightarrow> True
                     | Some r \<Rightarrow> sql_kind left = KIND_NULL \<or> sql_kind r = KIND_NULL \<or> sql_kind left = sql_kind r \<or>
                                 (assignment_numeric (sql_kind left) \<and> assignment_numeric (sql_kind r)))
               else True) in
        if \<not> compatible then Inl TURBODB_STATUS_UNSUPPORTED
        else
          let nullable = (op \<noteq> ORM_SQL_NULL_SAFE_EQUAL \<and> op \<noteq> ORM_SQL_IS_NULL \<and> op \<noteq> ORM_SQL_IS_NOT_NULL \<and>
                          (sql_nullable left \<or> (case right of None \<Rightarrow> False | Some r \<Rightarrow> sql_nullable r))) in
          Inr \<lparr>pred_op = op, pred_left = left,
               pred_right = (case right of None \<Rightarrow> \<lparr>sql_kind = KIND_NULL, sql_nullable = True\<rparr> | Some r \<Rightarrow> r),
               pred_result = \<lparr>sql_kind = KIND_BOOLEAN, sql_nullable = nullable\<rparr>,
               pred_real_comparison = (comparison_op op \<and>
                 (sql_kind left = KIND_DOUBLE \<or> (case right of None \<Rightarrow> False | Some r \<Rightarrow> sql_kind r = KIND_DOUBLE)))\<rparr>)"

definition valid_value :: "turbodb_value \<Rightarrow> orm_sql_type \<Rightarrow> bool" where
  "valid_value v t =
     (if tv_reserved v \<noteq> 0 then False
      else if value_kind v = KIND_NULL then sql_nullable t
      else if value_kind v \<noteq> sql_kind t then False
      else case tv_data v of
        TURBODB_VALUE_INT64 _ \<Rightarrow> True
      | TURBODB_VALUE_UINT64 _ \<Rightarrow> True
      | TURBODB_VALUE_DOUBLE d \<Rightarrow> f64_isfinite d
      | TURBODB_VALUE_BOOLEAN b \<Rightarrow> b \<le> 1
      | TURBODB_VALUE_TEXT data sz \<Rightarrow> sz = 0 \<or> data \<noteq> None
      | TURBODB_VALUE_BLOB data sz \<Rightarrow> sz = 0 \<or> data \<noteq> None
      | _ \<Rightarrow> False)"

text \<open>A view as a pointer with its size; other kinds have the empty one.\<close>

definition bytes_of :: "turbodb_value \<Rightarrow> ptr \<times> nat" where
  "bytes_of v =
     (case tv_data v of TURBODB_VALUE_TEXT data sz \<Rightarrow> (data, sz) | TURBODB_VALUE_BLOB data sz \<Rightarrow> (data, sz) | _ \<Rightarrow> (None, 0))"

definition add_steps :: "u64 \<Rightarrow> nat \<Rightarrow> u64 option" where
  "add_steps steps n = (if of_nat n > - 1 - steps then None else Some (steps + of_nat n))"

definition steps_amount :: "u64 \<Rightarrow> orm_sql_budget_amount" where
  "steps_amount steps = amount_zero(ORM_SQL_BUDGET_EXECUTION_STEPS := steps)"

definition charge_steps ::
    "orm_sql_predicate \<Rightarrow> turbodb_value \<Rightarrow> turbodb_value option \<Rightarrow> orm_tidesdb_sql_budget option
      \<Rightarrow> turbodb_status \<times> orm_tidesdb_sql_budget option" where
  "charge_steps predicate left right budget =
     (let a = snd (bytes_of left);
          b = (case right of None \<Rightarrow> 0 | Some r \<Rightarrow> snd (bytes_of r));
          compared = (if right \<noteq> None \<and> comparison_op (pred_op predicate) then (if a < b then a else b) else 0);
          steps = (if value_kind left = KIND_TEXT then add_steps 1 a else Some 1);
          steps = (case steps of None \<Rightarrow> None
                   | Some n \<Rightarrow> (case right of None \<Rightarrow> Some n
                               | Some r \<Rightarrow> if value_kind r = KIND_TEXT then add_steps n b else Some n));
          steps = (case steps of None \<Rightarrow> None | Some n \<Rightarrow> add_steps n compared) in
      case steps of None \<Rightarrow> (TURBODB_STATUS_LIMIT_EXCEEDED, budget)
      | Some n \<Rightarrow> orm_tidesdb_sql_budget_reserve budget (Some (steps_amount n)))"

definition valid_text :: "(bytes \<Rightarrow> bool) \<Rightarrow> turbodb_value \<Rightarrow> bool" where
  "valid_text utf8_valid v =
     (case tv_data v of TURBODB_VALUE_TEXT data sz \<Rightarrow> sz = 0 \<or> (case data of None \<Rightarrow> False | Some d \<Rightarrow> utf8_valid (take sz d)) | _ \<Rightarrow> True)"


section \<open>Comparison\<close>

text \<open>Comparisons of C: of doubles by the numbers, false when one is not a number, and of bytes by \<open>memcmp\<close>.\<close>

definition f64_isnan :: "f64 \<Rightarrow> bool" where
  "f64_isnan w \<longleftrightarrow> f64_exponent w = 0x7ff \<and> f64_mantissa w \<noteq> 0"

definition f64_less :: "f64 \<Rightarrow> f64 \<Rightarrow> bool" where
  "f64_less a b \<longleftrightarrow> \<not> f64_isnan a \<and> \<not> f64_isnan b \<and> f64_scaled a < f64_scaled b"

fun memcmp :: "bytes \<Rightarrow> bytes \<Rightarrow> int" where
  "memcmp (x # xs) (y # ys) = (if x < y then - 1 else if y < x then 1 else memcmp xs ys)" |
  "memcmp _ _ = 0"

text \<open>The conversion of an integer to double, rounding half to even.\<close>

definition nat_to_f64 :: "bool \<Rightarrow> nat \<Rightarrow> f64" where
  "nat_to_f64 negative n =
     (if n = 0 then 0
      else let k = highest_bit 63 n in
        f64_make negative (k + 1023)
          (if k \<le> 52 then n * 2 ^ (52 - k) - 2 ^ 52 else round_div n (2 ^ (k - 52)) - 2 ^ 52))"

definition i64_to_f64 :: "i64 \<Rightarrow> f64" where
  "i64_to_f64 i = nat_to_f64 (sint i < 0) (nat \<bar>sint i\<bar>)"

definition u64_to_f64 :: "u64 \<Rightarrow> f64" where
  "u64_to_f64 u = nat_to_f64 False (unat u)"

definition compare_u64 :: "u64 \<Rightarrow> u64 \<Rightarrow> int" where
  "compare_u64 a b = (if a < b then - 1 else if a > b then 1 else 0)"

text \<open>
  Members of the union.  The code reads the member that goes with the kind it has checked; the value
  given here for another kind is never used on validated operands.
\<close>

fun int64_value :: "turbodb_value_data \<Rightarrow> i64" where
  "int64_value (TURBODB_VALUE_INT64 i) = i" | "int64_value _ = 0"

fun uint64_value :: "turbodb_value_data \<Rightarrow> u64" where
  "uint64_value (TURBODB_VALUE_UINT64 u) = u" | "uint64_value _ = 0"

fun double_value :: "turbodb_value_data \<Rightarrow> f64" where
  "double_value (TURBODB_VALUE_DOUBLE d) = d" | "double_value _ = 0"

fun boolean_value :: "turbodb_value_data \<Rightarrow> u8" where
  "boolean_value (TURBODB_VALUE_BOOLEAN b) = b" | "boolean_value _ = 0"

definition numeric_real_value :: "turbodb_value \<Rightarrow> f64" where
  "numeric_real_value v =
     (if value_kind v = KIND_DOUBLE then double_value (tv_data v)
      else if value_kind v = KIND_INT64 then i64_to_f64 (int64_value (tv_data v)) else u64_to_f64 (uint64_value (tv_data v)))"

definition compare_doubles :: "f64 \<Rightarrow> f64 \<Rightarrow> int" where
  "compare_doubles a b = (if f64_less a b then - 1 else if f64_less b a then 1 else 0)"

definition compare_values :: "turbodb_value \<Rightarrow> turbodb_value \<Rightarrow> bool \<Rightarrow> int" where
  "compare_values left right real_comparison =
     (if real_comparison then compare_doubles (numeric_real_value left) (numeric_real_value right)
      else if integral (value_kind left) \<and> integral (value_kind right) then
        if value_kind left = KIND_INT64 \<and> value_kind right = KIND_INT64 then
          let a = int64_value (tv_data left); b = int64_value (tv_data right) in
          if sint a < sint b then - 1 else if sint a > sint b then 1 else 0
        else if value_kind left = KIND_UINT64 \<and> value_kind right = KIND_UINT64 then
          compare_u64 (uint64_value (tv_data left)) (uint64_value (tv_data right))
        else
          let signed_left = (value_kind left = KIND_INT64);
              s = (if signed_left then int64_value (tv_data left) else int64_value (tv_data right));
              u = (if signed_left then uint64_value (tv_data right) else uint64_value (tv_data left));
              order = (if sint s < 0 then - 1 else compare_u64 s u) in
          if signed_left then order else - order
      else if value_kind left = KIND_DOUBLE then compare_doubles (double_value (tv_data left)) (double_value (tv_data right))
      else if value_kind left = KIND_BOOLEAN then
        compare_u64 (ucast (boolean_value (tv_data left))) (ucast (boolean_value (tv_data right)))
      else
        let (a, n) = bytes_of left; (b, m) = bytes_of right;
            common = (if n < m then n else m);
            order = (if common \<noteq> 0 then memcmp (case a of None \<Rightarrow> [] | Some d \<Rightarrow> take common d) (case b of None \<Rightarrow> [] | Some d \<Rightarrow> take common d) else 0) in
        if order \<noteq> 0 then (if order < 0 then - 1 else 1) else compare_u64 (of_nat n) (of_nat m))"

definition truth :: "bool \<Rightarrow> turbodb_value" where
  "truth b = turbodb_bool (if b then 1 else 0)"

definition evaluate :: "orm_sql_predicate \<Rightarrow> turbodb_value \<Rightarrow> turbodb_value option \<Rightarrow> turbodb_value" where
  "evaluate predicate left right =
     (let op = pred_op predicate;
          a_null = (value_kind left = KIND_NULL);
          b_null = (case right of None \<Rightarrow> True | Some r \<Rightarrow> value_kind r = KIND_NULL);
          r = (case right of None \<Rightarrow> turbodb_null | Some r \<Rightarrow> r) in
      if op = ORM_SQL_IS_NULL then truth a_null
      else if op = ORM_SQL_IS_NOT_NULL then truth (\<not> a_null)
      else if op = ORM_SQL_NOT then (if a_null then turbodb_null else truth (boolean_value (tv_data left) = 0))
      else if op = ORM_SQL_AND \<or> op = ORM_SQL_OR then
        let decisive = (op = ORM_SQL_OR) in
        if (\<not> a_null \<and> (boolean_value (tv_data left) \<noteq> 0) = decisive) \<or> (\<not> b_null \<and> (boolean_value (tv_data r) \<noteq> 0) = decisive)
        then truth decisive
        else if a_null \<or> b_null then turbodb_null else truth (\<not> decisive)
      else if a_null \<or> b_null then
        if op = ORM_SQL_NULL_SAFE_EQUAL then truth (a_null \<and> b_null) else turbodb_null
      else
        let order = compare_values left r (pred_real_comparison predicate) in
        case op of
          ORM_SQL_EQUAL \<Rightarrow> truth (order = 0)
        | ORM_SQL_NULL_SAFE_EQUAL \<Rightarrow> truth (order = 0)
        | ORM_SQL_NOT_EQUAL \<Rightarrow> truth (order \<noteq> 0)
        | ORM_SQL_LESS \<Rightarrow> truth (order < 0)
        | ORM_SQL_LESS_EQUAL \<Rightarrow> truth (order \<le> 0)
        | ORM_SQL_GREATER \<Rightarrow> truth (order > 0)
        | _ \<Rightarrow> truth (order \<ge> 0))"

definition orm_tidesdb_sql_predicate_eval ::
    "(bytes \<Rightarrow> bool) \<Rightarrow> orm_sql_predicate option \<Rightarrow> turbodb_value option \<Rightarrow> turbodb_value option \<Rightarrow> orm_tidesdb_sql_budget option \<Rightarrow> bool
      \<Rightarrow> turbodb_status \<times> orm_tidesdb_sql_budget option \<times> turbodb_value option" where
  "orm_tidesdb_sql_predicate_eval utf8_valid predicate left right budget wants =
     (case (predicate, left, budget) of
        (Some p, Some l, Some b) \<Rightarrow>
          if \<not> wants \<or> (if unary (pred_op p) then right \<noteq> None else right = None) then (TURBODB_STATUS_INVALID_ARGUMENT, budget, None)
          else if pred_op p = ORM_SQL_NO_PREDICATE then (TURBODB_STATUS_INVALID_STATE, budget, None)
          else if \<not> valid_value l (pred_left p) \<or> (case right of None \<Rightarrow> False | Some r \<Rightarrow> \<not> valid_value r (pred_right p))
          then (TURBODB_STATUS_TYPE_ERROR, budget, None)
          else (case charge_steps p l right budget of (status, budget) \<Rightarrow>
            if status \<noteq> TURBODB_STATUS_OK then (status, budget, None)
            else if \<not> valid_text utf8_valid l \<or> (case right of None \<Rightarrow> False | Some r \<Rightarrow> \<not> valid_text utf8_valid r)
            then (TURBODB_STATUS_TYPE_ERROR, budget, None)
            else (TURBODB_STATUS_OK, budget, Some (evaluate p l right)))
      | _ \<Rightarrow> (TURBODB_STATUS_INVALID_ARGUMENT, budget, None))"

definition orm_tidesdb_sql_real_promote ::
    "turbodb_value option \<Rightarrow> orm_tidesdb_sql_budget option \<Rightarrow> bool \<Rightarrow> turbodb_status \<times> orm_tidesdb_sql_budget option \<times> turbodb_value option" where
  "orm_tidesdb_sql_real_promote input budget wants =
     (case input of None \<Rightarrow> (TURBODB_STATUS_INVALID_ARGUMENT, budget, None)
      | Some v \<Rightarrow>
        if \<not> wants then (TURBODB_STATUS_INVALID_ARGUMENT, budget, None)
        else if (\<not> assignment_numeric (value_kind v) \<and> value_kind v \<noteq> KIND_NULL) \<or>
                \<not> valid_value v \<lparr>sql_kind = value_kind v, sql_nullable = True\<rparr>
        then (TURBODB_STATUS_TYPE_ERROR, budget, None)
        else (case orm_tidesdb_sql_budget_reserve budget (Some (steps_amount 1)) of (status, budget) \<Rightarrow>
          (status, budget,
           if status \<noteq> TURBODB_STATUS_OK then None
           else Some (if value_kind v = KIND_NULL then turbodb_null else turbodb_f64 (numeric_real_value v)))))"

text \<open>The order of \<open>ORDER BY\<close>: nulls first, then by value.\<close>

definition orm_sql_value_order :: "turbodb_value \<Rightarrow> turbodb_value \<Rightarrow> int" where
  "orm_sql_value_order a b =
     (if value_kind a = KIND_NULL \<or> value_kind b = KIND_NULL then of_bool (value_kind b = KIND_NULL) - of_bool (value_kind a = KIND_NULL)
      else if value_kind a = KIND_BOOLEAN then
        of_bool (boolean_value (tv_data a) > boolean_value (tv_data b)) - of_bool (boolean_value (tv_data a) < boolean_value (tv_data b))
      else if value_kind a = KIND_INT64 then
        of_bool (sint (int64_value (tv_data a)) > sint (int64_value (tv_data b))) - of_bool (sint (int64_value (tv_data a)) < sint (int64_value (tv_data b)))
      else if value_kind a = KIND_UINT64 then
        of_bool (uint64_value (tv_data a) > uint64_value (tv_data b)) - of_bool (uint64_value (tv_data a) < uint64_value (tv_data b))
      else of_bool (f64_less (double_value (tv_data b)) (double_value (tv_data a))) - of_bool (f64_less (double_value (tv_data a)) (double_value (tv_data b))))"


section \<open>Specification\<close>

definition view :: "ptr \<Rightarrow> nat \<Rightarrow> bytes" where
  "view data sz = (case data of None \<Rightarrow> [] | Some d \<Rightarrow> take sz d)"

text \<open>The caller's contract on a view: it has the size it says, and a size fits \<open>size_t\<close>.\<close>

definition view_ok :: "turbodb_value \<Rightarrow> bool" where
  "view_ok v =
     (case tv_data v of
        TURBODB_VALUE_TEXT data sz \<Rightarrow> sz \<le> SIZE_MAX \<and> (case data of None \<Rightarrow> True | Some d \<Rightarrow> sz \<le> length d)
      | TURBODB_VALUE_BLOB data sz \<Rightarrow> sz \<le> SIZE_MAX \<and> (case data of None \<Rightarrow> True | Some d \<Rightarrow> sz \<le> length d)
      | _ \<Rightarrow> True)"

text \<open>Values of like kinds compare as the numbers and the byte strings they stand for; signed and unsigned integers may be mixed.\<close>

fun exact_less :: "turbodb_value_data \<Rightarrow> turbodb_value_data \<Rightarrow> bool" where
  "exact_less (TURBODB_VALUE_INT64 a) (TURBODB_VALUE_INT64 b) \<longleftrightarrow> sint a < sint b" |
  "exact_less (TURBODB_VALUE_INT64 a) (TURBODB_VALUE_UINT64 b) \<longleftrightarrow> sint a < uint b" |
  "exact_less (TURBODB_VALUE_UINT64 a) (TURBODB_VALUE_INT64 b) \<longleftrightarrow> uint a < sint b" |
  "exact_less (TURBODB_VALUE_UINT64 a) (TURBODB_VALUE_UINT64 b) \<longleftrightarrow> uint a < uint b" |
  "exact_less (TURBODB_VALUE_BOOLEAN a) (TURBODB_VALUE_BOOLEAN b) \<longleftrightarrow> a < b" |
  "exact_less (TURBODB_VALUE_TEXT a n) (TURBODB_VALUE_TEXT b m) \<longleftrightarrow> view a n < view b m" |
  "exact_less (TURBODB_VALUE_BLOB a n) (TURBODB_VALUE_BLOB b m) \<longleftrightarrow> view a n < view b m" |
  "exact_less _ _ \<longleftrightarrow> False"

text \<open>
  An integer next to a double is first rounded to 53 significant bits, half to even; \<open>real_number\<close> gives the number
  in units of \<open>2 ^ -1074\<close>, as \<open>f64_scaled\<close> does.  Whether a comparison is one of reals is read off the values alone.
\<close>

definition round53 :: "nat \<Rightarrow> nat" where
  "round53 n = (if n < 2 ^ 53 then n else let unit = 2 ^ (highest_bit 63 n - 52) in round_div n unit * unit)"

fun real_number :: "turbodb_value_data \<Rightarrow> int" where
  "real_number (TURBODB_VALUE_DOUBLE d) = f64_scaled d" |
  "real_number (TURBODB_VALUE_INT64 i) = sgn (sint i) * int (round53 (nat \<bar>sint i\<bar>)) * 2 ^ 1074" |
  "real_number (TURBODB_VALUE_UINT64 u) = int (round53 (unat u)) * 2 ^ 1074" |
  "real_number _ = 0"

fun is_double :: "turbodb_value_data \<Rightarrow> bool" where
  "is_double (TURBODB_VALUE_DOUBLE _) \<longleftrightarrow> True" | "is_double _ \<longleftrightarrow> False"

definition datum_less :: "turbodb_value \<Rightarrow> turbodb_value \<Rightarrow> bool" where
  "datum_less a b =
     (if is_double (tv_data a) \<or> is_double (tv_data b) then real_number (tv_data a) < real_number (tv_data b)
      else exact_less (tv_data a) (tv_data b))"

fun kleene_and :: "bool option \<Rightarrow> bool option \<Rightarrow> bool option" where
  "kleene_and (Some False) _ = Some False" |
  "kleene_and _ (Some False) = Some False" |
  "kleene_and (Some True) (Some True) = Some True" |
  "kleene_and _ _ = None"

definition kleene_or :: "bool option \<Rightarrow> bool option \<Rightarrow> bool option" where
  "kleene_or a b = map_option Not (kleene_and (map_option Not a) (map_option Not b))"

fun truth_value :: "turbodb_value_data \<Rightarrow> bool option" where
  "truth_value (TURBODB_VALUE_BOOLEAN b) = Some (b \<noteq> 0)" | "truth_value _ = None"

definition is_null :: "turbodb_value \<Rightarrow> bool" where
  "is_null v \<longleftrightarrow> tv_data v = TURBODB_VALUE_NULL"

definition comparison_spec :: "orm_sql_predicate_op \<Rightarrow> bool \<Rightarrow> bool \<Rightarrow> bool" where
  "comparison_spec op lt gt =
     (case op of
        ORM_SQL_EQUAL \<Rightarrow> \<not> lt \<and> \<not> gt
      | ORM_SQL_NULL_SAFE_EQUAL \<Rightarrow> \<not> lt \<and> \<not> gt
      | ORM_SQL_NOT_EQUAL \<Rightarrow> lt \<or> gt
      | ORM_SQL_LESS \<Rightarrow> lt
      | ORM_SQL_LESS_EQUAL \<Rightarrow> \<not> gt
      | ORM_SQL_GREATER \<Rightarrow> gt
      | _ \<Rightarrow> \<not> lt)"

definition predicate_spec :: "orm_sql_predicate_op \<Rightarrow> turbodb_value \<Rightarrow> turbodb_value \<Rightarrow> bool option" where
  "predicate_spec op a b =
     (case op of
        ORM_SQL_IS_NULL \<Rightarrow> Some (is_null a)
      | ORM_SQL_IS_NOT_NULL \<Rightarrow> Some (\<not> is_null a)
      | ORM_SQL_NOT \<Rightarrow> map_option Not (truth_value (tv_data a))
      | ORM_SQL_AND \<Rightarrow> kleene_and (truth_value (tv_data a)) (truth_value (tv_data b))
      | ORM_SQL_OR \<Rightarrow> kleene_or (truth_value (tv_data a)) (truth_value (tv_data b))
      | _ \<Rightarrow>
        if is_null a \<or> is_null b then (if op = ORM_SQL_NULL_SAFE_EQUAL then Some (is_null a \<and> is_null b) else None)
        else Some (comparison_spec op (datum_less a b) (datum_less b a)))"

definition sql_result :: "bool option \<Rightarrow> turbodb_value" where
  "sql_result t = (case t of None \<Rightarrow> turbodb_null | Some b \<Rightarrow> truth b)"


section \<open>Comparison is exact\<close>

lemma f64_finite_not_nan: "f64_isfinite a \<Longrightarrow> \<not> f64_isnan a"
  by (simp add: f64_isfinite_def f64_isnan_def)

lemma compare_doubles_finite:
  "f64_isfinite a \<Longrightarrow> f64_isfinite b \<Longrightarrow>
   compare_doubles a b = (if f64_scaled a < f64_scaled b then - 1 else if f64_scaled b < f64_scaled a then 1 else 0)"
  by (simp add: compare_doubles_def f64_less_def f64_finite_not_nan)

lemma round_div_bounds:
  assumes "0 < b" and "b * lo \<le> a" and "a < b * hi"
  shows "lo \<le> round_div a b" and "round_div a b \<le> hi"
proof -
  have "lo \<le> a div b" "a div b < hi" using assms by (simp_all add: less_eq_div_iff_mult_less_eq div_less_iff_less_mult mult.commute)
  then show "lo \<le> round_div a b" "round_div a b \<le> hi" by (auto simp: round_div_def Let_def)
qed

lemma f64_make_carry: "f64_make s e (2 ^ 52) = f64_make s (e + 1) 0"
  by (simp add: f64_make_def algebra_simps)

lemma nat_to_f64_finite: "n < 2 ^ 64 \<Longrightarrow> f64_isfinite (nat_to_f64 s n)"
proof (cases "n = 0")
  case True
  then show ?thesis by (simp add: nat_to_f64_def f64_isfinite_def f64_exponent_def)
next
  case False
  assume "n < 2 ^ 64"
  define k where "k = highest_bit 63 n"
  have k: "k \<le> 63" "2 ^ k \<le> n" "n < 2 ^ Suc k" using highest_bit_bounds [of n 63] False \<open>n < 2 ^ 64\<close> by (auto simp: k_def)
  define m where "m = (if k \<le> 52 then n * 2 ^ (52 - k) - 2 ^ 52 else round_div n (2 ^ (k - 52)) - 2 ^ 52)"
  have "m \<le> 2 ^ 52"
  proof (cases "k \<le> 52")
    case True
    have "n * 2 ^ (52 - k) < 2 ^ Suc k * 2 ^ (52 - k)" using k(3) by simp
    also have "\<dots> = 2 ^ 53" using True by (simp only: power_add [symmetric]) simp
    finally show ?thesis using True by (simp add: m_def)
  next
    case False
    have "(2 :: nat) ^ (k - 52) * 2 ^ 53 = 2 ^ Suc k" using False by (simp only: power_add [symmetric]) simp
    then have "n < 2 ^ (k - 52) * 2 ^ 53" using k(3) by simp
    then have "round_div n (2 ^ (k - 52)) \<le> 2 ^ 53" using round_div_bounds(2) [of "2 ^ (k - 52)" 0 n] by simp
    then show ?thesis using False by (simp add: m_def)
  qed
  moreover have eq: "nat_to_f64 s n = f64_make s (k + 1023) m" using False by (simp add: nat_to_f64_def k_def m_def Let_def)
  ultimately consider "m < 2 ^ 52" | "nat_to_f64 s n = f64_make s (k + 1024) 0" using f64_make_carry [of s "k + 1023"] by (cases "m = 2 ^ 52") (auto simp: add.commute)
  then show ?thesis
  proof cases
    case 1
    then show ?thesis using f64_make_fields(1) [of "k + 1023" m s] k(1) eq by (simp add: f64_isfinite_def)
  next
    case 2
    then show ?thesis using f64_make_fields(1) [of "k + 1024" 0 s] k(1) by (simp add: f64_isfinite_def)
  qed
qed

text \<open>Integers of at most 53 bits are not rounded.\<close>

lemma nat_to_f64_exact:
  assumes "n < 2 ^ 53"
  shows "f64_scaled (nat_to_f64 s n) = (if s then - 1 else 1) * int n * 2 ^ 1074"
proof (cases "n = 0")
  case True
  then show ?thesis by (simp add: nat_to_f64_def f64_scaled_def f64_exponent_def f64_mantissa_def)
next
  case False
  define k where "k = highest_bit 63 n"
  have "k \<le> 63 \<and> 2 ^ k \<le> n \<and> n < 2 ^ Suc k" using highest_bit_bounds [of n 63] False assms by (simp add: k_def)
  moreover have "\<not> 53 \<le> k"
  proof
    assume "53 \<le> k"
    then have "(2 :: nat) ^ 53 \<le> 2 ^ k" by (rule power_increasing) simp
    then show False using assms calculation by simp
  qed
  ultimately have k: "k \<le> 52" "2 ^ k \<le> n" "n < 2 ^ Suc k" by simp_all
  define m where "m = n * 2 ^ (52 - k) - 2 ^ 52"
  have p: "(2 :: nat) ^ k * 2 ^ (52 - k) = 2 ^ 52" using k(1) by (simp only: power_add [symmetric]) simp
  have lo: "2 ^ 52 \<le> n * 2 ^ (52 - k)" using mult_right_mono [OF k(2), of "2 ^ (52 - k)"] p by simp
  have "n * 2 ^ (52 - k) < 2 ^ Suc k * 2 ^ (52 - k)" using k(3) by simp
  also have "\<dots> = 2 * 2 ^ 52" using p by (simp only: power_Suc mult.assoc)
  finally have m: "m < 2 ^ 52" "2 ^ 52 + m = n * 2 ^ (52 - k)" using p lo by (simp_all add: m_def)
  have "nat_to_f64 s n = f64_make s (k + 1023) m" using False k(1) by (simp add: nat_to_f64_def k_def m_def Let_def)
  moreover have "n * 2 ^ (52 - k) * 2 ^ (k + 1023 - 1) = n * 2 ^ 1074"
  proof -
    have "(2 :: nat) ^ (52 - k) * 2 ^ (k + 1023 - 1) = 2 ^ 1074" using k(1) by (simp only: power_add [symmetric]) simp
    then show ?thesis by (simp only: mult.assoc)
  qed
  ultimately show ?thesis
    using f64_make_fields [of "k + 1023" m s] k(1) m by (auto simp: f64_scaled_def Let_def mult.assoc simp flip: of_nat_mult of_nat_power)
qed

lemma f64_make_scaled:
  assumes "0 < e" and "e < 2047" and "m < 2 ^ 52"
  shows "f64_scaled (f64_make s e m) = (if s then - 1 else 1) * int ((2 ^ 52 + m) * 2 ^ (e - 1))"
  using f64_make_fields [of e m s] assms by (auto simp: f64_scaled_def Let_def)

lemma nat_to_f64_rounds:
  assumes "n < 2 ^ 64"
  shows "f64_scaled (nat_to_f64 s n) = (if s then - 1 else 1) * int (round53 n) * 2 ^ 1074"
proof (cases "n < 2 ^ 53")
  case True
  then show ?thesis by (simp add: nat_to_f64_exact round53_def)
next
  case False
  define k where "k = highest_bit 63 n"
  have "0 < n" using False by (cases n) simp_all
  then have k: "k \<le> 63" "2 ^ k \<le> n" "n < 2 ^ Suc k" using highest_bit_bounds [of n 63] assms by (auto simp: k_def)
  have k52: "52 < k"
  proof (rule ccontr)
    assume "\<not> 52 < k"
    then have "(2 :: nat) ^ Suc k \<le> 2 ^ 53" by (intro power_increasing) simp_all
    then show False using k(3) False by simp
  qed
  define q where "q = round_div n (2 ^ (k - 52))"
  have "(2 :: nat) ^ (k - 52) * 2 ^ 52 = 2 ^ k" "(2 :: nat) ^ (k - 52) * 2 ^ 53 = 2 ^ Suc k"
    using k52 by (simp_all only: power_add [symmetric]) simp_all
  then have q: "2 ^ 52 \<le> q" "q \<le> 2 ^ 53"
    using round_div_bounds [of "2 ^ (k - 52)" "2 ^ 52" n "2 ^ 53"] k by (simp_all add: q_def)
  have eq: "nat_to_f64 s n = f64_make s (k + 1023) (q - 2 ^ 52)"
    using \<open>0 < n\<close> k52 by (simp add: nat_to_f64_def k_def q_def Let_def)
  have unit: "(2 :: nat) ^ (k - 52) * 2 ^ 1074 = 2 ^ (k + 1022)" using k52 by (simp only: power_add [symmetric]) simp
  have "round53 n = q * 2 ^ (k - 52)" using False by (simp add: round53_def k_def q_def Let_def)
  then have amount: "round53 n * 2 ^ 1074 = q * 2 ^ (k + 1022)" using unit by (simp only: mult.assoc)
  have sum: "int (round53 n) * 2 ^ 1074 = int (q * 2 ^ (k + 1022))"
    unfolding amount [symmetric] by simp
  show ?thesis
  proof (cases "q = 2 ^ 53")
    case True
    have "f64_scaled (nat_to_f64 s n) = (if s then - 1 else 1) * int (2 ^ 52 * 2 ^ (k + 1023))"
      using eq f64_make_carry [of s "k + 1023"] f64_make_scaled [of "k + 1024" 0 s] k(1) True by (simp add: add.commute)
    moreover have "(2 :: nat) ^ 52 * 2 ^ (k + 1023) = q * 2 ^ (k + 1022)" unfolding True by (simp only: power_add [symmetric]) simp
    ultimately show ?thesis unfolding mult.assoc sum by metis
  next
    case False
    then have "q - 2 ^ 52 < 2 ^ 52" "2 ^ 52 + (q - 2 ^ 52) = q" using q by simp_all
    then have "f64_scaled (nat_to_f64 s n) = (if s then - 1 else 1) * int (q * 2 ^ (k + 1022))"
      using eq f64_make_scaled [of "k + 1023" "q - 2 ^ 52" s] k(1) by simp
    then show ?thesis unfolding mult.assoc sum .
  qed
qed

lemma real_number_value:
  assumes "assignment_numeric (value_kind v)"
  shows "f64_scaled (numeric_real_value v) = real_number (tv_data v)"
proof (cases "tv_data v")
  case (TURBODB_VALUE_INT64 i)
  have "nat \<bar>sint i\<bar> < 2 ^ 64" using sint_greater_eq [of i] sint_less [of i] by simp
  from nat_to_f64_rounds [OF this] show ?thesis using TURBODB_VALUE_INT64
    by (auto simp: numeric_real_value_def i64_to_f64_def round53_def sgn_if)
next
  case (TURBODB_VALUE_UINT64 u)
  then show ?thesis using nat_to_f64_rounds [of "unat u" False] unsigned_less [of u, where 'a = nat]
    by (simp add: numeric_real_value_def u64_to_f64_def)
qed (use assms in \<open>simp_all add: numeric_real_value_def assignment_numeric_def\<close>)

lemma memcmp_prefix: "memcmp (take (min (length a) (length b)) a) (take (min (length a) (length b)) b) = memcmp a b"
  by (induction a b rule: memcmp.induct) auto

lemma nil_less: "[] < (v :: bytes) \<longleftrightarrow> v \<noteq> []"
  by (cases v) simp_all

lemma memcmp_order:
  "(if memcmp a b \<noteq> 0 then (if memcmp a b < 0 then - 1 else 1) else if length a < length b then - 1 else if length b < length a then 1 else 0) =
   (if a < b then - 1 else if b < a then 1 else (0 :: int))"
  by (induction a b rule: memcmp.induct) (auto simp: nil_less split: if_splits)

text \<open>Operands that the binder lets meet in a comparison.\<close>

definition comparable :: "turbodb_value \<Rightarrow> turbodb_value \<Rightarrow> bool" where
  "comparable a b \<longleftrightarrow>
     (if is_double (tv_data a) \<or> is_double (tv_data b) then assignment_numeric (value_kind a) \<and> assignment_numeric (value_kind b)
      else value_kind a = value_kind b \<or> (integral (value_kind a) \<and> integral (value_kind b)))"

lemma numeric_real_finite:
  assumes "valid_value v t" and "assignment_numeric (value_kind v)"
  shows "f64_isfinite (numeric_real_value v)"
proof (cases "tv_data v")
  case (TURBODB_VALUE_INT64 i)
  have "nat \<bar>sint i\<bar> < 2 ^ 64" using sint_greater_eq [of i] sint_less [of i] by simp
  then show ?thesis using TURBODB_VALUE_INT64 by (simp add: numeric_real_value_def i64_to_f64_def nat_to_f64_finite)
next
  case (TURBODB_VALUE_UINT64 u)
  then show ?thesis using unsigned_less [of u, where 'a = nat] by (simp add: numeric_real_value_def u64_to_f64_def nat_to_f64_finite)
qed (use assms in \<open>auto simp: numeric_real_value_def valid_value_def assignment_numeric_def split: if_splits\<close>)

lemma compare_u64_sign: "compare_u64 a b = (if uint a < uint b then - 1 else if uint b < uint a then 1 else 0)"
  by (simp add: compare_u64_def word_less_def)

lemma compare_views:
  assumes "n \<le> SIZE_MAX" "m \<le> SIZE_MAX" and "n = 0 \<or> (\<exists>d. a = Some d \<and> n \<le> length d)" and "m = 0 \<or> (\<exists>d. b = Some d \<and> m \<le> length d)"
  shows "(let common = (if n < m then n else m);
        order = (if common \<noteq> 0 then memcmp (case a of None \<Rightarrow> [] | Some d \<Rightarrow> take common d) (case b of None \<Rightarrow> [] | Some d \<Rightarrow> take common d) else 0) in
      if order \<noteq> 0 then (if order < 0 then - 1 else 1) else compare_u64 (of_nat n) (of_nat m)) =
    (if view a n < view b m then - 1 else if view b m < view a n then 1 else (0 :: int))"
proof -
  let ?a = "view a n" and ?b = "view b m" and ?c = "if n < m then n else m"
  have len: "length ?a = n" "length ?b = m" using assms(3,4) by (auto simp: view_def split: option.splits)
  have pre: "(case a of None \<Rightarrow> [] | Some d \<Rightarrow> take ?c d) = take ?c ?a" "(case b of None \<Rightarrow> [] | Some d \<Rightarrow> take ?c d) = take ?c ?b"
    by (auto simp: view_def min_def split: option.splits)
  have c: "?c = min (length ?a) (length ?b)" using len by simp
  have order: "(if ?c \<noteq> 0 then memcmp (take ?c ?a) (take ?c ?b) else 0) = memcmp ?a ?b"
    unfolding c memcmp_prefix using len by (cases ?a; cases ?b) auto
  have "uint (of_nat n :: u64) = int n" "uint (of_nat m :: u64) = int m"
    using assms(1,2) by (simp_all add: SIZE_MAX_def unsigned_of_nat take_bit_nat_eq_self)
  then have "compare_u64 (of_nat n) (of_nat m) = (if length ?a < length ?b then - 1 else if length ?b < length ?a then 1 else 0)"
    unfolding compare_u64_sign len by simp
  then show ?thesis using memcmp_order [of ?a ?b] by (simp only: Let_def pre order)
qed

lemma mixed_order:
  fixes s u :: u64
  shows "(if sint s < 0 then - 1 else compare_u64 s u) = (if sint s < uint u then - 1 else if uint u < sint s then 1 else (0 :: int))"
proof (cases "sint s < 0")
  case True
  then show ?thesis using unsigned_greater_eq [of u] by (simp add: less_le_trans)
next
  case False
  then have "uint s = sint s" using sint_less [of s] by (simp add: uint_sint take_bit_int_eq_self)
  then show ?thesis using False by (simp add: compare_u64_sign)
qed

lemma widen_byte: "uint (ucast (x :: u8) :: u64) = uint x"
  by (simp add: uint_up_ucast is_up)

lemma compare_values_sign:
  assumes "comparable a b" and "valid_value a s" "valid_value b t" and "view_ok a" "view_ok b" and "\<not> is_null a" "\<not> is_null b"
  shows "compare_values a b (is_double (tv_data a) \<or> is_double (tv_data b)) = (if datum_less a b then - 1 else if datum_less b a then 1 else 0)"
proof (cases "is_double (tv_data a) \<or> is_double (tv_data b)")
  case True
  then show ?thesis using assms(1-3) numeric_real_finite real_number_value
    by (auto simp: comparable_def compare_values_def datum_less_def compare_doubles_finite)
next
  case False
  note defs = comparable_def compare_values_def datum_less_def integral_def compare_u64_sign mixed_order Let_def
  show ?thesis
  proof (cases "tv_data a")
    case (TURBODB_VALUE_TEXT d n)
    then obtain e m where b: "tv_data b = TURBODB_VALUE_TEXT e m" using False assms(1) by (cases "tv_data b") (auto simp: comparable_def integral_def)
    have "n \<le> SIZE_MAX" "m \<le> SIZE_MAX" "n = 0 \<or> (\<exists>x. d = Some x \<and> n \<le> length x)" "m = 0 \<or> (\<exists>x. e = Some x \<and> m \<le> length x)"
      using assms(2-5) TURBODB_VALUE_TEXT b by (auto simp: view_ok_def valid_value_def split: if_splits option.splits)
    from compare_views [OF this] show ?thesis
      using False TURBODB_VALUE_TEXT b by (simp add: compare_values_def datum_less_def integral_def bytes_of_def)
  next
    case (TURBODB_VALUE_BLOB d n)
    then obtain e m where b: "tv_data b = TURBODB_VALUE_BLOB e m" using False assms(1) by (cases "tv_data b") (auto simp: comparable_def integral_def)
    have "n \<le> SIZE_MAX" "m \<le> SIZE_MAX" "n = 0 \<or> (\<exists>x. d = Some x \<and> n \<le> length x)" "m = 0 \<or> (\<exists>x. e = Some x \<and> m \<le> length x)"
      using assms(2-5) TURBODB_VALUE_BLOB b by (auto simp: view_ok_def valid_value_def split: if_splits option.splits)
    from compare_views [OF this] show ?thesis
      using False TURBODB_VALUE_BLOB b by (simp add: compare_values_def datum_less_def integral_def bytes_of_def)
  next
    case (TURBODB_VALUE_DOUBLE d)
    then show ?thesis using False by simp
  next
    case (TURBODB_VALUE_BOOLEAN d)
    then show ?thesis using False assms(1)
      by (cases "tv_data b") (auto simp: defs word_less_def widen_byte)
  next
    case (TURBODB_VALUE_INT64 i)
    then show ?thesis using False assms(1) by (cases "tv_data b") (auto simp: defs)
  next
    case (TURBODB_VALUE_UINT64 u)
    then show ?thesis using False assms(1) by (cases "tv_data b") (auto simp: defs)
  next
    case TURBODB_VALUE_NULL
    then show ?thesis using assms(6) by (simp add: is_null_def)
  next
    case TURBODB_VALUE_OTHER
    then show ?thesis using assms(2) by (auto simp: valid_value_def split: if_splits)
  qed
qed


section \<open>Evaluation follows the three-valued logic\<close>

definition operands_ok :: "(bytes \<Rightarrow> bool) \<Rightarrow> orm_sql_type \<Rightarrow> turbodb_value \<Rightarrow> bool" where
  "operands_ok utf8_valid t v \<longleftrightarrow> valid_value v t \<and> view_ok v \<and> valid_text utf8_valid v"

lemma bound_operator:
  "orm_tidesdb_sql_predicate_bind op l r True = Inr p \<Longrightarrow> pred_op p = op \<and> op \<noteq> ORM_SQL_NO_PREDICATE \<and> pred_left p = l \<and> (r = None \<longleftrightarrow> unary op)"
  by (auto simp: orm_tidesdb_sql_predicate_bind_def Let_def split: if_splits)

lemma bound_unary:
  assumes "orm_tidesdb_sql_predicate_bind op l None True = Inr p"
  shows "op = ORM_SQL_NOT \<Longrightarrow> boolean_type (sql_kind l)"
    and "pred_result p = \<lparr>sql_kind = KIND_BOOLEAN, sql_nullable = (op = ORM_SQL_NOT \<and> sql_nullable l)\<rparr>"
  using assms by (auto simp: orm_tidesdb_sql_predicate_bind_def Let_def unary_def split: if_splits)

lemma bound_binary:
  assumes "orm_tidesdb_sql_predicate_bind op l (Some t) True = Inr p"
  shows "pred_right p = t"
    and "op = ORM_SQL_AND \<or> op = ORM_SQL_OR \<Longrightarrow> boolean_type (sql_kind l) \<and> boolean_type (sql_kind t)"
    and "comparison_op op \<Longrightarrow> sql_kind l = KIND_NULL \<or> sql_kind t = KIND_NULL \<or> sql_kind l = sql_kind t \<or>
           (assignment_numeric (sql_kind l) \<and> assignment_numeric (sql_kind t))"
    and "comparison_op op \<Longrightarrow> pred_real_comparison p = (sql_kind l = KIND_DOUBLE \<or> sql_kind t = KIND_DOUBLE)"
    and "pred_result p = \<lparr>sql_kind = KIND_BOOLEAN, sql_nullable = (op \<noteq> ORM_SQL_NULL_SAFE_EQUAL \<and> (sql_nullable l \<or> sql_nullable t))\<rparr>"
proof -
  note defs = orm_tidesdb_sql_predicate_bind_def Let_def unary_def comparison_op_def
  show "pred_right p = t"
    using assms by (cases op) (auto simp: defs split: if_splits)
  show "boolean_type (sql_kind l) \<and> boolean_type (sql_kind t)" if "op = ORM_SQL_AND \<or> op = ORM_SQL_OR"
    using assms that by (cases op) (auto simp: defs split: if_splits)
  show "sql_kind l = KIND_NULL \<or> sql_kind t = KIND_NULL \<or> sql_kind l = sql_kind t \<or> (assignment_numeric (sql_kind l) \<and> assignment_numeric (sql_kind t))" if "comparison_op op"
    using assms that by (cases op) (auto simp: defs split: if_splits)
  show "pred_real_comparison p = (sql_kind l = KIND_DOUBLE \<or> sql_kind t = KIND_DOUBLE)" if "comparison_op op"
    using assms that by (cases op) (auto simp: defs split: if_splits)
  show "pred_result p = \<lparr>sql_kind = KIND_BOOLEAN, sql_nullable = (op \<noteq> ORM_SQL_NULL_SAFE_EQUAL \<and> (sql_nullable l \<or> sql_nullable t))\<rparr>"
    using assms by (cases op) (auto simp: defs split: if_splits)
qed

lemma boolean_operand:
  assumes "valid_value v t" and "boolean_type (sql_kind t)"
  shows "truth_value (tv_data v) = (if value_kind v = KIND_NULL then None else Some (boolean_value (tv_data v) \<noteq> 0))"
  using assms by (cases "tv_data v") (auto simp: valid_value_def boolean_type_def split: if_splits)

lemma null_kind: "value_kind v = KIND_NULL \<longleftrightarrow> is_null v"
  by (cases "tv_data v") (simp_all add: is_null_def)

lemma valid_truth [simp]: "valid_value (truth b) \<lparr>sql_kind = KIND_BOOLEAN, sql_nullable = n\<rparr>"
  by (simp add: truth_def turbodb_bool_def valid_value_def)

lemma valid_null: "valid_value turbodb_null t \<longleftrightarrow> sql_nullable t"
  by (simp add: turbodb_null_def valid_value_def)

lemma null_operand: "valid_value v t \<Longrightarrow> is_null v \<Longrightarrow> sql_nullable t"
  by (auto simp: valid_value_def is_null_def split: if_splits)

lemma operands_comparable:
  assumes "valid_value a l" "valid_value b t" and "\<not> is_null a" "\<not> is_null b"
    and "sql_kind l = KIND_NULL \<or> sql_kind t = KIND_NULL \<or> sql_kind l = sql_kind t \<or> (assignment_numeric (sql_kind l) \<and> assignment_numeric (sql_kind t))"
  shows "comparable a b" and "is_double (tv_data a) \<or> is_double (tv_data b) \<longleftrightarrow> sql_kind l = KIND_DOUBLE \<or> sql_kind t = KIND_DOUBLE"
proof -
  have "value_kind a = sql_kind l" "value_kind b = sql_kind t" "sql_kind l \<noteq> KIND_NULL" "sql_kind t \<noteq> KIND_NULL"
    using assms(1-4) by (auto simp: valid_value_def null_kind [symmetric] split: if_splits)
  moreover have "is_double x \<longleftrightarrow> kind_of x = KIND_DOUBLE" for x by (cases x) simp_all
  ultimately show "is_double (tv_data a) \<or> is_double (tv_data b) \<longleftrightarrow> sql_kind l = KIND_DOUBLE \<or> sql_kind t = KIND_DOUBLE" "comparable a b"
    using assms(5) by (auto simp: comparable_def assignment_numeric_def integral_def)
qed

lemma evaluate_unary:
  assumes "pred_op p = op" and "unary op" and "valid_value a l" and "op = ORM_SQL_NOT \<Longrightarrow> boolean_type (sql_kind l)"
  shows "evaluate p a None = sql_result (predicate_spec op a turbodb_null)"
  using assms boolean_operand [of a l]
  by (auto simp: unary_def evaluate_def predicate_spec_def sql_result_def null_kind Let_def)

lemma evaluate_connective:
  assumes "pred_op p = op" and "op = ORM_SQL_AND \<or> op = ORM_SQL_OR"
    and "valid_value a l" "valid_value b t" and "boolean_type (sql_kind l)" "boolean_type (sql_kind t)"
  shows "evaluate p a (Some b) = sql_result (predicate_spec op a b)"
  using assms(1,2) unfolding evaluate_def predicate_spec_def
  by (cases "boolean_value (tv_data a) = 0"; cases "boolean_value (tv_data b) = 0"; auto simp: boolean_operand [OF assms(3,5)] boolean_operand [OF assms(4,6)] sql_result_def kleene_or_def Let_def)

lemma evaluate_comparison:
  assumes "pred_op p = op" and "comparison_op op" and "pred_real_comparison p = real"
    and order: "\<not> is_null a \<Longrightarrow> \<not> is_null b \<Longrightarrow> compare_values a b real = (if lt then - 1 else if gt then 1 else 0)"
    and less: "datum_less a b = lt" "datum_less b a = gt" "\<not> (lt \<and> gt)"
  shows "evaluate p a (Some b) = sql_result (predicate_spec op a b)"
proof (cases "is_null a \<or> is_null b")
  case True
  then show ?thesis using assms(1,2) by (cases op) (auto simp: comparison_op_def evaluate_def predicate_spec_def sql_result_def null_kind Let_def)
next
  case False
  then show ?thesis using assms(1-3) order less(3)
    by (cases lt; cases gt; cases op)
      (simp_all add: comparison_op_def evaluate_def predicate_spec_def comparison_spec_def sql_result_def null_kind less Let_def)
qed

lemma datum_less_asym: "datum_less a b \<Longrightarrow> \<not> datum_less b a"
  by (cases "tv_data a"; cases "tv_data b") (auto simp: datum_less_def split: if_splits)

lemma evaluate_bound:
  assumes "orm_tidesdb_sql_predicate_bind op l r True = Inr p"
    and "operands_ok utf8_valid l a" and "rel_option (operands_ok utf8_valid) r right"
  shows "evaluate p a right = sql_result (predicate_spec op a (case right of None \<Rightarrow> turbodb_null | Some b \<Rightarrow> b))"
proof (cases r)
  case None
  then show ?thesis
    using bound_unary(1) [OF assms(1) [unfolded None]] bound_operator [OF assms(1)] assms(2,3) evaluate_unary [of p op a l]
    by (simp add: operands_ok_def)
next
  case (Some t)
  with assms(3) obtain b where b: "right = Some b" "operands_ok utf8_valid t b" by (auto simp: option_rel_Some1)
  have ok: "valid_value a l" "view_ok a" "valid_value b t" "view_ok b" using assms(2) b(2) by (simp_all add: operands_ok_def)
  note t = bound_binary [OF assms(1) [unfolded Some]]
  note op = bound_operator [OF assms(1), THEN conjunct1]
  consider "op = ORM_SQL_AND \<or> op = ORM_SQL_OR" | "comparison_op op"
    using Some bound_operator [OF assms(1)] by (cases op) (auto simp: comparison_op_def unary_def)
  then show ?thesis
  proof cases
    case 1
    then show ?thesis using evaluate_connective [OF op 1 ok(1,3)] t(2) b(1) by simp
  next
    case 2
    have "compare_values a b (pred_real_comparison p) =
        (if datum_less a b then - 1 else if datum_less b a then 1 else 0)"
      if "\<not> is_null a" "\<not> is_null b"
      using compare_values_sign [OF operands_comparable(1) [OF ok(1,3) that t(3) [OF 2]] ok(1,3,2,4) that]
      unfolding operands_comparable(2) [OF ok(1,3) that t(3) [OF 2]] t(4) [OF 2] .
    from evaluate_comparison [OF op 2 refl this refl refl] show ?thesis using datum_less_asym b(1) by auto
  qed
qed

lemma evaluate_typed:
  assumes "orm_tidesdb_sql_predicate_bind op l r True = Inr p"
    and "operands_ok utf8_valid l a" and "rel_option (operands_ok utf8_valid) r right"
  shows "valid_value (evaluate p a right) (pred_result p)"
proof (cases r)
  case None
  then show ?thesis using bound_unary(2) [of op l p] bound_operator [OF assms(1)] assms null_operand [of a l]
    by (auto simp: evaluate_def operands_ok_def unary_def null_kind valid_null Let_def)
next
  case (Some t)
  with assms(3) obtain b where b: "right = Some b" "operands_ok utf8_valid t b" by (auto simp: option_rel_Some1)
  have null: "is_null a \<Longrightarrow> sql_nullable l" "is_null b \<Longrightarrow> sql_nullable t"
    using null_operand assms(2) b(2) by (auto simp: operands_ok_def)
  have "\<not> unary op" "pred_op p = op" using bound_operator [OF assms(1)] Some by simp_all
  then show ?thesis using bound_binary(5) [OF assms(1) [unfolded Some]] null
    by (cases op) (auto simp: evaluate_def b(1) unary_def null_kind valid_null Let_def)
qed

text \<open>
  C36. The predicate evaluator implements SQL's three-valued logic.  A predicate bound to its operand types, applied
  to values of these types whose text is valid, returns as soon as the budget pays for the step count, and the value
  returned is what the specification says: \<open>NOT\<close>, \<open>AND\<close> and \<open>OR\<close> are Kleene's connectives, a comparison with NULL is
  NULL except for \<open><=>\<close>, and other comparisons decide the exact order of the integers (signed against unsigned
  included, however large), of the byte strings, or, only when one of the values is a double, of the numbers they denote after an integer
  is rounded to 53 bits, half to even.  The value has the result
  type the binder announced: NULL only where that type is nullable.
\<close>

theorem predicate_eval_spec:
  assumes "orm_tidesdb_sql_predicate_bind op l r True = Inr p"
    and "operands_ok utf8_valid l a" and "rel_option (operands_ok utf8_valid) r right"
    and "charge_steps p a right (Some budget) = (TURBODB_STATUS_OK, budget')"
  shows "\<exists>out. orm_tidesdb_sql_predicate_eval utf8_valid (Some p) (Some a) right (Some budget) True = (TURBODB_STATUS_OK, budget', Some out) \<and>
    out = sql_result (predicate_spec op a (case right of None \<Rightarrow> turbodb_null | Some b \<Rightarrow> b)) \<and>
    valid_value out (pred_result p)"
proof -
  have "right = None \<longleftrightarrow> unary op" and "pred_op p = op" "op \<noteq> ORM_SQL_NO_PREDICATE" "pred_left p = l"
    using bound_operator [OF assms(1)] assms(3) by (auto simp: rel_option_iff split: option.splits)
  moreover have "valid_value b (pred_right p) \<and> valid_text utf8_valid b" if "right = Some b" for b
    using assms(1,3) that bound_binary(1) by (auto simp: operands_ok_def option_rel_Some2)
  ultimately have "orm_tidesdb_sql_predicate_eval utf8_valid (Some p) (Some a) right (Some budget) True =
      (TURBODB_STATUS_OK, budget', Some (evaluate p a right))"
    using assms(2,4) by (auto simp: orm_tidesdb_sql_predicate_eval_def operands_ok_def split: option.splits)
  then show ?thesis using evaluate_typed [OF assms(1-3)] unfolding evaluate_bound [OF assms(1-3)] by simp
qed

definition example_predicate :: orm_sql_predicate where
  "example_predicate = \<lparr>pred_op = ORM_SQL_LESS, pred_left = \<lparr>sql_kind = KIND_INT64, sql_nullable = False\<rparr>,
     pred_right = \<lparr>sql_kind = KIND_UINT64, sql_nullable = True\<rparr>, pred_result = \<lparr>sql_kind = KIND_BOOLEAN, sql_nullable = True\<rparr>,
     pred_real_comparison = False\<rparr>"

theorem predicate_eval_spec_witness:
  "\<exists>budget'. orm_tidesdb_sql_predicate_eval (\<lambda>_. True) (Some example_predicate) (Some (turbodb_i64 (- 1))) (Some (turbodb_u64 (- 1)))
     (Some (example_budget\<lparr>bud_statement_active := True\<rparr>)) True = (TURBODB_STATUS_OK, budget', Some (truth True))"
proof -
  let ?l = "\<lparr>sql_kind = KIND_INT64, sql_nullable = False\<rparr>" and ?r = "\<lparr>sql_kind = KIND_UINT64, sql_nullable = True\<rparr>"
  let ?b = "example_budget\<lparr>bud_statement_active := True\<rparr>"
  have bind: "orm_tidesdb_sql_predicate_bind ORM_SQL_LESS ?l (Some ?r) True = Inr example_predicate"
    by (simp add: orm_tidesdb_sql_predicate_bind_def unary_def valid_type_def assignment_numeric_def comparison_op_def example_predicate_def)
  have ops: "operands_ok (\<lambda>_. True) ?l (turbodb_i64 (- 1))" "rel_option (operands_ok (\<lambda>_. True)) (Some ?r) (Some (turbodb_u64 (- 1)))"
    by (simp_all add: operands_ok_def valid_value_def view_ok_def valid_text_def turbodb_i64_def turbodb_u64_def)
  have "fst (charge_steps example_predicate (turbodb_i64 (- 1)) (Some (turbodb_u64 (- 1))) (Some ?b)) = TURBODB_STATUS_OK"
    by (simp add: charge_steps_def bytes_of_def turbodb_i64_def turbodb_u64_def add_steps_def steps_amount_def example_predicate_def comparison_op_def
        orm_tidesdb_sql_budget_reserve_def require_active_def charge_all all_resources example_budget_def example_limits_def amount_zero_def transaction_zero_def)
  then obtain b' where charge: "charge_steps example_predicate (turbodb_i64 (- 1)) (Some (turbodb_u64 (- 1))) (Some ?b) = (TURBODB_STATUS_OK, b')"
    by (metis prod.collapse)
  have "predicate_spec ORM_SQL_LESS (turbodb_i64 (- 1)) (turbodb_u64 (- 1)) = Some True"
    by (simp add: predicate_spec_def is_null_def comparison_spec_def datum_less_def example_predicate_def turbodb_i64_def turbodb_u64_def unsigned_minus_1_eq_mask mask_eq_exp_minus_1)
  with predicate_eval_spec [OF bind ops charge] show ?thesis by (simp add: sql_result_def)
qed

end
