(* ===== verification/Sql_Like.thy ===== *)
theory Sql_Like
  imports Sql_Predicate
begin

text \<open>
  Pattern matching, \<open>LIKE\<close> of \<open>src/tidessql/src/value.c\<close>: binding, the checks and charges of the evaluator, and the
  matcher, which keeps one point of return for the last \<open>%\<close> and reserves a step of the budget in every round.

  The matcher's loop is a function whose termination is the argument of the code: each round lowers what
  is left of the step limit.  That the limit is not what decides is shown separately:
  \<open>(n + 1) * (m + 1)\<close> steps are always enough for a text of \<open>n\<close> and a pattern of \<open>m\<close> bytes.

  The specification reads the pattern as a list of tokens and says which texts such a list matches.
\<close>

section \<open>The model\<close>

abbreviation (input) ORM_SQL_LIKE_NO_ESCAPE :: int where "ORM_SQL_LIKE_NO_ESCAPE \<equiv> - 1"
abbreviation (input) ORM_SQL_ASCII_MAX :: int where "ORM_SQL_ASCII_MAX \<equiv> 127"

record orm_sql_like =
  like_left :: orm_sql_type
  like_right :: orm_sql_type
  like_result :: orm_sql_type
  like_escape :: int
  like_negated :: bool
  like_ascii_insensitive :: bool

definition like_type :: "turbodb_value_kind \<Rightarrow> bool" where
  "like_type kind \<longleftrightarrow> kind = KIND_TEXT \<or> kind = KIND_NULL"

definition orm_tidesdb_sql_like_bind :: "orm_sql_type \<Rightarrow> orm_sql_type \<Rightarrow> int \<Rightarrow> bool \<Rightarrow> bool \<Rightarrow> turbodb_status + orm_sql_like" where
  "orm_tidesdb_sql_like_bind left right escape negated wants =
     (if \<not> wants \<or> escape < ORM_SQL_LIKE_NO_ESCAPE \<or> escape > ORM_SQL_ASCII_MAX then Inl TURBODB_STATUS_INVALID_ARGUMENT
      else if \<not> valid_type left \<or> \<not> valid_type right then Inl TURBODB_STATUS_TYPE_ERROR
      else if \<not> like_type (sql_kind left) \<or> \<not> like_type (sql_kind right) then Inl TURBODB_STATUS_UNSUPPORTED
      else Inr \<lparr>like_left = left, like_right = right,
                like_result = \<lparr>sql_kind = KIND_BOOLEAN, sql_nullable = (sql_nullable left \<or> sql_nullable right)\<rparr>,
                like_escape = escape, like_negated = negated, like_ascii_insensitive = False\<rparr>)"

text \<open>The bytes of the text of a value.\<close>

definition text_of :: "turbodb_value \<Rightarrow> bytes" where
  "text_of v = (case bytes_of v of (data, sz) \<Rightarrow> view data sz)"

definition ascii_text :: "turbodb_value \<Rightarrow> bool" where
  "ascii_text v \<longleftrightarrow> value_kind v = KIND_NULL \<or> list_all (\<lambda>ch. uint ch \<le> ORM_SQL_ASCII_MAX) (text_of v)"

definition like_fold :: "bool \<Rightarrow> u8 \<Rightarrow> u8" where
  "like_fold insensitive ch = (if insensitive \<and> 0x41 \<le> ch \<and> ch \<le> 0x5a then ch + 0x20 else ch)"

text \<open>One token of the pattern: its byte, whether it was escaped, and the cursor after it.\<close>

definition like_token :: "bytes \<Rightarrow> int \<Rightarrow> nat \<Rightarrow> u8 \<times> bool \<times> nat" where
  "like_token pattern escape cursor =
     (let token = pattern ! cursor; cursor = cursor + 1; escaped = (uint token = escape) in
      if escaped \<and> cursor < length pattern then (pattern ! cursor, escaped, cursor + 1) else (token, escaped, cursor))"

datatype like_outcome = Star nat | Advance nat | Mismatch

definition like_move :: "bytes \<Rightarrow> bytes \<Rightarrow> int \<Rightarrow> bool \<Rightarrow> nat \<Rightarrow> nat \<Rightarrow> like_outcome" where
  "like_move txt pattern escape insensitive input cursor =
     (if cursor < length pattern then
        case like_token pattern escape cursor of (token, escaped, cursor) \<Rightarrow>
          if \<not> escaped \<and> token = 0x25 then Star cursor
          else if input < length txt \<and> ((\<not> escaped \<and> token = 0x5f) \<or> like_fold insensitive token = like_fold insensitive (txt ! input))
          then Advance cursor
          else Mismatch
      else Mismatch)"

text \<open>What is left of the step limit.\<close>

fun slack :: "orm_tidesdb_sql_budget option \<Rightarrow> nat" where
  "slack None = 0" |
  "slack (Some b) = unat (lim_statement (bud_limits b) ORM_SQL_BUDGET_EXECUTION_STEPS - bud_used b ORM_SQL_BUDGET_EXECUTION_STEPS)"

lemma slack_less: "slack (Some b) < 2 ^ 64"
proof -
  have "unat (x :: u64) < 2 ^ LENGTH(64)" for x by (rule unsigned_less)
  then show ?thesis by simp
qed

lemma steps_amount_apply [simp]: "steps_amount n r = (if r = ORM_SQL_BUDGET_EXECUTION_STEPS then n else 0)"
  by (simp add: steps_amount_def amount_zero_def)

lemma slack_pay:
  fixes l u n :: u64
  assumes "\<not> n > l - u"
  shows "unat (l - (u + n)) = unat (l - u) - unat n"
  using assms unat_sub [of n "l - u"] by (simp add: diff_diff_eq not_less)

lemma reserve_steps:
  assumes "orm_tidesdb_sql_budget_reserve budget (Some (steps_amount n)) = (TURBODB_STATUS_OK, budget')"
  shows "\<exists>b b'. budget = Some b \<and> budget' = Some b' \<and> bud_statement_active b \<and> bud_statement_active b' \<and>
    unat n \<le> slack budget \<and> slack budget' = slack budget - unat n"
proof (cases budget)
  case None
  then show ?thesis using assms by (simp add: orm_tidesdb_sql_budget_reserve_def require_active_def)
next
  case (Some b)
  note ok = reserve_ok [OF assms [unfolded Some]]
  have fits: "\<not> n > lim_statement (bud_limits b) ORM_SQL_BUDGET_EXECUTION_STEPS - bud_used b ORM_SQL_BUDGET_EXECUTION_STEPS"
    using ok(2) [of ORM_SQL_BUDGET_EXECUTION_STEPS] by simp
  then show ?thesis using ok(1,6) Some slack_pay [OF fits] by (auto simp: word_le_nat_alt not_less)
qed

lemma reserve_steps_granted:
  assumes "bud_statement_active b" and "unat n \<le> slack (Some b)"
  shows "\<exists>b'. orm_tidesdb_sql_budget_reserve (Some b) (Some (steps_amount n)) = (TURBODB_STATUS_OK, Some b')"
  using assms by (auto simp: orm_tidesdb_sql_budget_reserve_def require_active_def Let_def all_resources word_le_nat_alt not_less word_less_nat_alt)

function (sequential) like_loop ::
    "bytes \<Rightarrow> bytes \<Rightarrow> int \<Rightarrow> bool \<Rightarrow> nat \<Rightarrow> nat \<Rightarrow> nat \<Rightarrow> nat \<Rightarrow> orm_tidesdb_sql_budget option
      \<Rightarrow> turbodb_status \<times> orm_tidesdb_sql_budget option \<times> bool option" where
  "like_loop txt pattern escape insensitive input cursor star retry budget =
     (if input < length txt \<or> cursor < length pattern then
        case orm_tidesdb_sql_budget_reserve budget (Some (steps_amount 1)) of (status, budget') \<Rightarrow>
          if status \<noteq> TURBODB_STATUS_OK then (status, budget', None)
          else case like_move txt pattern escape insensitive input cursor of
            Star c \<Rightarrow> like_loop txt pattern escape insensitive input c c input budget'
          | Advance c \<Rightarrow> like_loop txt pattern escape insensitive (input + 1) c star retry budget'
          | Mismatch \<Rightarrow>
              if star \<noteq> SIZE_MAX \<and> retry < length txt
              then like_loop txt pattern escape insensitive (retry + 1) star star (retry + 1) budget'
              else (TURBODB_STATUS_OK, budget', Some False)
      else (TURBODB_STATUS_OK, budget, Some True))"
  by pat_completeness auto

termination
proof (relation "measure (\<lambda>(_, _, _, _, _, _, _, _, budget). slack budget)", goal_cases)
  case 1
  then show ?case by simp
qed (auto dest!: sym [of "(_, _)"] reserve_steps)

declare like_loop.simps [simp del]

definition like_match ::
    "bytes \<Rightarrow> bytes \<Rightarrow> int \<Rightarrow> bool \<Rightarrow> orm_tidesdb_sql_budget option \<Rightarrow> turbodb_status \<times> orm_tidesdb_sql_budget option \<times> bool option" where
  "like_match txt pattern escape insensitive budget = like_loop txt pattern escape insensitive 0 0 SIZE_MAX 0 budget"

definition add_twice :: "nat \<Rightarrow> u64 \<Rightarrow> u64 option" where
  "add_twice n steps = (case add_steps steps n of None \<Rightarrow> None | Some steps \<Rightarrow> add_steps steps n)"

definition orm_tidesdb_sql_like_eval ::
    "(bytes \<Rightarrow> bool) \<Rightarrow> orm_sql_like option \<Rightarrow> turbodb_value option \<Rightarrow> turbodb_value option \<Rightarrow> orm_tidesdb_sql_budget option \<Rightarrow> bool
      \<Rightarrow> turbodb_status \<times> orm_tidesdb_sql_budget option \<times> turbodb_value option" where
  "orm_tidesdb_sql_like_eval utf8_valid like left right budget wants =
     (case (like, left, right, budget) of
        (Some k, Some l, Some r, Some _) \<Rightarrow>
          if \<not> wants then (TURBODB_STATUS_INVALID_ARGUMENT, budget, None)
          else if \<not> valid_value l (like_left k) \<or> \<not> valid_value r (like_right k) then (TURBODB_STATUS_TYPE_ERROR, budget, None)
          else (case Option.bind (add_twice (snd (bytes_of l)) 1) (add_twice (snd (bytes_of r))) of
            None \<Rightarrow> (TURBODB_STATUS_LIMIT_EXCEEDED, budget, None)
          | Some steps \<Rightarrow>
            (case orm_tidesdb_sql_budget_reserve budget (Some (steps_amount steps)) of (status, budget) \<Rightarrow>
              if status \<noteq> TURBODB_STATUS_OK then (status, budget, None)
              else if \<not> valid_text utf8_valid l \<or> \<not> valid_text utf8_valid r then (TURBODB_STATUS_TYPE_ERROR, budget, None)
              else if \<not> ascii_text l \<or> \<not> ascii_text r then (TURBODB_STATUS_UNSUPPORTED, budget, None)
              else if value_kind l = KIND_NULL \<or> value_kind r = KIND_NULL then (TURBODB_STATUS_OK, budget, Some turbodb_null)
              else (case like_match (text_of l) (text_of r) (like_escape k) (like_ascii_insensitive k) budget of (status, budget, matched) \<Rightarrow>
                (status, budget, map_option (\<lambda>m. truth (if like_negated k then \<not> m else m)) matched))))
      | _ \<Rightarrow> (TURBODB_STATUS_INVALID_ARGUMENT, budget, None))"


section \<open>Specification\<close>

datatype pattern_token = Any_Run | Any_One | Literal u8

text \<open>An escape byte quotes the byte after it, or itself at the end.\<close>

fun pattern_tokens :: "int \<Rightarrow> bytes \<Rightarrow> pattern_token list" where
  "pattern_tokens escape [] = []" |
  "pattern_tokens escape [c] =
     [if uint c = escape then Literal c else if c = 0x25 then Any_Run else if c = 0x5f then Any_One else Literal c]" |
  "pattern_tokens escape (c # d # rest) =
     (if uint c = escape then Literal d # pattern_tokens escape rest
      else (if c = 0x25 then Any_Run else if c = 0x5f then Any_One else Literal c) # pattern_tokens escape (d # rest))"

fun token_matches :: "(u8 \<Rightarrow> u8) \<Rightarrow> pattern_token \<Rightarrow> u8 \<Rightarrow> bool" where
  "token_matches f Any_One x \<longleftrightarrow> True" |
  "token_matches f (Literal c) x \<longleftrightarrow> f c = f x" |
  "token_matches f Any_Run x \<longleftrightarrow> False"

primrec matches :: "(u8 \<Rightarrow> u8) \<Rightarrow> pattern_token list \<Rightarrow> bytes \<Rightarrow> bool" where
  "matches f [] xs \<longleftrightarrow> xs = []" |
  "matches f (t # ts) xs \<longleftrightarrow>
     (if t = Any_Run then list_ex (\<lambda>k. matches f ts (drop k xs)) [0 ..< Suc (length xs)]
      else case xs of [] \<Rightarrow> False | x # xs \<Rightarrow> token_matches f t x \<and> matches f ts xs)"

definition like_spec :: "bool \<Rightarrow> int \<Rightarrow> bool \<Rightarrow> turbodb_value \<Rightarrow> turbodb_value \<Rightarrow> bool option" where
  "like_spec insensitive escape negated a b =
     (if is_null a \<or> is_null b then None
      else Some (matches (like_fold insensitive) (pattern_tokens escape (text_of b)) (text_of a) \<noteq> negated))"


section \<open>The matcher\<close>

lemma matches_run: "matches f (Any_Run # ts) xs \<longleftrightarrow> (\<exists>k\<le>length xs. matches f ts (drop k xs))"
  by (auto simp: list_ex_iff less_Suc_eq_le simp del: upt_Suc)

lemma matches_run_from:
  assumes "i \<le> length xs"
  shows "matches f (Any_Run # ts) (drop i xs) \<longleftrightarrow> (\<exists>k. i \<le> k \<and> k \<le> length xs \<and> matches f ts (drop k xs))"
proof
  assume "matches f (Any_Run # ts) (drop i xs)"
  then obtain k where "k \<le> length xs - i" "matches f ts (drop (k + i) xs)" unfolding matches_run by auto
  then show "\<exists>k. i \<le> k \<and> k \<le> length xs \<and> matches f ts (drop k xs)" using assms by (intro exI [of _ "k + i"]) auto
next
  assume "\<exists>k. i \<le> k \<and> k \<le> length xs \<and> matches f ts (drop k xs)"
  then obtain k where k: "i \<le> k" "k \<le> length xs" "matches f ts (drop k xs)" by auto
  then have "matches f ts (drop (k - i) (drop i xs))" "k - i \<le> length (drop i xs)" by auto
  then show "matches f (Any_Run # ts) (drop i xs)" unfolding matches_run by blast
qed

definition prefix_matches :: "(u8 \<Rightarrow> u8) \<Rightarrow> pattern_token list \<Rightarrow> bytes \<Rightarrow> bool" where
  "prefix_matches f ts xs \<longleftrightarrow> length ts \<le> length xs \<and> list_all2 (token_matches f) ts (take (length ts) xs)"

lemma matches_fixed:
  "Any_Run \<notin> set fs \<Longrightarrow> matches f (fs @ ts) xs \<longleftrightarrow> prefix_matches f fs xs \<and> matches f ts (drop (length fs) xs)"
proof (induction fs arbitrary: xs)
  case Nil
  then show ?case by (simp add: prefix_matches_def)
next
  case (Cons a fs)
  then show ?case by (cases xs) (auto simp: prefix_matches_def)
qed

lemma prefix_matches_snoc:
  "i < length xs \<Longrightarrow> r + length fs = i \<Longrightarrow> prefix_matches f fs (drop r xs) \<Longrightarrow> token_matches f t (xs ! i) \<Longrightarrow>
   prefix_matches f (fs @ [t]) (drop r xs)"
  by (auto simp: prefix_matches_def take_Suc_conv_app_nth intro!: list_all2_appendI)

text \<open>What a move says about the tokens at the cursor.\<close>

abbreviation tokens_at :: "int \<Rightarrow> bytes \<Rightarrow> nat \<Rightarrow> pattern_token list" where
  "tokens_at escape pattern c \<equiv> pattern_tokens escape (drop c pattern)"

lemma like_token_reads:
  assumes "cursor < length pattern" and "like_token pattern escape cursor = (token, escaped, c)"
  shows "tokens_at escape pattern cursor =
      (if \<not> escaped \<and> token = 0x25 then Any_Run else if \<not> escaped \<and> token = 0x5f then Any_One else Literal token) # tokens_at escape pattern c"
    and "cursor < c" and "c \<le> length pattern"
proof -
  have d: "drop cursor pattern = pattern ! cursor # drop (Suc cursor) pattern" using assms(1) by (simp add: Cons_nth_drop_Suc)
  show "cursor < c" "c \<le> length pattern" using assms by (auto simp: like_token_def Let_def split: if_splits)
  show "tokens_at escape pattern cursor =
      (if \<not> escaped \<and> token = 0x25 then Any_Run else if \<not> escaped \<and> token = 0x5f then Any_One else Literal token) # tokens_at escape pattern c"
  proof (cases "Suc cursor < length pattern")
    case True
    then have "drop (Suc cursor) pattern = pattern ! Suc cursor # drop (Suc (Suc cursor)) pattern" by (simp add: Cons_nth_drop_Suc)
    then show ?thesis using assms(2) True d by (auto simp: like_token_def Let_def split: if_splits)
  next
    case False
    then show ?thesis using assms(2) d by (auto simp: like_token_def Let_def split: if_splits)
  qed
qed

lemma like_move_star:
  assumes "like_move txt pattern escape i input cursor = Star c"
  shows "tokens_at escape pattern cursor = Any_Run # tokens_at escape pattern c" "cursor < c" "c \<le> length pattern"
  using assms like_token_reads [of cursor pattern escape]
  by (auto simp: like_move_def split: if_splits prod.splits)

lemma like_move_advance:
  assumes "like_move txt pattern escape i input cursor = Advance c"
  obtains t where "tokens_at escape pattern cursor = t # tokens_at escape pattern c" "t \<noteq> Any_Run" "cursor < c" "c \<le> length pattern"
    "input < length txt" "token_matches (like_fold i) t (txt ! input)"
proof -
  obtain token escaped c' where tk: "like_token pattern escape cursor = (token, escaped, c')" by (cases "like_token pattern escape cursor") auto
  have "cursor < length pattern" "c' = c" and m: "input < length txt" "\<not> (\<not> escaped \<and> token = 0x25)"
    "(\<not> escaped \<and> token = 0x5f) \<or> like_fold i token = like_fold i (txt ! input)"
    using assms tk by (auto simp: like_move_def split: if_splits)
  from like_token_reads [OF this(1) tk] this show thesis
    by (intro that [of "if \<not> escaped \<and> token = 0x5f then Any_One else Literal token"]) (auto split: if_splits)
qed

lemma like_move_mismatch:
  assumes "like_move txt pattern escape i input cursor = Mismatch" and "input < length txt \<or> cursor < length pattern" and "input \<le> length txt"
  shows "\<not> matches (like_fold i) (tokens_at escape pattern cursor) (drop input txt)"
proof (cases "cursor < length pattern")
  case False
  then show ?thesis using assms by simp
next
  case True
  obtain token escaped c where tk: "like_token pattern escape cursor = (token, escaped, c)" by (cases "like_token pattern escape cursor") auto
  have "\<not> (\<not> escaped \<and> token = 0x25)" "input < length txt \<longrightarrow> \<not> ((\<not> escaped \<and> token = 0x5f) \<or> like_fold i token = like_fold i (txt ! input))"
    using assms(1) tk True by (auto simp: like_move_def split: if_splits)
  then show ?thesis using like_token_reads(1) [OF True tk]
    by (cases "input < length txt") (auto simp: Cons_nth_drop_Suc [symmetric])
qed

text \<open>
  The state of the loop: with no \<open>%\<close> behind it the rest of the pattern must match the rest of the text; after one, the
  tokens since it match the text from the point of return, and the answer is whether its tail matches from there or later.
\<close>

definition like_inv :: "(u8 \<Rightarrow> u8) \<Rightarrow> int \<Rightarrow> bytes \<Rightarrow> bytes \<Rightarrow> bool \<Rightarrow> nat \<Rightarrow> nat \<Rightarrow> nat \<Rightarrow> nat \<Rightarrow> bool" where
  "like_inv f escape txt pattern answer input cursor star retry \<longleftrightarrow>
     input \<le> length txt \<and> cursor \<le> length pattern \<and> retry \<le> input \<and>
     (if star = SIZE_MAX then answer = matches f (tokens_at escape pattern cursor) (drop input txt)
      else (\<exists>fs. Any_Run \<notin> set fs \<and> tokens_at escape pattern star = fs @ tokens_at escape pattern cursor \<and>
              input = retry + length fs \<and> prefix_matches f fs (drop retry txt)) \<and> star \<le> length pattern \<and>
           answer = (\<exists>k. retry \<le> k \<and> k \<le> length txt \<and> matches f (tokens_at escape pattern star) (drop k txt)))"

lemma like_inv_return:
  assumes "i \<le> length txt" and "s \<le> length pattern" and "length pattern < SIZE_MAX"
    and "answer = (\<exists>k. i \<le> k \<and> k \<le> length txt \<and> matches f (tokens_at escape pattern s) (drop k txt))"
  shows "like_inv f escape txt pattern answer i s s i"
  using assms by (auto simp: like_inv_def prefix_matches_def intro!: exI [of _ "[]"])

lemma like_inv_star:
  assumes inv: "like_inv f escape txt pattern answer input cursor star retry" and "length pattern < SIZE_MAX" and "c \<le> length pattern"
    and run: "tokens_at escape pattern cursor = Any_Run # tokens_at escape pattern c"
  shows "like_inv f escape txt pattern answer input c c input"
proof (rule like_inv_return)
  let ?T = "tokens_at escape pattern"
  show "input \<le> length txt" using inv by (simp add: like_inv_def)
  note here = matches_run_from [OF this, of f "?T c"]
  show "answer = (\<exists>k. input \<le> k \<and> k \<le> length txt \<and> matches f (?T c) (drop k txt))"
  proof (cases "star = SIZE_MAX")
    case True
    then show ?thesis using inv here run by (simp only: like_inv_def if_True)
  next
    case False
    then obtain fs where fs: "Any_Run \<notin> set fs" "?T star = fs @ Any_Run # ?T c" "input = retry + length fs" "prefix_matches f fs (drop retry txt)"
      and answer: "answer = (\<exists>k. retry \<le> k \<and> k \<le> length txt \<and> matches f (?T star) (drop k txt))"
      using inv run unfolding like_inv_def by auto
    have split: "matches f (?T star) (drop k txt) \<longleftrightarrow> prefix_matches f fs (drop k txt) \<and> matches f (Any_Run # ?T c) (drop (k + length fs) txt)" for k
      unfolding fs(2) matches_fixed [OF fs(1)] by (simp add: add.commute)
    show ?thesis
    proof
      assume answer
      then obtain k where k: "retry \<le> k" "k \<le> length txt" "prefix_matches f fs (drop k txt)" "matches f (Any_Run # ?T c) (drop (k + length fs) txt)"
        unfolding answer split by blast
      then have "k + length fs \<le> length txt" by (auto simp: prefix_matches_def)
      from k(4) [unfolded matches_run_from [OF this]] k(1) fs(3)
      show "\<exists>k. input \<le> k \<and> k \<le> length txt \<and> matches f (?T c) (drop k txt)" by (meson add_le_mono1 order_trans)
    next
      assume "\<exists>k. input \<le> k \<and> k \<le> length txt \<and> matches f (?T c) (drop k txt)"
      then have "matches f (?T star) (drop retry txt)" unfolding split here [symmetric] using fs(3,4) by simp
      then show answer unfolding answer using inv by (auto simp: like_inv_def)
    qed
  qed
qed (use assms in simp_all)

lemma like_inv_advance:
  assumes inv: "like_inv f escape txt pattern answer input cursor star retry" and "c \<le> length pattern"
    and t: "tokens_at escape pattern cursor = t # tokens_at escape pattern c" "t \<noteq> Any_Run" "input < length txt" "token_matches f t (txt ! input)"
  shows "like_inv f escape txt pattern answer (input + 1) c star retry"
proof (cases "star = SIZE_MAX")
  case True
  then show ?thesis using assms by (simp add: like_inv_def Cons_nth_drop_Suc [symmetric])
next
  case False
  then obtain fs where fs: "Any_Run \<notin> set fs" "tokens_at escape pattern star = fs @ tokens_at escape pattern cursor"
      "input = retry + length fs" "prefix_matches f fs (drop retry txt)" using inv unfolding like_inv_def by auto
  have "prefix_matches f (fs @ [t]) (drop retry txt)" by (rule prefix_matches_snoc [OF t(3) fs(3) [symmetric] fs(4) t(4)])
  moreover have "Any_Run \<notin> set (fs @ [t])" "tokens_at escape pattern star = (fs @ [t]) @ tokens_at escape pattern c"
      "input + 1 = retry + length (fs @ [t])"
    using fs t(1,2) by simp_all
  ultimately have "\<exists>fs. Any_Run \<notin> set fs \<and> tokens_at escape pattern star = fs @ tokens_at escape pattern c \<and>
      input + 1 = retry + length fs \<and> prefix_matches f fs (drop retry txt)" by blast
  then show ?thesis using False inv assms(2) t(3) unfolding like_inv_def by simp
qed

lemma like_inv_trial:
  assumes "like_inv f escape txt pattern answer input cursor star retry" and "star \<noteq> SIZE_MAX"
  shows "matches f (tokens_at escape pattern star) (drop retry txt) \<longleftrightarrow> matches f (tokens_at escape pattern cursor) (drop input txt)"
  using assms matches_fixed unfolding like_inv_def by (auto simp: add.commute)

lemma like_inv_mismatch:
  assumes inv: "like_inv f escape txt pattern answer input cursor star retry" and "length pattern < SIZE_MAX"
    and "\<not> matches f (tokens_at escape pattern cursor) (drop input txt)"
  shows "if star \<noteq> SIZE_MAX \<and> retry < length txt then like_inv f escape txt pattern answer (retry + 1) star star (retry + 1) else \<not> answer"
proof (cases "star = SIZE_MAX")
  case True
  then show ?thesis using inv assms(3) by (simp add: like_inv_def)
next
  case False
  then have trial: "\<not> matches f (tokens_at escape pattern star) (drop retry txt)" using like_inv_trial [OF inv] assms(3) by simp
  have "answer = (\<exists>k. retry \<le> k \<and> k \<le> length txt \<and> matches f (tokens_at escape pattern star) (drop k txt))"
    using inv False unfolding like_inv_def by simp
  also have "\<dots> = (\<exists>k. retry + 1 \<le> k \<and> k \<le> length txt \<and> matches f (tokens_at escape pattern star) (drop k txt))"
    using trial by (metis Suc_eq_plus1 Suc_leD le_antisym not_less_eq_eq)
  finally have answer: "answer = (\<exists>k. retry + 1 \<le> k \<and> k \<le> length txt \<and> matches f (tokens_at escape pattern star) (drop k txt))" .
  have "star \<le> length pattern" using inv False by (simp add: like_inv_def)
  with answer like_inv_return [OF _ this assms(2) answer] show ?thesis using False by (auto simp: Suc_le_eq)
qed

lemma like_inv_end:
  assumes inv: "like_inv f escape txt pattern answer input cursor star retry" and "\<not> (input < length txt \<or> cursor < length pattern)"
  shows answer
proof (cases "star = SIZE_MAX")
  case True
  then show ?thesis using assms by (simp add: like_inv_def)
next
  case False
  then have "matches f (tokens_at escape pattern star) (drop retry txt)" using like_inv_trial [OF inv] assms by (simp add: like_inv_def)
  then show ?thesis using inv False by (auto simp: like_inv_def)
qed

text \<open>With enough steps left the loop ends with the answer, having used at most one step for each pair of positions.\<close>

lemma like_loop_correct:
  assumes "like_inv (like_fold insensitive) escape txt pattern answer input cursor star retry" and "length pattern < SIZE_MAX"
    and "bud_statement_active b" and "(length txt - retry) * (length pattern + 1) + (length pattern - cursor) < slack (Some b)"
  shows "\<exists>b'. like_loop txt pattern escape insensitive input cursor star retry (Some b) = (TURBODB_STATUS_OK, Some b', Some answer) \<and>
    slack (Some b) \<le> slack (Some b') + (length txt - retry) * (length pattern + 1) + (length pattern - cursor) + 1"
  using assms
proof (induction "(length txt - retry) * (length pattern + 1) + (length pattern - cursor)" arbitrary: "input" cursor star retry b rule: less_induct)
  case less
  note inv = less.prems(1) and small = less.prems(2)
  let ?n = "length txt" and ?m = "length pattern"
  let ?potential = "\<lambda>r c. (?n - r) * (?m + 1) + (?m - c)"
  have bounds: "input \<le> ?n" "cursor \<le> ?m" "retry \<le> input" using inv by (simp_all add: like_inv_def)
  show ?case
  proof (cases "input < ?n \<or> cursor < ?m")
    case False
    then show ?thesis using like_inv_end [OF inv False] by (subst like_loop.simps) simp
  next
    case True
    obtain b1 where pay: "orm_tidesdb_sql_budget_reserve (Some b) (Some (steps_amount 1)) = (TURBODB_STATUS_OK, Some b1)"
      using reserve_steps_granted [of b 1] less.prems(3,4) by auto
    have b1: "bud_statement_active b1" "slack (Some b1) = slack (Some b) - 1" using reserve_steps [OF pay] by simp_all
    have goal: ?thesis
      if "like_loop txt pattern escape insensitive input cursor star retry (Some b) = like_loop txt pattern escape insensitive i c s r (Some b1)"
        and "like_inv (like_fold insensitive) escape txt pattern answer i c s r" and "?potential r c < ?potential retry cursor" for i c s r
    proof -
      have "?potential r c < slack (Some b1)" using less.prems(4) that(3) b1(2) by linarith
      from less.hyps [OF that(3,2) small b1(1) this] obtain b' where
        b': "like_loop txt pattern escape insensitive i c s r (Some b1) = (TURBODB_STATUS_OK, Some b', Some answer)"
          "slack (Some b1) \<le> slack (Some b') + (?n - r) * (?m + 1) + (?m - c) + 1" by blast
      have "slack (Some b) \<le> slack (Some b') + (?n - retry) * (?m + 1) + (?m - cursor) + 1"
        using b'(2) that(3) b1(2) by linarith
      then show ?thesis using that(1) b'(1) by (intro exI [of _ b']) (simp only:)
    qed
    show ?thesis
    proof (cases "like_move txt pattern escape insensitive input cursor")
      case (Star c)
      note star = like_move_star [OF Star]
      have "(?n - input) * (?m + 1) \<le> (?n - retry) * (?m + 1)" using bounds(3) by (intro mult_right_mono) simp_all
      then have "?potential input c < ?potential retry cursor" using star(2,3) by linarith
      then show ?thesis using True pay Star like_inv_star [OF inv small star(3,1)]
        by (intro goal [of "input" c c "input"]) (simp_all add: like_loop.simps [of _ _ _ _ "input" cursor])
    next
      case (Advance c)
      then obtain t where t: "tokens_at escape pattern cursor = t # tokens_at escape pattern c" "t \<noteq> Any_Run" "cursor < c" "c \<le> ?m"
        "input < ?n" "token_matches (like_fold insensitive) t (txt ! input)" by (rule like_move_advance)
      show ?thesis using True pay Advance like_inv_advance [OF inv t(4,1,2,5,6)] t(3,4)
        by (intro goal [of "input + 1" c star retry]) (simp_all add: like_loop.simps [of _ _ _ _ "input" cursor])
    next
      case Mismatch
      note miss = like_inv_mismatch [OF inv small like_move_mismatch [OF Mismatch True bounds(1)]]
      show ?thesis
      proof (cases "star \<noteq> SIZE_MAX \<and> retry < ?n")
        case True
        then have "?n - retry = Suc (?n - (retry + 1))" by linarith
        then have "?potential (retry + 1) star < ?potential retry cursor" by simp
        then show ?thesis using \<open>input < ?n \<or> cursor < ?m\<close> pay Mismatch True miss
          by (intro goal [of "retry + 1" star star "retry + 1"]) (simp_all add: like_loop.simps [of _ _ _ _ "input" cursor])
      next
        case False
        then show ?thesis using True pay Mismatch miss b1(2) by (subst like_loop.simps) auto
      qed
    qed
  qed
qed

lemma like_match_correct:
  assumes "length pattern < SIZE_MAX" and "bud_statement_active b" and "(length txt + 1) * (length pattern + 1) \<le> slack (Some b)"
  shows "\<exists>b'. like_match txt pattern escape insensitive (Some b) =
      (TURBODB_STATUS_OK, Some b', Some (matches (like_fold insensitive) (pattern_tokens escape pattern) txt)) \<and>
    slack (Some b) \<le> slack (Some b') + (length txt + 1) * (length pattern + 1)"
proof -
  have "like_inv (like_fold insensitive) escape txt pattern (matches (like_fold insensitive) (pattern_tokens escape pattern) txt) 0 0 SIZE_MAX 0"
    by (simp add: like_inv_def)
  from like_loop_correct [OF this assms(1,2)] assms(3) show ?thesis by (auto simp: like_match_def)
qed


section \<open>The evaluator\<close>

lemma add_twice_fits: "unat s + 2 * n < 2 ^ 64 \<Longrightarrow> add_twice n s = Some (s + of_nat n + of_nat n) \<and> unat (s + of_nat n + of_nat n) = unat s + 2 * n"
proof -
  assume lt: "unat s + 2 * n < 2 ^ 64"
  have n: "unat (of_nat n :: u64) = n" using lt by (simp add: unsigned_of_nat take_bit_nat_eq_self)
  have step: "add_steps x n = Some (x + of_nat n) \<and> unat (x + of_nat n) = unat x + n" if "unat x + n < 2 ^ 64" for x
  proof -
    have "\<not> of_nat n > - 1 - x" using reserve_fits(1) [of x "- 1" "of_nat n"] that n by (simp add: unsigned_minus_1_eq_mask mask_eq_exp_minus_1)
    moreover have "unat (x + of_nat n) = unat x + n" using that n by (subst unat_add_lem [THEN iffD1]) simp_all
    ultimately show ?thesis by (simp add: add_steps_def)
  qed
  show ?thesis using step [of s] step [of "s + of_nat n"] lt by (simp add: add_twice_def)
qed

text \<open>The steps that matching takes at most: two scans of each operand, one step more, and the matcher.\<close>

definition like_cost :: "nat \<Rightarrow> nat \<Rightarrow> nat" where
  "like_cost n m = 1 + 2 * n + 2 * m + (n + 1) * (m + 1)"

definition like_operand :: "(bytes \<Rightarrow> bool) \<Rightarrow> orm_sql_type \<Rightarrow> turbodb_value \<Rightarrow> bool" where
  "like_operand utf8_valid t v \<longleftrightarrow> operands_ok utf8_valid t v \<and> ascii_text v"

lemma like_operand_length:
  assumes "like_operand utf8_valid t v" and "like_type (sql_kind t)"
  shows "length (text_of v) = snd (bytes_of v)"
  using assms by (auto simp: like_operand_def operands_ok_def valid_value_def view_ok_def like_type_def text_of_def bytes_of_def view_def
      split: turbodb_value_data.splits if_splits option.splits)

text \<open>
  C37. \<open>LIKE\<close> is correct and its cost is bounded.  Bound to text types and applied to ASCII operands of \<open>n\<close> and \<open>m\<close> bytes,
  with \<open>1 + 2n + 2m + (n + 1)(m + 1)\<close> steps left in the budget, the evaluator returns what the specification says: NULL when
  an operand is NULL, and otherwise whether the tokens of the pattern (\<open>%\<close> any run, \<open>_\<close> one byte, the escape quoting the byte
  after it) match the text, negated for \<open>NOT LIKE\<close>; and it has used no more than these steps.  So the single point of
  return of the matcher loses no match, and it never runs longer than the documented bound.
\<close>

theorem like_eval_matches:
  assumes "orm_tidesdb_sql_like_bind l r escape negated True = Inr like"
    and "like_operand utf8_valid l a" and "like_operand utf8_valid r b" and "snd (bytes_of b) < SIZE_MAX"
    and "bud_statement_active budget" and "like_cost (snd (bytes_of a)) (snd (bytes_of b)) \<le> slack (Some budget)"
  shows "\<exists>budget'. orm_tidesdb_sql_like_eval utf8_valid (Some (like\<lparr>like_ascii_insensitive := insensitive\<rparr>)) (Some a) (Some b) (Some budget) True =
      (TURBODB_STATUS_OK, Some budget', Some (sql_result (like_spec insensitive escape negated a b))) \<and>
    slack (Some budget) \<le> slack (Some budget') + like_cost (snd (bytes_of a)) (snd (bytes_of b))"
proof -
  let ?n = "snd (bytes_of a)" and ?m = "snd (bytes_of b)"
  have like: "like_left like = l" "like_right like = r" "like_escape like = escape" "like_negated like = negated"
    and types: "like_type (sql_kind l)" "like_type (sql_kind r)"
    using assms(1) by (auto simp: orm_tidesdb_sql_like_bind_def split: if_splits)
  have len: "length (text_of a) = ?n" "length (text_of b) = ?m"
    using like_operand_length [OF assms(2) types(1)] like_operand_length [OF assms(3) types(2)] by simp_all
  have ok: "valid_value a l" "valid_value b r" "valid_text utf8_valid a" "valid_text utf8_valid b" "ascii_text a" "ascii_text b"
    using assms(2,3) by (simp_all add: like_operand_def operands_ok_def)
  have "unat (1 :: u64) + 2 * ?n + 2 * ?m < 2 ^ 64" using assms(6) slack_less [of budget] by (simp add: like_cost_def del: slack.simps)
  with add_twice_fits [of 1 ?n] add_twice_fits [of "1 + of_nat ?n + of_nat ?n" ?m]
  obtain steps where steps: "Option.bind (add_twice ?n 1) (add_twice ?m) = Some steps" "unat steps = 1 + 2 * ?n + 2 * ?m" by auto
  obtain b1 where pay: "orm_tidesdb_sql_budget_reserve (Some budget) (Some (steps_amount steps)) = (TURBODB_STATUS_OK, Some b1)"
    using reserve_steps_granted [of budget steps] assms(5,6) steps(2) by (auto simp: like_cost_def)
  have b1: "bud_statement_active b1" "slack (Some b1) + (1 + 2 * ?n + 2 * ?m) = slack (Some budget)"
    using reserve_steps [OF pay] steps(2) by simp_all
  obtain b2 where match: "like_match (text_of a) (text_of b) escape insensitive (Some b1) =
      (TURBODB_STATUS_OK, Some b2, Some (matches (like_fold insensitive) (pattern_tokens escape (text_of b)) (text_of a)))"
      "slack (Some b1) \<le> slack (Some b2) + (?n + 1) * (?m + 1)"
    using like_match_correct [of "text_of b" b1 "text_of a" escape insensitive] assms(4,6) b1 len by (auto simp: like_cost_def)
  show ?thesis
  proof (cases "is_null a \<or> is_null b")
    case True
    then show ?thesis using ok steps pay b1(2)
      by (auto simp: orm_tidesdb_sql_like_eval_def like like_spec_def null_kind sql_result_def like_cost_def)
  next
    case False
    then show ?thesis using ok steps pay b1(2) match
      by (auto simp: orm_tidesdb_sql_like_eval_def like like_spec_def null_kind sql_result_def like_cost_def)
  qed
qed

text \<open>\<open>'a_c' LIKE 'a%!_c' ESCAPE '!'\<close>.\<close>

theorem like_eval_matches_witness:
  "\<exists>like budget'. orm_tidesdb_sql_like_eval (\<lambda>_. True) (Some like)
     (Some \<lparr>tv_data = TURBODB_VALUE_TEXT (Some [0x61, 0x5f, 0x63]) 3, tv_reserved = 0\<rparr>)
     (Some \<lparr>tv_data = TURBODB_VALUE_TEXT (Some [0x61, 0x25, 0x21, 0x5f, 0x63]) 5, tv_reserved = 0\<rparr>)
     (Some (example_budget\<lparr>bud_statement_active := True\<rparr>)) True = (TURBODB_STATUS_OK, Some budget', Some (truth True))"
proof -
  let ?t = "\<lparr>sql_kind = KIND_TEXT, sql_nullable = False\<rparr>"
  let ?a = "\<lparr>tv_data = TURBODB_VALUE_TEXT (Some [0x61, 0x5f, 0x63]) 3, tv_reserved = 0\<rparr>"
  let ?b = "\<lparr>tv_data = TURBODB_VALUE_TEXT (Some [0x61, 0x25, 0x21, 0x5f, 0x63]) 5, tv_reserved = 0\<rparr>"
  let ?budget = "example_budget\<lparr>bud_statement_active := True\<rparr>"
  obtain like where bind: "orm_tidesdb_sql_like_bind ?t ?t 0x21 False True = Inr like"
    by (simp add: orm_tidesdb_sql_like_bind_def valid_type_def like_type_def)
  have a: "like_operand (\<lambda>_. True) ?t ?a" "like_operand (\<lambda>_. True) ?t ?b"
    by (simp_all add: like_operand_def operands_ok_def valid_value_def view_ok_def valid_text_def ascii_text_def text_of_def bytes_of_def view_def SIZE_MAX_def)
  have sz: "snd (bytes_of ?b) < SIZE_MAX" by (simp add: bytes_of_def SIZE_MAX_def)
  have paid: "like_cost (snd (bytes_of ?a)) (snd (bytes_of ?b)) \<le> slack (Some ?budget)"
    by (simp add: like_cost_def bytes_of_def example_budget_def example_limits_def amount_zero_def)
  have active: "bud_statement_active ?budget" by simp
  have "like_spec False 0x21 False ?a ?b = Some True"
    by (simp add: like_spec_def is_null_def text_of_def bytes_of_def view_def upt_rec like_fold_def)
  with like_eval_matches [OF bind a sz active paid, of False] show ?thesis by (auto simp: sql_result_def)
qed

end
