(* ===== verification/Sql_Arithmetic.thy ===== *)
theory Sql_Arithmetic
  imports Sql_Predicate
begin

text \<open>
  Arithmetic of the SQL engine, \<open>src/tidessql/src/value.c\<close>: binding of an operator to operand types, the integer operations
  with their range checks, rounding, and the evaluator with NULLs, the charge for a step and the condition for a
  division by zero.

  Signed integers are words of their width.  Operations on doubles are defined on the numbers they denote, with one
  rounding to nearest; operands are finite, because they are validated before.  The power of
  ten that \<open>ROUND\<close> takes from the C library, whose last place the library leaves open, is the
  parameter \<open>pow10\<close>.
\<close>

section \<open>Operations on doubles\<close>

text \<open>The double nearest to a quotient, in units of \<open>2 ^ -1074\<close>, ties to even, infinity when too large.\<close>

definition f64_round :: "bool \<Rightarrow> nat \<Rightarrow> nat \<Rightarrow> f64" where
  "f64_round negative num den =
     (let q = num div den in
      if q < 2 ^ 52 then f64_make negative 0 (round_div num den)
      else
        let shift = highest_bit 3200 q - 52 in
        f64_make negative 0 (min (shift * 2 ^ 52 + round_div num (den * 2 ^ shift)) (0x7ff * 2 ^ 52)))"

definition f64_abs_scaled :: "f64 \<Rightarrow> nat" where
  "f64_abs_scaled a = nat \<bar>f64_scaled a\<bar>"

abbreviation (input) f64_sign :: "f64 \<Rightarrow> bool" where "f64_sign a \<equiv> bit a 63"

definition f64_negate :: "f64 \<Rightarrow> f64" where
  "f64_negate a = flip_bit 63 a"

definition f64_fabs :: "f64 \<Rightarrow> f64" where
  "f64_fabs a = unset_bit 63 a"

definition f64_add :: "f64 \<Rightarrow> f64 \<Rightarrow> f64" where
  "f64_add a b =
     (let s = f64_scaled a + f64_scaled b in
      if s = 0 then f64_make (f64_sign a \<and> f64_sign b) 0 0 else f64_round (s < 0) (nat \<bar>s\<bar>) 1)"

definition f64_subtract :: "f64 \<Rightarrow> f64 \<Rightarrow> f64" where
  "f64_subtract a b = f64_add a (f64_negate b)"

definition f64_multiply :: "f64 \<Rightarrow> f64 \<Rightarrow> f64" where
  "f64_multiply a b = f64_round (f64_sign a \<noteq> f64_sign b) (f64_abs_scaled a * f64_abs_scaled b) (2 ^ 1074)"

definition f64_divide :: "f64 \<Rightarrow> f64 \<Rightarrow> f64" where
  "f64_divide a b = f64_round (f64_sign a \<noteq> f64_sign b) (f64_abs_scaled a * 2 ^ 1074) (f64_abs_scaled b)"

definition f64_fmod :: "f64 \<Rightarrow> f64 \<Rightarrow> f64" where
  "f64_fmod a b = f64_round (f64_sign a) (f64_abs_scaled a mod f64_abs_scaled b) 1"

definition f64_rint :: "f64 \<Rightarrow> f64" where
  "f64_rint a = f64_round (f64_sign a) (round_div (f64_abs_scaled a) (2 ^ 1074) * 2 ^ 1074) 1"

definition f64_trunc :: "f64 \<Rightarrow> f64" where
  "f64_trunc a = f64_round (f64_sign a) (f64_abs_scaled a div 2 ^ 1074 * 2 ^ 1074) 1"

definition f64_away :: "f64 \<Rightarrow> f64" where
  "f64_away a = f64_round (f64_sign a) ((f64_abs_scaled a + (2 ^ 1074 - 1)) div 2 ^ 1074 * 2 ^ 1074) 1"

definition f64_floor :: "f64 \<Rightarrow> f64" where
  "f64_floor a = (if f64_sign a then f64_away a else f64_trunc a)"

definition f64_ceil :: "f64 \<Rightarrow> f64" where
  "f64_ceil a = (if f64_sign a then f64_trunc a else f64_away a)"


section \<open>Binding\<close>

datatype orm_sql_arithmetic_op =
    ORM_SQL_ADD
  | ORM_SQL_SUBTRACT
  | ORM_SQL_MULTIPLY
  | ORM_SQL_POSITIVE
  | ORM_SQL_NEGATE
  | ORM_SQL_ABSOLUTE
  | ORM_SQL_SIGN
  | ORM_SQL_FLOOR
  | ORM_SQL_CEIL
  | ORM_SQL_DIVIDE
  | ORM_SQL_INTEGER_DIVIDE
  | ORM_SQL_MODULO
  | ORM_SQL_ROUND
  | ORM_SQL_TRUNCATE
  | ORM_SQL_NO_ARITHMETIC

record orm_sql_arithmetic =
  ar_op :: orm_sql_arithmetic_op
  ar_left :: orm_sql_type
  ar_right :: orm_sql_type
  ar_result :: orm_sql_type

definition arithmetic_unary :: "orm_sql_arithmetic_op \<Rightarrow> bool" where
  "arithmetic_unary op \<longleftrightarrow> op \<in> set [ORM_SQL_POSITIVE, ORM_SQL_NEGATE, ORM_SQL_ABSOLUTE, ORM_SQL_SIGN, ORM_SQL_FLOOR, ORM_SQL_CEIL]"

definition numeric_type :: "turbodb_value_kind \<Rightarrow> bool" where
  "numeric_type kind \<longleftrightarrow> kind = KIND_NULL \<or> integral kind \<or> kind = KIND_DOUBLE"

definition arithmetic_division :: "orm_sql_arithmetic_op \<Rightarrow> bool" where
  "arithmetic_division op \<longleftrightarrow> op \<in> set [ORM_SQL_DIVIDE, ORM_SQL_INTEGER_DIVIDE, ORM_SQL_MODULO]"

definition arithmetic_rounding :: "orm_sql_arithmetic_op \<Rightarrow> bool" where
  "arithmetic_rounding op \<longleftrightarrow> op = ORM_SQL_ROUND \<or> op = ORM_SQL_TRUNCATE"

definition null_type :: orm_sql_type where
  "null_type = \<lparr>sql_kind = KIND_NULL, sql_nullable = True\<rparr>"

definition orm_tidesdb_sql_arithmetic_bind ::
    "orm_sql_arithmetic_op \<Rightarrow> orm_sql_type \<Rightarrow> orm_sql_type option \<Rightarrow> bool \<Rightarrow> turbodb_status + orm_sql_arithmetic" where
  "orm_tidesdb_sql_arithmetic_bind op left right wants =
     (let r = (case right of None \<Rightarrow> null_type | Some r \<Rightarrow> r); lk = sql_kind left; rk = sql_kind r; binary = (right \<noteq> None) in
      if op = ORM_SQL_NO_ARITHMETIC then Inl TURBODB_STATUS_UNSUPPORTED
      else if \<not> wants \<or> (if arithmetic_unary op then right \<noteq> None else right = None) then Inl TURBODB_STATUS_INVALID_ARGUMENT
      else if \<not> valid_type left \<or> (binary \<and> \<not> valid_type r) then Inl TURBODB_STATUS_TYPE_ERROR
      else if arithmetic_rounding op then
        if \<not> numeric_type lk \<or> (\<not> integral rk \<and> rk \<noteq> KIND_NULL) then Inl TURBODB_STATUS_UNSUPPORTED
        else Inr \<lparr>ar_op = op, ar_left = left, ar_right = r, ar_result = \<lparr>sql_kind = lk, sql_nullable = (sql_nullable left \<or> sql_nullable r)\<rparr>\<rparr>
      else
        let integer_pair = (binary \<and> (integral lk \<or> lk = KIND_NULL) \<and> (integral rk \<or> rk = KIND_NULL));
            real_pair = (binary \<and> op \<noteq> ORM_SQL_INTEGER_DIVIDE \<and> (lk = KIND_DOUBLE \<or> rk = KIND_DOUBLE));
            same = (\<not> binary \<or> lk = KIND_NULL \<or> rk = KIND_NULL \<or> lk = rk) in
        if \<not> numeric_type lk \<or> (binary \<and> \<not> numeric_type rk) \<or>
           (\<not> same \<and> \<not> real_pair \<and> \<not> (integer_pair \<and> (op = ORM_SQL_INTEGER_DIVIDE \<or> op = ORM_SQL_MODULO))) \<or>
           (op = ORM_SQL_NEGATE \<and> lk = KIND_UINT64)
        then Inl TURBODB_STATUS_UNSUPPORTED
        else if (op = ORM_SQL_INTEGER_DIVIDE \<and> \<not> integer_pair) \<or> (op = ORM_SQL_DIVIDE \<and> \<not> real_pair \<and> (integral lk \<or> integral rk))
        then Inl TURBODB_STATUS_UNSUPPORTED
        else
          let kind = (if real_pair then KIND_DOUBLE
                      else if op = ORM_SQL_SIGN \<and> lk \<noteq> KIND_NULL then KIND_INT64
                      else if lk = KIND_NULL \<and> binary then rk else lk);
              kind = (if op = ORM_SQL_INTEGER_DIVIDE \<and> (lk = KIND_UINT64 \<or> rk = KIND_UINT64) then KIND_UINT64 else kind) in
          Inr \<lparr>ar_op = op, ar_left = left, ar_right = r,
               ar_result = \<lparr>sql_kind = kind, sql_nullable = (arithmetic_division op \<or> sql_nullable left \<or> (binary \<and> sql_nullable r))\<rparr>\<rparr>)"


section \<open>Evaluation\<close>

text \<open>A range error is \<open>TURBODB_STATUS_LIMIT_EXCEEDED\<close>.\<close>

abbreviation (input) INT64_MAX_WORD :: u64 where "INT64_MAX_WORD \<equiv> 0x7fffffffffffffff"
abbreviation (input) INT64_MIN_WORD :: u64 where "INT64_MIN_WORD \<equiv> 0x8000000000000000"

definition arithmetic_range_error :: turbodb_status where
  "arithmetic_range_error = TURBODB_STATUS_LIMIT_EXCEEDED"

definition arithmetic_real :: "orm_sql_arithmetic_op \<Rightarrow> turbodb_value \<Rightarrow> turbodb_value \<Rightarrow> turbodb_status + turbodb_value" where
  "arithmetic_real op left right =
     (let a = numeric_real_value left; b = numeric_real_value right;
          v = (case op of
                 ORM_SQL_ADD \<Rightarrow> Some (f64_add a b)
               | ORM_SQL_SUBTRACT \<Rightarrow> Some (f64_subtract a b)
               | ORM_SQL_MULTIPLY \<Rightarrow> Some (f64_multiply a b)
               | ORM_SQL_DIVIDE \<Rightarrow> Some (f64_divide a b)
               | ORM_SQL_MODULO \<Rightarrow> Some (f64_fmod a b)
               | _ \<Rightarrow> None) in
      case v of None \<Rightarrow> Inl TURBODB_STATUS_INVALID_STATE
      | Some x \<Rightarrow> if \<not> f64_isfinite x then Inl arithmetic_range_error else Inr (turbodb_f64 x))"

definition signed_magnitude :: "i64 \<Rightarrow> u64" where
  "signed_magnitude v = (if sint v < 0 then - (v + 1) + 1 else v)"

text \<open>The conversion of a sign and a magnitude that has been checked to fit.\<close>

definition signed_of :: "bool \<Rightarrow> u64 \<Rightarrow> i64" where
  "signed_of negative magnitude = (if negative then (if magnitude = INT64_MAX_WORD + 1 then INT64_MIN_WORD else - magnitude) else magnitude)"

definition magnitude_of :: "turbodb_value \<Rightarrow> u64" where
  "magnitude_of v = (if value_kind v = KIND_UINT64 then uint64_value (tv_data v) else signed_magnitude (int64_value (tv_data v)))"

definition negative_of :: "turbodb_value \<Rightarrow> bool" where
  "negative_of v \<longleftrightarrow> value_kind v = KIND_INT64 \<and> sint (int64_value (tv_data v)) < 0"

definition arithmetic_round_integer :: "orm_sql_arithmetic_op \<Rightarrow> turbodb_value \<Rightarrow> u64 \<Rightarrow> turbodb_status + turbodb_value" where
  "arithmetic_round_integer op input digits =
     (if digits \<ge> 20 then Inr (if value_kind input = KIND_UINT64 then turbodb_u64 0 else turbodb_i64 0)
      else
        let scale = ((\<lambda>s. s * 10) ^^ unat digits) 1;
            negative = negative_of input;
            magnitude = magnitude_of input;
            maximum = (if value_kind input = KIND_UINT64 then - 1 else INT64_MAX_WORD + (if negative then 1 else 0));
            remainder = magnitude mod scale;
            rounded = magnitude - remainder in
        if op = ORM_SQL_ROUND \<and> remainder \<ge> scale div 2 \<and> scale > maximum - rounded then Inl arithmetic_range_error
        else
          let rounded = (if op = ORM_SQL_ROUND \<and> remainder \<ge> scale div 2 then rounded + scale else rounded) in
          Inr (if value_kind input = KIND_UINT64 then turbodb_u64 rounded else turbodb_i64 (signed_of negative rounded)))"

definition arithmetic_round :: "(nat \<Rightarrow> f64) \<Rightarrow> orm_sql_arithmetic_op \<Rightarrow> turbodb_value \<Rightarrow> turbodb_value \<Rightarrow> turbodb_status + turbodb_value" where
  "arithmetic_round pow10 op input precision =
     (let negative = negative_of precision; digits = magnitude_of precision in
      if value_kind input \<noteq> KIND_DOUBLE then (if \<not> negative then Inr input else arithmetic_round_integer op input digits)
      else if digits > 308 then Inr (if negative then turbodb_f64 0 else input)
      else
        let scale = pow10 (unat digits);
            scaled = (if negative then f64_divide (double_value (tv_data input)) scale else f64_multiply (double_value (tv_data input)) scale) in
        if \<not> negative \<and> \<not> f64_isfinite scaled then Inr input
        else
          let integral_value = (if op = ORM_SQL_ROUND then f64_rint scaled else f64_trunc scaled);
              result = (if negative then f64_multiply integral_value scale else f64_divide integral_value scale) in
          if \<not> f64_isfinite result then Inl arithmetic_range_error else Inr (turbodb_f64 result))"

definition arithmetic_i64 :: "orm_sql_arithmetic_op \<Rightarrow> i64 \<Rightarrow> i64 \<Rightarrow> turbodb_status + turbodb_value" where
  "arithmetic_i64 op a b =
     (if op = ORM_SQL_ADD then
        if (sint b > 0 \<and> sint a > sint (INT64_MAX_WORD - b)) \<or> (sint b < 0 \<and> sint a < sint (INT64_MIN_WORD - b)) then Inl arithmetic_range_error
        else Inr (turbodb_i64 (a + b))
      else if op = ORM_SQL_SUBTRACT then
        if (sint b > 0 \<and> sint a < sint (INT64_MIN_WORD + b)) \<or> (sint b < 0 \<and> sint a > sint (INT64_MAX_WORD + b)) then Inl arithmetic_range_error
        else Inr (turbodb_i64 (a - b))
      else
        let negative = ((sint a < 0) \<noteq> (sint b < 0)); x = signed_magnitude a; y = signed_magnitude b;
            maximum = INT64_MAX_WORD + (if negative then 1 else 0) in
        if x \<noteq> 0 \<and> y > maximum div x then Inl arithmetic_range_error
        else Inr (turbodb_i64 (signed_of negative (x * y))))"

definition arithmetic_u64 :: "orm_sql_arithmetic_op \<Rightarrow> u64 \<Rightarrow> u64 \<Rightarrow> turbodb_status + turbodb_value" where
  "arithmetic_u64 op a b =
     (if op = ORM_SQL_ADD then (if b > - 1 - a then Inl arithmetic_range_error else Inr (turbodb_u64 (a + b)))
      else if op = ORM_SQL_SUBTRACT then (if a < b then Inl arithmetic_range_error else Inr (turbodb_u64 (a - b)))
      else (if a \<noteq> 0 \<and> b > - 1 div a then Inl arithmetic_range_error else Inr (turbodb_u64 (a * b))))"

definition arithmetic_integer_division :: "orm_sql_arithmetic \<Rightarrow> turbodb_value \<Rightarrow> turbodb_value \<Rightarrow> turbodb_status + turbodb_value" where
  "arithmetic_integer_division arithmetic left right =
     (let a = magnitude_of left; b = magnitude_of right;
          v = (if ar_op arithmetic = ORM_SQL_MODULO then a mod b else a div b);
          negative = (if ar_op arithmetic = ORM_SQL_MODULO then negative_of left else negative_of left \<noteq> negative_of right) in
      if sql_kind (ar_result arithmetic) = KIND_UINT64 then (if negative \<and> v \<noteq> 0 then Inl arithmetic_range_error else Inr (turbodb_u64 v))
      else
        let maximum = INT64_MAX_WORD + (if negative \<and> ar_op arithmetic = ORM_SQL_MODULO then 1 else 0) in
        if v > maximum then Inl arithmetic_range_error else Inr (turbodb_i64 (signed_of negative v)))"

datatype orm_sql_numeric_condition = ORM_SQL_NUMERIC_EXACT | ORM_SQL_NUMERIC_DIVISION_BY_ZERO

definition is_zero :: "turbodb_value \<Rightarrow> bool" where
  "is_zero v =
     (if value_kind v = KIND_DOUBLE then f64_scaled (double_value (tv_data v)) = 0
      else if value_kind v = KIND_UINT64 then uint64_value (tv_data v) = 0 else int64_value (tv_data v) = 0)"

definition arithmetic_unary_eval :: "orm_sql_arithmetic_op \<Rightarrow> turbodb_value \<Rightarrow> turbodb_status + turbodb_value" where
  "arithmetic_unary_eval op left =
     (let i = int64_value (tv_data left); d = double_value (tv_data left); kind = value_kind left in
      if op = ORM_SQL_NEGATE then
        if kind = KIND_INT64 then (if i = INT64_MIN_WORD then Inl arithmetic_range_error else Inr (turbodb_i64 (- i)))
        else Inr (turbodb_f64 (f64_negate d))
      else if op = ORM_SQL_ABSOLUTE then
        if kind = KIND_INT64 then
          (if i = INT64_MIN_WORD then Inl arithmetic_range_error else Inr (turbodb_i64 (if sint i < 0 then - i else i)))
        else if kind = KIND_DOUBLE then Inr (turbodb_f64 (f64_fabs d))
        else Inr left
      else if op = ORM_SQL_SIGN then
        if kind = KIND_INT64 then Inr (turbodb_i64 (of_bool (sint i > 0) - of_bool (sint i < 0)))
        else if kind = KIND_UINT64 then Inr (turbodb_i64 (of_bool (uint64_value (tv_data left) \<noteq> 0)))
        else Inr (turbodb_i64 (of_bool (f64_less 0 d) - of_bool (f64_less d 0)))
      else if kind = KIND_DOUBLE \<and> (op = ORM_SQL_FLOOR \<or> op = ORM_SQL_CEIL) then
        Inr (turbodb_f64 (if op = ORM_SQL_FLOOR then f64_floor d else f64_ceil d))
      else Inr left)"

text \<open>The result of the operation once the operands are validated and the step is paid for.\<close>

definition arithmetic_result ::
    "(nat \<Rightarrow> f64) \<Rightarrow> orm_sql_arithmetic \<Rightarrow> turbodb_value \<Rightarrow> turbodb_value option \<Rightarrow> turbodb_status + turbodb_value \<times> orm_sql_numeric_condition" where
  "arithmetic_result pow10 arithmetic left right =
     (let op = ar_op arithmetic; r = (case right of None \<Rightarrow> turbodb_null | Some r \<Rightarrow> r);
          exact = map_sum id (\<lambda>v. (v, ORM_SQL_NUMERIC_EXACT)) in
      if value_kind left = KIND_NULL \<or> (right \<noteq> None \<and> value_kind r = KIND_NULL) then Inr (turbodb_null, ORM_SQL_NUMERIC_EXACT)
      else if arithmetic_rounding op then exact (arithmetic_round pow10 op left r)
      else if arithmetic_division op then
        if is_zero r then Inr (turbodb_null, ORM_SQL_NUMERIC_DIVISION_BY_ZERO)
        else if sql_kind (ar_result arithmetic) = KIND_DOUBLE then exact (arithmetic_real op left r)
        else exact (arithmetic_integer_division arithmetic left r)
      else if arithmetic_unary op then exact (arithmetic_unary_eval op left)
      else if sql_kind (ar_result arithmetic) = KIND_DOUBLE then exact (arithmetic_real op left r)
      else if value_kind left = KIND_INT64 then exact (arithmetic_i64 op (int64_value (tv_data left)) (int64_value (tv_data r)))
      else if value_kind left = KIND_UINT64 then exact (arithmetic_u64 op (uint64_value (tv_data left)) (uint64_value (tv_data r)))
      else Inl TURBODB_STATUS_INVALID_STATE)"

definition orm_tidesdb_sql_arithmetic_eval_condition ::
    "(nat \<Rightarrow> f64) \<Rightarrow> orm_sql_arithmetic option \<Rightarrow> turbodb_value option \<Rightarrow> turbodb_value option \<Rightarrow> orm_tidesdb_sql_budget option \<Rightarrow> bool \<Rightarrow> bool
      \<Rightarrow> turbodb_status \<times> orm_tidesdb_sql_budget option \<times> (turbodb_value \<times> orm_sql_numeric_condition) option" where
  "orm_tidesdb_sql_arithmetic_eval_condition pow10 arithmetic left right budget wants wants_condition =
     (case (arithmetic, left, budget) of
        (Some p, Some l, Some _) \<Rightarrow>
          if \<not> wants \<or> \<not> wants_condition \<or> (if arithmetic_unary (ar_op p) then right \<noteq> None else right = None)
          then (TURBODB_STATUS_INVALID_ARGUMENT, budget, None)
          else if ar_op p = ORM_SQL_NO_ARITHMETIC then (TURBODB_STATUS_INVALID_STATE, budget, None)
          else if \<not> valid_value l (ar_left p) \<or> (case right of None \<Rightarrow> False | Some r \<Rightarrow> \<not> valid_value r (ar_right p))
          then (TURBODB_STATUS_TYPE_ERROR, budget, None)
          else (case orm_tidesdb_sql_budget_reserve budget (Some (steps_amount 1)) of (status, budget) \<Rightarrow>
            if status \<noteq> TURBODB_STATUS_OK then (status, budget, None)
            else (case arithmetic_result pow10 p l right of
                    Inl status \<Rightarrow> (status, budget, None)
                  | Inr result \<Rightarrow> (TURBODB_STATUS_OK, budget, Some result)))
      | _ \<Rightarrow> (TURBODB_STATUS_INVALID_ARGUMENT, budget, None))"

definition orm_tidesdb_sql_arithmetic_eval ::
    "(nat \<Rightarrow> f64) \<Rightarrow> orm_sql_arithmetic option \<Rightarrow> turbodb_value option \<Rightarrow> turbodb_value option \<Rightarrow> orm_tidesdb_sql_budget option \<Rightarrow> bool
      \<Rightarrow> turbodb_status \<times> orm_tidesdb_sql_budget option \<times> turbodb_value option" where
  "orm_tidesdb_sql_arithmetic_eval pow10 arithmetic left right budget wants =
     (if \<not> wants then (TURBODB_STATUS_INVALID_ARGUMENT, budget, None)
      else case orm_tidesdb_sql_arithmetic_eval_condition pow10 arithmetic left right budget True True of (status, budget, result) \<Rightarrow>
        (case result of None \<Rightarrow> (status, budget, None)
         | Some (v, condition) \<Rightarrow>
           if condition = ORM_SQL_NUMERIC_DIVISION_BY_ZERO then (TURBODB_STATUS_SQL_ERROR, budget, None) else (status, budget, Some v)))"


section \<open>Specification\<close>

text \<open>The integer a value stands for.\<close>

definition integer_of :: "turbodb_value \<Rightarrow> int" where
  "integer_of v = (case tv_data v of TURBODB_VALUE_INT64 i \<Rightarrow> sint i | TURBODB_VALUE_UINT64 u \<Rightarrow> uint u | _ \<Rightarrow> 0)"

text \<open>Division truncates toward zero, and the remainder has the sign of the dividend.\<close>

definition truncated_div :: "int \<Rightarrow> int \<Rightarrow> int" where
  "truncated_div x y = sgn x * sgn y * (\<bar>x\<bar> div \<bar>y\<bar>)"

definition truncated_mod :: "int \<Rightarrow> int \<Rightarrow> int" where
  "truncated_mod x y = sgn x * (\<bar>x\<bar> mod \<bar>y\<bar>)"

text \<open>Rounding to a multiple of a power of ten, ties away from zero; a precision that is not negative changes nothing.\<close>

definition rounded_to :: "int \<Rightarrow> int \<Rightarrow> int" where
  "rounded_to x p = (if p \<ge> 0 then x else let s = 10 ^ nat (- p) in sgn x * ((\<bar>x\<bar> + s div 2) div s * s))"

definition truncated_to :: "int \<Rightarrow> int \<Rightarrow> int" where
  "truncated_to x p = (if p \<ge> 0 then x else let s = 10 ^ nat (- p) in sgn x * (\<bar>x\<bar> div s * s))"

definition exact_result :: "orm_sql_arithmetic_op \<Rightarrow> int \<Rightarrow> int \<Rightarrow> int" where
  "exact_result op x y =
     (case op of
        ORM_SQL_ADD \<Rightarrow> x + y
      | ORM_SQL_SUBTRACT \<Rightarrow> x - y
      | ORM_SQL_MULTIPLY \<Rightarrow> x * y
      | ORM_SQL_NEGATE \<Rightarrow> - x
      | ORM_SQL_ABSOLUTE \<Rightarrow> \<bar>x\<bar>
      | ORM_SQL_SIGN \<Rightarrow> sgn x
      | ORM_SQL_INTEGER_DIVIDE \<Rightarrow> truncated_div x y
      | ORM_SQL_MODULO \<Rightarrow> truncated_mod x y
      | ORM_SQL_ROUND \<Rightarrow> rounded_to x y
      | ORM_SQL_TRUNCATE \<Rightarrow> truncated_to x y
      | _ \<Rightarrow> x)"

text \<open>The results that fit their type; \<open>DIV\<close> gives the least signed integer up as well.\<close>

definition representable :: "orm_sql_arithmetic_op \<Rightarrow> turbodb_value_kind \<Rightarrow> int \<Rightarrow> bool" where
  "representable op kind z \<longleftrightarrow>
     (if kind = KIND_UINT64 then 0 \<le> z \<and> z < 2 ^ 64
      else (if op = ORM_SQL_INTEGER_DIVIDE then - (2 ^ 63) < z else - (2 ^ 63) \<le> z) \<and> z < 2 ^ 63)"

definition integer_value :: "turbodb_value_kind \<Rightarrow> int \<Rightarrow> turbodb_value" where
  "integer_value kind z = (if kind = KIND_UINT64 then turbodb_u64 (word_of_int z) else turbodb_i64 (word_of_int z))"

definition integer_outcome :: "orm_sql_arithmetic_op \<Rightarrow> turbodb_value_kind \<Rightarrow> int \<Rightarrow> turbodb_status + turbodb_value" where
  "integer_outcome op kind z = (if representable op kind z then Inr (integer_value kind z) else Inl TURBODB_STATUS_LIMIT_EXCEEDED)"


section \<open>Integers and their words\<close>

lemma uint_range: "0 \<le> uint (u :: u64)" "uint (u :: u64) < 2 ^ 64"
  using unsigned_greater_eq [of u] unsigned_less [of u, where 'a = int] by simp_all

lemma sint_range: "- (2 ^ 63) \<le> sint (i :: i64)" "sint (i :: i64) < 2 ^ 63"
  using sint_greater_eq [of i] sint_less [of i] by simp_all

lemma uint_of_int: "0 \<le> z \<Longrightarrow> z < 2 ^ 64 \<Longrightarrow> uint (word_of_int z :: u64) = z"
  by (simp add: uint_word_of_int_eq take_bit_int_eq_self)

lemma sint_of_int: "- (2 ^ 63) \<le> z \<Longrightarrow> z < 2 ^ 63 \<Longrightarrow> sint (word_of_int z :: i64) = z"
  using sint_sbintrunc' [of z, where 'a = 64] by (simp add: signed_take_bit_int_eq_self)

lemma signed_magnitude_value: "uint (signed_magnitude v) = \<bar>sint v\<bar>"
proof (cases "sint v < 0")
  case True
  have "signed_magnitude v = word_of_int (- sint v)" using True by (simp add: signed_magnitude_def)
  then show ?thesis using True sint_range [of v] uint_of_int [of "- sint v"] by simp
next
  case False
  have "signed_magnitude v = word_of_int (sint v)" using False by (simp add: signed_magnitude_def)
  then show ?thesis using False sint_range [of v] uint_of_int [of "sint v"] by simp
qed

lemma signed_of_value: "signed_of negative m = word_of_int (if negative then - uint m else uint m)"
  by (simp add: signed_of_def)

lemma integral_cases:
  assumes "integral (value_kind v)"
  obtains i where "tv_data v = TURBODB_VALUE_INT64 i" | u where "tv_data v = TURBODB_VALUE_UINT64 u"
  using assms by (cases "tv_data v") (auto simp: integral_def)

lemma magnitude_value: "integral (value_kind v) \<Longrightarrow> uint (magnitude_of v) = \<bar>integer_of v\<bar>"
  by (erule integral_cases) (simp_all add: magnitude_of_def integer_of_def signed_magnitude_value)

lemma negative_value: "integral (value_kind v) \<Longrightarrow> negative_of v \<longleftrightarrow> integer_of v < 0"
  by (erule integral_cases) (auto simp: negative_of_def integer_of_def uint_range not_less)

lemma integer_range: "integral (value_kind v) \<Longrightarrow> - (2 ^ 63) \<le> integer_of v \<and> integer_of v < 2 ^ 64 \<and>
    (value_kind v = KIND_INT64 \<longrightarrow> integer_of v < 2 ^ 63) \<and> (value_kind v = KIND_UINT64 \<longrightarrow> 0 \<le> integer_of v)"
  by (erule integral_cases; use sint_range uint_range in \<open>auto simp: integer_of_def intro: order.trans [of _ 0] less_trans [of _ "2 ^ 63"]\<close>)

lemma max_word: "uint (INT64_MAX_WORD + (if negative then 1 else 0)) = 2 ^ 63 - 1 + of_bool negative"
  by simp


section \<open>Operations are exact\<close>

lemma le_div_iff:
  fixes b c n :: int
  assumes "0 < c"
  shows "b \<le> n div c \<longleftrightarrow> b * c \<le> n"
proof
  assume "b \<le> n div c"
  then have "b * c \<le> n div c * c" using assms by simp
  then show "b * c \<le> n" using pos_mod_sign [OF assms, of n] div_mult_mod_eq [of n c] by linarith
next
  assume "b * c \<le> n"
  then show "b \<le> n div c" using zdiv_mono1 [of "b * c" n c] assms by simp
qed

lemma u64_exact:
  assumes "op \<in> {ORM_SQL_ADD, ORM_SQL_SUBTRACT, ORM_SQL_MULTIPLY}"
  shows "arithmetic_u64 op a b = integer_outcome op KIND_UINT64 (exact_result op (uint a) (uint b))"
proof -
  note a = uint_range [of a] and b = uint_range [of b]
  have m1: "uint (- 1 - a) = 2 ^ 64 - 1 - uint a"
  proof -
    have eq: "- 1 - a = word_of_int (2 ^ 64 - 1 - uint a)" by simp
    show ?thesis unfolding eq using a by (intro uint_of_int) linarith+
  qed
  have add: "b > - 1 - a \<longleftrightarrow> \<not> uint a + uint b < 2 ^ 64" unfolding word_less_def m1 by linarith
  have sub: "a < b \<longleftrightarrow> \<not> 0 \<le> uint a - uint b" unfolding word_less_def by linarith
  have mul: "a \<noteq> 0 \<and> b > - 1 div a \<longleftrightarrow> \<not> uint a * uint b < 2 ^ 64"
  proof (cases "a = 0")
    case False
    then have pos: "0 < uint a" using a by (simp add: word_neq_0_conv word_less_def)
    have "uint (- 1 div a) = (2 ^ 64 - 1) div uint a" by (simp add: uint_div_distrib unsigned_minus_1_eq_mask mask_eq_exp_minus_1)
    then have "b > - 1 div a \<longleftrightarrow> \<not> uint b * uint a \<le> 2 ^ 64 - 1"
      unfolding word_less_def using pos by (simp add: not_le [symmetric] le_div_iff)
    then show ?thesis using False by (simp only: zle_diff1_eq mult.commute [of "uint b"]) simp
  qed simp
  have "uint a - uint b < 2 ^ 64" using a b by linarith
  then show ?thesis using assms a b
    by (auto simp: arithmetic_u64_def add sub mul integer_outcome_def representable_def exact_result_def integer_value_def arithmetic_range_error_def)
qed

lemma signed_fits:
  fixes m :: int
  assumes "0 \<le> m"
  shows "m \<le> 2 ^ 63 - 1 + of_bool negative \<longleftrightarrow> - (2 ^ 63) \<le> (if negative then - m else m) \<and> (if negative then - m else m) < 2 ^ 63"
  using assms by (cases negative) auto

lemma i64_exact:
  assumes "op \<in> {ORM_SQL_ADD, ORM_SQL_SUBTRACT, ORM_SQL_MULTIPLY}"
  shows "arithmetic_i64 op a b = integer_outcome op KIND_INT64 (exact_result op (sint a) (sint b))"
proof -
  note a = sint_range [of a] and b = sint_range [of b]
  have eqs: "INT64_MAX_WORD - b = word_of_int (2 ^ 63 - 1 - sint b)" "INT64_MIN_WORD - b = word_of_int (- (2 ^ 63) - sint b)"
    "INT64_MIN_WORD + b = word_of_int (- (2 ^ 63) + sint b)" "INT64_MAX_WORD + b = word_of_int (2 ^ 63 - 1 + sint b)" by simp_all
  have ends: "sint b > 0 \<Longrightarrow> sint (INT64_MAX_WORD - b) = 2 ^ 63 - 1 - sint b" "sint b < 0 \<Longrightarrow> sint (INT64_MIN_WORD - b) = - (2 ^ 63) - sint b"
    "sint b > 0 \<Longrightarrow> sint (INT64_MIN_WORD + b) = - (2 ^ 63) + sint b" "sint b < 0 \<Longrightarrow> sint (INT64_MAX_WORD + b) = 2 ^ 63 - 1 + sint b"
    unfolding eqs using b by (intro sint_of_int; linarith)+
  have add: "(sint b > 0 \<and> sint a > sint (INT64_MAX_WORD - b)) \<or> (sint b < 0 \<and> sint a < sint (INT64_MIN_WORD - b)) \<longleftrightarrow>
      \<not> (- (2 ^ 63) \<le> sint a + sint b \<and> sint a + sint b < 2 ^ 63)"
    using a b ends(1,2) by linarith
  have sub: "(sint b > 0 \<and> sint a < sint (INT64_MIN_WORD + b)) \<or> (sint b < 0 \<and> sint a > sint (INT64_MAX_WORD + b)) \<longleftrightarrow>
      \<not> (- (2 ^ 63) \<le> sint a - sint b \<and> sint a - sint b < 2 ^ 63)"
    using a b ends(3,4) by linarith
  show ?thesis
  proof (cases "op = ORM_SQL_MULTIPLY")
    case False
    then show ?thesis using assms add sub
      by (auto simp: arithmetic_i64_def integer_outcome_def representable_def exact_result_def integer_value_def arithmetic_range_error_def)
  next
    case True
    let ?neg = "(sint a < 0) \<noteq> (sint b < 0)" and ?x = "signed_magnitude a" and ?y = "signed_magnitude b"
    let ?max = "2 ^ 63 - 1 + of_bool ?neg :: int"
    have z: "sint a * sint b = (if ?neg then - (uint ?x * uint ?y) else uint ?x * uint ?y)"
      by (auto simp: signed_magnitude_value abs_if)
    have nonneg: "0 \<le> uint ?x * uint ?y" by (simp add: uint_range)
    have check: "?x \<noteq> 0 \<and> ?y > (INT64_MAX_WORD + (if ?neg then 1 else 0)) div ?x \<longleftrightarrow> \<not> uint ?x * uint ?y \<le> ?max"
    proof (cases "?x = 0")
      case False
      then have pos: "0 < uint ?x" using uint_range(1) [of ?x] by (simp add: word_neq_0_conv word_less_def)
      show ?thesis using False pos le_div_iff [OF pos, of "uint ?y" ?max]
        by (simp only: word_less_def uint_div_distrib max_word not_le [symmetric] mult.commute [of "uint ?x"]) simp
    qed simp
    have fits: "uint ?x * uint ?y \<le> ?max \<longleftrightarrow> - (2 ^ 63) \<le> sint a * sint b \<and> sint a * sint b < 2 ^ 63"
      unfolding z by (rule signed_fits [OF nonneg])
    have val: "signed_of ?neg (?x * ?y) = word_of_int (sint a * sint b)"
      unfolding z signed_of_value by (simp add: word_of_int_minus [symmetric])
    show ?thesis using True check fits val
      by (simp add: arithmetic_i64_def Let_def integer_outcome_def representable_def exact_result_def integer_value_def arithmetic_range_error_def)
  qed
qed

lemmas outcome_defs = integer_outcome_def representable_def integer_value_def arithmetic_range_error_def

lemma division_exact:
  assumes "integral (value_kind a)" "integral (value_kind b)" and "integer_of b \<noteq> 0"
    and "ar_op p = ORM_SQL_INTEGER_DIVIDE \<or> ar_op p = ORM_SQL_MODULO" and "sql_kind (ar_result p) = KIND_INT64 \<or> sql_kind (ar_result p) = KIND_UINT64"
  shows "arithmetic_integer_division p a b =
    integer_outcome (ar_op p) (sql_kind (ar_result p)) (exact_result (ar_op p) (integer_of a) (integer_of b))"
proof -
  let ?x = "integer_of a" and ?y = "integer_of b" and ?mod = "ar_op p = ORM_SQL_MODULO"
  define v where "v = (if ?mod then magnitude_of a mod magnitude_of b else magnitude_of a div magnitude_of b)"
  define negative where "negative = (if ?mod then negative_of a else negative_of a \<noteq> negative_of b)"
  have uv: "uint v = (if ?mod then \<bar>?x\<bar> mod \<bar>?y\<bar> else \<bar>?x\<bar> div \<bar>?y\<bar>)"
    using assms(1,2) by (simp add: v_def uint_mod_distrib uint_div_distrib magnitude_value)
  have neg: "negative = (if ?mod then ?x < 0 else (?x < 0) \<noteq> (?y < 0))" using assms(1,2) by (simp add: negative_def negative_value)
  have z: "exact_result (ar_op p) ?x ?y = (if negative then - uint v else uint v)"
    using assms(3,4) by (cases "?x = 0") (auto simp: exact_result_def truncated_div_def truncated_mod_def uv neg sgn_if)
  have range: "0 \<le> uint v" "uint v < 2 ^ 64" "- uint v < 2 ^ 63" "- (2 ^ 63) < uint v" "- (2 ^ 63) \<le> uint v"
    using uint_range [of v] zero_less_power [of "2 :: int" 63] by linarith+
  have max: "v > INT64_MAX_WORD + (if negative \<and> ?mod then 1 else 0) \<longleftrightarrow> \<not> uint v \<le> 2 ^ 63 - 1 + of_bool (negative \<and> ?mod)"
    by (simp only: word_less_def max_word not_le)
  have fits: "uint v \<le> 2 ^ 63 - 1 + of_bool (negative \<and> ?mod) \<longleftrightarrow>
      (if ar_op p = ORM_SQL_INTEGER_DIVIDE then - (2 ^ 63) < exact_result (ar_op p) ?x ?y else - (2 ^ 63) \<le> exact_result (ar_op p) ?x ?y) \<and>
      exact_result (ar_op p) ?x ?y < 2 ^ 63"
    using assms(4) range unfolding z by (cases negative) auto
  have nz: "negative \<and> v \<noteq> 0 \<longleftrightarrow> \<not> (0 \<le> (if negative then - uint v else uint v) \<and> (if negative then - uint v else uint v) < 2 ^ 64)"
  proof -
    have "v \<noteq> 0 \<longleftrightarrow> 0 < uint v" by (simp add: word_neq_0_conv word_less_def)
    then show ?thesis using range zero_less_power [of "2 :: int" 64] by (cases negative) (simp_all only: if_True if_False simp_thms, linarith+)
  qed
  have "arithmetic_integer_division p a b =
      (if sql_kind (ar_result p) = KIND_UINT64 then (if negative \<and> v \<noteq> 0 then Inl arithmetic_range_error else Inr (turbodb_u64 v))
       else if v > INT64_MAX_WORD + (if negative \<and> ?mod then 1 else 0) then Inl arithmetic_range_error else Inr (turbodb_i64 (signed_of negative v)))"
    by (simp only: arithmetic_integer_division_def v_def negative_def Let_def)
  also have "\<dots> = integer_outcome (ar_op p) (sql_kind (ar_result p)) (exact_result (ar_op p) ?x ?y)"
  proof (cases "sql_kind (ar_result p) = KIND_UINT64")
    case True
    then show ?thesis using nz unfolding z by (auto simp: outcome_defs)
  next
    case False
    have "signed_of negative v = word_of_int (exact_result (ar_op p) ?x ?y)" by (simp only: z signed_of_value)
    then show ?thesis using False unfolding max fits by (simp only: outcome_defs if_False not_not if_not_P split: if_split) auto
  qed
  finally show ?thesis .
qed

lemma min_word: "i = INT64_MIN_WORD \<longleftrightarrow> sint (i :: i64) = - (2 ^ 63)"
proof
  assume "sint i = - (2 ^ 63)"
  then have "word_of_int (sint i) = (word_of_int (- (2 ^ 63)) :: i64)" by simp
  then show "i = INT64_MIN_WORD" by simp
qed simp

lemma unary_exact:
  assumes "arithmetic_unary op" and "integral (value_kind a)" and "op = ORM_SQL_NEGATE \<Longrightarrow> value_kind a = KIND_INT64" and "tv_reserved a = 0"
  shows "arithmetic_unary_eval op a =
    integer_outcome op (if op = ORM_SQL_SIGN then KIND_INT64 else value_kind a) (exact_result op (integer_of a) y)"
  using assms(2)
proof (cases rule: integral_cases)
  case (1 i)
  then have a: "a = turbodb_i64 i" using assms(4) by (simp add: turbodb_i64_def)
  show ?thesis
  proof (cases "op \<in> {ORM_SQL_NEGATE, ORM_SQL_ABSOLUTE, ORM_SQL_SIGN}")
    case True
    then show ?thesis using 1 sint_range [of i]
      by (auto simp: arithmetic_unary_eval_def exact_result_def integer_of_def outcome_defs min_word sgn_if a Let_def)
  next
    case False
    then have "op = ORM_SQL_POSITIVE \<or> op = ORM_SQL_FLOOR \<or> op = ORM_SQL_CEIL" using assms(1) by (auto simp: arithmetic_unary_def)
    then show ?thesis using 1 sint_range [of i]
      by (elim disjE) (simp_all add: arithmetic_unary_eval_def exact_result_def integer_of_def outcome_defs a)
  qed
next
  case (2 u)
  then have a: "a = turbodb_u64 u" using assms(4) by (simp add: turbodb_u64_def)
  have "op \<noteq> ORM_SQL_NEGATE" using assms(3) 2 by auto
  moreover have "0 < uint u \<longleftrightarrow> u \<noteq> 0" by (simp add: word_neq_0_conv word_less_def)
  ultimately show ?thesis using assms(1) 2 uint_range [of u]
    by (auto simp: arithmetic_unary_def arithmetic_unary_eval_def exact_result_def integer_of_def outcome_defs sgn_if a Let_def)
qed

lemma integer_self:
  assumes "integral (value_kind a)" and "tv_reserved a = 0"
  shows "integer_value (value_kind a) (integer_of a) = a" and "op \<noteq> ORM_SQL_INTEGER_DIVIDE \<Longrightarrow> representable op (value_kind a) (integer_of a)"
  using assms sint_range uint_range
  by (auto elim!: integral_cases simp: integer_value_def integer_of_def representable_def turbodb_value_defs)

lemma scale_word: "((\<lambda>s. s * 10) ^^ n) (1 :: u64) = word_of_int (10 ^ n)"
  by (induction n) (simp_all add: mult.commute)

lemma tens: "d \<le> 19 \<Longrightarrow> (10 :: int) ^ d < 2 ^ 64"
proof -
  assume "d \<le> 19"
  then have "(10 :: int) ^ d \<le> 10 ^ 19" by (intro power_increasing) simp_all
  then show ?thesis by simp
qed

text \<open>Rounding half up, over the remainder.\<close>

lemma round_half:
  fixes x s :: int
  assumes "0 < s" and "s mod 2 = 0"
  shows "(x + s div 2) div s * s = x - x mod s + (if s div 2 \<le> x mod s then s else 0)"
proof -
  define r where "r = x mod s"
  have r: "0 \<le> r" "r < s" using assms(1) by (simp_all add: r_def)
  have s2: "2 * (s div 2) = s" using assms(2) by (simp add: mult.commute minus_mod_eq_mult_div [symmetric])
  have "x + s div 2 = x div s * s + (r + s div 2)" by (simp add: r_def)
  then have "(x + s div 2) div s = (x div s * s + (r + s div 2)) div s" by (rule arg_cong)
  also have "\<dots> = x div s + (r + s div 2) div s" using assms(1) by simp
  finally have "(x + s div 2) div s = x div s + (r + s div 2) div s" .
  moreover have "(r + s div 2) div s = (if s div 2 \<le> r then 1 else 0)"
    using r s2 by (cases "s div 2 \<le> r") (auto intro: int_div_pos_eq [of _ _ _ "r + s div 2 - s"] simp: div_pos_pos_trivial)
  ultimately show ?thesis by (simp add: r_def minus_mod_eq_div_mult algebra_simps)
qed

text \<open>The part of a magnitude that rounding keeps, and the test that a step up still fits.\<close>

lemma kept_word:
  fixes m scale maximum :: u64
  assumes "0 < uint scale" and "uint m \<le> uint maximum" and kept: "kept = uint m - uint m mod uint scale"
  shows "m - m mod scale = word_of_int kept" and "0 \<le> kept" and "kept \<le> uint m"
    and "scale > maximum - (m - m mod scale) \<longleftrightarrow> \<not> kept + uint scale \<le> uint maximum"
proof -
  have "m - m mod scale = word_of_int (uint m - uint (m mod scale))" by simp
  then show base: "m - m mod scale = word_of_int kept" by (simp only: kept uint_mod_distrib)
  show bounds: "0 \<le> kept" "kept \<le> uint m" using assms(1) by (simp_all add: kept zmod_le_nonneg_dividend)
  have left: "maximum - (m - m mod scale) = word_of_int (uint maximum - kept)" unfolding base by simp
  have "uint (maximum - (m - m mod scale)) = uint maximum - kept"
    unfolding left using uint_range [of maximum] bounds assms(2) by (intro uint_of_int) linarith+
  then show "scale > maximum - (m - m mod scale) \<longleftrightarrow> \<not> kept + uint scale \<le> uint maximum" unfolding word_less_def by linarith
qed

definition magnitude_limit :: "turbodb_value \<Rightarrow> u64" where
  "magnitude_limit a = (if value_kind a = KIND_UINT64 then - 1 else INT64_MAX_WORD + (if negative_of a then 1 else 0))"

lemma magnitude_limit_value:
  "uint (magnitude_limit a) = (if value_kind a = KIND_UINT64 then 2 ^ 64 - 1 else 2 ^ 63 - 1 + of_bool (negative_of a))"
  unfolding magnitude_limit_def by (cases "value_kind a = KIND_UINT64"; cases "negative_of a") (simp_all add: unsigned_minus_1_eq_mask mask_eq_exp_minus_1)

lemma magnitude_within: "integral (value_kind a) \<Longrightarrow> \<bar>integer_of a\<bar> \<le> uint (magnitude_limit a)"
  using integer_range [of a] negative_value [of a] unfolding magnitude_limit_value by (auto simp: integral_def abs_if)

lemma magnitude_fits:
  assumes "integral (value_kind a)" and "op \<noteq> ORM_SQL_INTEGER_DIVIDE" and "0 \<le> rounded"
  shows "rounded \<le> uint (magnitude_limit a) \<longleftrightarrow> representable op (value_kind a) (if negative_of a then - rounded else rounded)"
proof (cases "value_kind a = KIND_UINT64")
  case True
  then have "\<not> negative_of a" by (simp add: negative_of_def)
  then show ?thesis using True assms(3) by (simp add: magnitude_limit_value representable_def) linarith
next
  case False
  then show ?thesis using signed_fits [OF assms(3), of "negative_of a"] assms(2) unfolding magnitude_limit_value representable_def by auto
qed

lemma round_integer_exact:
  assumes int: "integral (value_kind a)" and op: "op = ORM_SQL_ROUND \<or> op = ORM_SQL_TRUNCATE" and "0 < uint digits"
  shows "arithmetic_round_integer op a digits = integer_outcome op (value_kind a) (exact_result op (integer_of a) (- uint digits))"
proof -
  let ?x = "integer_of a" and ?neg = "negative_of a" and ?m = "magnitude_of a" and ?max = "magnitude_limit a"
  define s :: int where "s = 10 ^ unat digits"
  define up where "up \<longleftrightarrow> op = ORM_SQL_ROUND \<and> s div 2 \<le> \<bar>?x\<bar> mod s"
  define rounded where "rounded = \<bar>?x\<bar> - \<bar>?x\<bar> mod s + (if up then s else 0)"
  have "nat (uint digits) = unat digits" by simp
  then obtain e where e: "unat digits = Suc e" using assms(3) by (metis gr0_conv_Suc zero_less_nat_eq)
  have s: "0 < s" "s mod 2 = 0" by (simp_all add: s_def e)
  have "?x = 0 \<Longrightarrow> rounded = 0" using s by (auto simp: rounded_def up_def)
  then have z: "exact_result op ?x (- uint digits) = (if ?neg then - rounded else rounded)"
    using op assms(3) round_half [OF s, of "\<bar>?x\<bar>"] negative_value [OF int]
    by (auto simp: exact_result_def rounded_to_def truncated_to_def s_def rounded_def up_def minus_mod_eq_div_mult sgn_if Let_def)
  show ?thesis
  proof (cases "digits \<ge> 20")
    case True
    then have "(10 :: int) ^ 20 \<le> s" unfolding s_def by (intro power_increasing) (simp_all add: word_le_nat_alt)
    moreover have "\<bar>?x\<bar> < 2 ^ 64" using integer_range [OF int] by (auto simp: abs_if)
    ultimately have "\<bar>?x\<bar> mod s = \<bar>?x\<bar>" "\<not> s div 2 \<le> \<bar>?x\<bar>" by simp_all
    then have "rounded = 0" by (simp add: rounded_def up_def)
    then show ?thesis using True int unfolding z by (auto simp: arithmetic_round_integer_def outcome_defs integral_def)
  next
    case False
    define scale where "scale = (word_of_int s :: u64)"
    have "s < 2 ^ 64" unfolding s_def by (rule tens) (use False in \<open>simp add: word_le_nat_alt\<close>)
    then have u: "uint scale = s" "uint ?m = \<bar>?x\<bar>" using s int by (simp_all add: scale_def uint_of_int magnitude_value)
    note kept = kept_word [of scale ?m ?max, unfolded u, OF s(1) magnitude_within [OF int] refl]
    have up: "op = ORM_SQL_ROUND \<and> scale div 2 \<le> ?m mod scale \<longleftrightarrow> up" by (simp add: up_def word_le_def uint_mod_distrib uint_div_distrib u)
    have fails: "up \<and> scale > ?max - (?m - ?m mod scale) \<longleftrightarrow> \<not> rounded \<le> uint ?max"
      using kept(2-4) magnitude_within [OF int] by (auto simp: rounded_def)
    have nonneg: "0 \<le> rounded" using kept(2) s by (simp add: rounded_def)
    have word: "(if up then ?m - ?m mod scale + scale else ?m - ?m mod scale) = word_of_int rounded"
      unfolding kept(1) by (simp add: rounded_def scale_def)
    have "arithmetic_round_integer op a digits =
        (if \<not> rounded \<le> uint ?max then Inl arithmetic_range_error
         else Inr (if value_kind a = KIND_UINT64 then turbodb_u64 (word_of_int rounded) else turbodb_i64 (signed_of ?neg (word_of_int rounded))))"
      using False unfolding fails [symmetric] word [symmetric] up [symmetric]
      by (simp add: arithmetic_round_integer_def scale_word Let_def scale_def s_def magnitude_limit_def)
    also have "\<dots> = integer_outcome op (value_kind a) (if ?neg then - rounded else rounded)"
    proof (cases "rounded \<le> uint ?max")
      case True
      then have "uint (word_of_int rounded :: u64) = rounded" using nonneg uint_range [of ?max] by (intro uint_of_int) linarith+
      then show ?thesis using True op unfolding integer_outcome_def
        by (subst magnitude_fits [OF int _ nonneg, symmetric]) (auto simp: integer_value_def signed_of_value negative_of_def)
    next
      case False
      then show ?thesis using magnitude_fits [OF int _ nonneg, of op] op by (auto simp: integer_outcome_def arithmetic_range_error_def)
    qed
    finally show ?thesis unfolding z .
  qed
qed

lemma round_exact:
  assumes "integral (value_kind a)" "tv_reserved a = 0" and "integral (value_kind p)" and "op = ORM_SQL_ROUND \<or> op = ORM_SQL_TRUNCATE"
  shows "arithmetic_round pow10 op a p = integer_outcome op (value_kind a) (exact_result op (integer_of a) (integer_of p))"
proof -
  have int: "value_kind a \<noteq> KIND_DOUBLE" using assms(1) by (auto simp: integral_def)
  show ?thesis
  proof (cases "integer_of p < 0")
    case True
    have "uint (magnitude_of p) = - integer_of p" using True magnitude_value [OF assms(3)] by simp
    then show ?thesis using True int round_integer_exact [OF assms(1,4), of "magnitude_of p"] negative_value [OF assms(3)]
      by (simp add: arithmetic_round_def)
  next
    case False
    then have "exact_result op (integer_of a) (integer_of p) = integer_of a"
      using assms(4) by (auto simp: exact_result_def rounded_to_def truncated_to_def)
    then show ?thesis using False int integer_self [OF assms(1,2)] assms(4) negative_value [OF assms(3)]
      by (auto simp: arithmetic_round_def integer_outcome_def)
  qed
qed

lemma zero_value: "integral (value_kind v) \<Longrightarrow> is_zero v \<longleftrightarrow> integer_of v = 0"
proof (erule integral_cases)
  fix i
  assume "tv_data v = TURBODB_VALUE_INT64 i"
  moreover have "sint i = 0 \<longleftrightarrow> i = 0"
  proof
    assume zero: "sint i = 0"
    have "(word_of_int (sint i) :: i64) = i" by simp
    then show "i = 0" unfolding zero by simp
  qed simp
  ultimately show "is_zero v \<longleftrightarrow> integer_of v = 0" by (simp add: is_zero_def integer_of_def)
qed (simp add: is_zero_def integer_of_def uint_0_iff)

lemmas bind_defs = orm_tidesdb_sql_arithmetic_bind_def integral_def arithmetic_unary_def arithmetic_rounding_def null_type_def

lemma bound_unary_arithmetic:
  assumes "orm_tidesdb_sql_arithmetic_bind op l None True = Inr p" and "integral (sql_kind l)"
  shows "arithmetic_unary op \<and> ar_op p = op \<and> ar_left p = l \<and> (op = ORM_SQL_NEGATE \<longrightarrow> sql_kind l = KIND_INT64) \<and>
    sql_kind (ar_result p) = (if op = ORM_SQL_SIGN then KIND_INT64 else sql_kind l)"
  using assms by (cases op) (auto simp: bind_defs Let_def split: if_splits)

lemma bound_binary_arithmetic:
  assumes "orm_tidesdb_sql_arithmetic_bind op l (Some t) True = Inr p" and "integral (sql_kind l)" and "integral (sql_kind t)"
  shows "\<not> arithmetic_unary op \<and> op \<noteq> ORM_SQL_NO_ARITHMETIC \<and> op \<noteq> ORM_SQL_DIVIDE \<and> ar_op p = op \<and> ar_left p = l \<and> ar_right p = t \<and>
    (op \<in> {ORM_SQL_ADD, ORM_SQL_SUBTRACT, ORM_SQL_MULTIPLY} \<longrightarrow> sql_kind t = sql_kind l) \<and>
    sql_kind (ar_result p) =
      (if op = ORM_SQL_INTEGER_DIVIDE then (if sql_kind l = KIND_UINT64 \<or> sql_kind t = KIND_UINT64 then KIND_UINT64 else KIND_INT64) else sql_kind l)"
  using assms by (cases op; simp add: bind_defs Let_def split: if_splits; auto simp: bind_defs)

lemma integer_operand:
  assumes "valid_value v t" and "integral (sql_kind t)" and "\<not> is_null v"
  shows "value_kind v = sql_kind t" and "tv_reserved v = 0" and "integral (value_kind v)"
  using assms by (auto simp: valid_value_def null_kind [symmetric] split: if_splits)

text \<open>NULL propagates, a division by zero is NULL with a condition, and everything else is exact or out of range.\<close>

definition arithmetic_spec ::
    "orm_sql_arithmetic_op \<Rightarrow> turbodb_value_kind \<Rightarrow> turbodb_value \<Rightarrow> turbodb_value option \<Rightarrow> turbodb_status + turbodb_value \<times> orm_sql_numeric_condition" where
  "arithmetic_spec op kind a right =
     (let y = (case right of None \<Rightarrow> 0 | Some b \<Rightarrow> integer_of b) in
      if is_null a \<or> pred_option is_null right \<and> right \<noteq> None then Inr (turbodb_null, ORM_SQL_NUMERIC_EXACT)
      else if arithmetic_division op \<and> y = 0 then Inr (turbodb_null, ORM_SQL_NUMERIC_DIVISION_BY_ZERO)
      else map_sum id (\<lambda>v. (v, ORM_SQL_NUMERIC_EXACT)) (integer_outcome op kind (exact_result op (integer_of a) y)))"

lemma unary_result_exact:
  assumes "orm_tidesdb_sql_arithmetic_bind op l None True = Inr p" and "integral (sql_kind l)" and "valid_value a l"
  shows "arithmetic_result pow10 p a None = arithmetic_spec op (sql_kind (ar_result p)) a None"
proof (cases "is_null a")
  case True
  then show ?thesis by (simp add: arithmetic_result_def arithmetic_spec_def null_kind)
next
  case False
  note bound = bound_unary_arithmetic [OF assms(1,2)] and a = integer_operand [OF assms(3,2) False]
  have "arithmetic_unary_eval op a = integer_outcome op (sql_kind (ar_result p)) (exact_result op (integer_of a) 0)"
    using unary_exact [of op a 0] bound a by simp
  moreover have "\<not> arithmetic_rounding op" "\<not> arithmetic_division op"
    using bound by (auto simp: arithmetic_unary_def arithmetic_rounding_def arithmetic_division_def)
  ultimately show ?thesis using False bound by (simp add: arithmetic_result_def arithmetic_spec_def null_kind)
qed

lemma binary_result_exact:
  assumes "orm_tidesdb_sql_arithmetic_bind op l (Some t) True = Inr p" and "integral (sql_kind l)" "integral (sql_kind t)"
    and "valid_value a l" "valid_value b t"
  shows "arithmetic_result pow10 p a (Some b) = arithmetic_spec op (sql_kind (ar_result p)) a (Some b)"
proof (cases "is_null a \<or> is_null b")
  case True
  then show ?thesis by (simp add: arithmetic_result_def arithmetic_spec_def null_kind)
next
  case False
  note bound = bound_binary_arithmetic [OF assms(1-3)]
  have a: "value_kind a = sql_kind l" "tv_reserved a = 0" "integral (value_kind a)" and b: "value_kind b = sql_kind t" "integral (value_kind b)"
    using integer_operand [OF assms(4,2)] integer_operand [OF assms(5,3)] False by auto
  have kind: "sql_kind (ar_result p) = KIND_INT64 \<or> sql_kind (ar_result p) = KIND_UINT64" using bound a(1,3) by (auto simp: integral_def)
  consider "arithmetic_rounding op" | "op = ORM_SQL_INTEGER_DIVIDE \<or> op = ORM_SQL_MODULO" | "op \<in> {ORM_SQL_ADD, ORM_SQL_SUBTRACT, ORM_SQL_MULTIPLY}"
    using bound by (cases op) (auto simp: arithmetic_rounding_def arithmetic_unary_def)
  then show ?thesis
  proof cases
    case 1
    then have "arithmetic_round pow10 op a b = integer_outcome op (sql_kind (ar_result p)) (exact_result op (integer_of a) (integer_of b))"
      using round_exact [OF a(3,2) b(2), of op pow10] bound a(1) by (auto simp: arithmetic_rounding_def)
    moreover have "\<not> arithmetic_division op" using 1 by (auto simp: arithmetic_rounding_def arithmetic_division_def)
    ultimately show ?thesis using False 1 bound by (simp add: arithmetic_result_def arithmetic_spec_def null_kind)
  next
    case 2
    then have "\<not> arithmetic_rounding op" "arithmetic_division op" by (auto simp: arithmetic_rounding_def arithmetic_division_def)
    moreover have "integer_of b \<noteq> 0 \<Longrightarrow> arithmetic_integer_division p a b =
        integer_outcome op (sql_kind (ar_result p)) (exact_result op (integer_of a) (integer_of b))"
      using division_exact [OF a(3) b(2) _ _ kind] 2 bound by simp
    ultimately show ?thesis using False bound kind zero_value [OF b(2)] by (auto simp: arithmetic_result_def arithmetic_spec_def null_kind)
  next
    case 3
    then have "\<not> arithmetic_rounding op" "\<not> arithmetic_division op" "\<not> arithmetic_unary op" "sql_kind (ar_result p) = value_kind a" "value_kind b = value_kind a"
      using bound a(1) b(1) by (auto simp: arithmetic_rounding_def arithmetic_division_def)
    then show ?thesis using False bound
      by (cases rule: integral_cases [OF a(3)]; cases rule: integral_cases [OF b(2)];
          simp add: arithmetic_result_def arithmetic_spec_def null_kind integer_of_def i64_exact [OF 3] u64_exact [OF 3])
  qed
qed

text \<open>
  C40. Integer arithmetic is exact or reports the range.  For an operator bound to integer types and operands of these types, once the
  step is paid for, the evaluator returns NULL when an operand is NULL; NULL with the condition for a division by zero; and otherwise the
  mathematical result (sum, difference, product, quotient and remainder truncated toward zero with mixed signedness, negation,
  absolute value, sign, rounding and truncation to powers of ten) in the result type if it is representable there, and
  \<open>TURBODB_STATUS_LIMIT_EXCEEDED\<close> with no result if it is not.  It never wraps around; \<open>DIV\<close> alone reports the
  least signed integer as out of range too.
\<close>

theorem integer_arithmetic_exact:
  assumes "orm_tidesdb_sql_arithmetic_bind op l r True = Inr p"
    and "integral (sql_kind l)" and "pred_option (\<lambda>t. integral (sql_kind t)) r"
    and "valid_value a l" and "rel_option (\<lambda>t b. valid_value b t) r right"
    and "orm_tidesdb_sql_budget_reserve (Some budget) (Some (steps_amount 1)) = (TURBODB_STATUS_OK, budget')"
  shows "orm_tidesdb_sql_arithmetic_eval_condition pow10 (Some p) (Some a) right (Some budget) True True =
    (case arithmetic_spec op (sql_kind (ar_result p)) a right of
       Inl status \<Rightarrow> (status, budget', None) | Inr result \<Rightarrow> (TURBODB_STATUS_OK, budget', Some result))"
proof (cases r)
  case None
  note bound = bound_unary_arithmetic [OF assms(1) [unfolded None] assms(2)]
  have "right = None" "op \<noteq> ORM_SQL_NO_ARITHMETIC" using assms(5) None bound by (auto simp: arithmetic_unary_def)
  then show ?thesis using bound assms(4,6) unary_result_exact [OF assms(1) [unfolded None] assms(2,4)]
    by (simp add: orm_tidesdb_sql_arithmetic_eval_condition_def split: sum.splits)
next
  case (Some t)
  then obtain b where b: "right = Some b" "valid_value b t" using assms(5) by (auto simp: option_rel_Some1)
  have t: "integral (sql_kind t)" using assms(3) Some by simp
  show ?thesis using bound_binary_arithmetic [OF assms(1) [unfolded Some] assms(2) t] assms(4,6) b
      binary_result_exact [OF assms(1) [unfolded Some] assms(2) t assms(4) b(2)]
    by (simp add: orm_tidesdb_sql_arithmetic_eval_condition_def split: sum.splits)
qed

text \<open>\<open>-9223372036854775808 % 18446744073709551615\<close>, the remainder of greatest magnitude.\<close>

theorem integer_arithmetic_exact_witness:
  "\<exists>p budget'. orm_tidesdb_sql_arithmetic_eval_condition (\<lambda>_. 0) (Some p) (Some (turbodb_i64 0x8000000000000000)) (Some (turbodb_u64 (- 1)))
     (Some (example_budget\<lparr>bud_statement_active := True\<rparr>)) True True =
       (TURBODB_STATUS_OK, budget', Some (turbodb_i64 0x8000000000000000, ORM_SQL_NUMERIC_EXACT))"
proof -
  let ?l = "\<lparr>sql_kind = KIND_INT64, sql_nullable = False\<rparr>" and ?r = "\<lparr>sql_kind = KIND_UINT64, sql_nullable = False\<rparr>"
  let ?b = "example_budget\<lparr>bud_statement_active := True\<rparr>" and ?a = "turbodb_i64 0x8000000000000000" and ?c = "turbodb_u64 (- 1)"
  obtain p where p: "orm_tidesdb_sql_arithmetic_bind ORM_SQL_MODULO ?l (Some ?r) True = Inr p" "sql_kind (ar_result p) = KIND_INT64"
    by (simp add: bind_defs valid_type_def numeric_type_def)
  have ops: "integral (sql_kind ?l)" "pred_option (\<lambda>t. integral (sql_kind t)) (Some ?r)" "valid_value ?a ?l" "rel_option (\<lambda>t b. valid_value b t) (Some ?r) (Some ?c)"
    by (simp_all add: integral_def valid_value_def turbodb_value_defs)
  have "fst (orm_tidesdb_sql_budget_reserve (Some ?b) (Some (steps_amount 1))) = TURBODB_STATUS_OK"
    by (simp add: steps_amount_def orm_tidesdb_sql_budget_reserve_def require_active_def charge_all all_resources example_budget_def example_limits_def
        amount_zero_def transaction_zero_def)
  then obtain b' where pay: "orm_tidesdb_sql_budget_reserve (Some ?b) (Some (steps_amount 1)) = (TURBODB_STATUS_OK, b')"
    by (metis prod.collapse)
  have "arithmetic_spec ORM_SQL_MODULO KIND_INT64 ?a (Some ?c) = Inr (turbodb_i64 0x8000000000000000, ORM_SQL_NUMERIC_EXACT)"
    by (simp add: arithmetic_spec_def is_null_def arithmetic_division_def turbodb_value_defs integer_of_def outcome_defs exact_result_def truncated_mod_def
        unsigned_minus_1_eq_mask mask_eq_exp_minus_1)
  with integer_arithmetic_exact [OF p(1) ops pay, of "\<lambda>_. 0"] p(2) show ?thesis by (intro exI) simp
qed

end
