(* ===== verification/Sql_Index_Key.thy ===== *)
theory Sql_Index_Key
  imports Sql_Predicate
begin

text \<open>
  Keys of secondary indexes, \<open>src/tidessql/src/index_key.c\<close> with the fixed-width fields of
  \<open>src/tidessql/src/wire.h\<close>.  A key is a cell of nine bytes for each part of the index: a marker for NULL and
  a big-endian word, complemented for a descending part.

  A definition's parts are a list with a flag for the initialised vector; its budget, which the code reaches through a
  pointer, is threaded through the operations.  The operations return what they publish: the bytes of the key or the
  values of the row, with the flag for NULLs.
\<close>

unbundle bit_operations_syntax

section \<open>Fixed-width fields\<close>

primrec orm_sql_wire_write :: "nat \<Rightarrow> u64 \<Rightarrow> bytes" where
  "orm_sql_wire_write 0 v = []" |
  "orm_sql_wire_write (Suc width) v = ucast v # orm_sql_wire_write width (drop_bit 8 v)"

fun wire_read_from :: "nat \<Rightarrow> u64 \<Rightarrow> bytes \<Rightarrow> u64" where
  "wire_read_from i v [] = v" |
  "wire_read_from i v (x # xs) = wire_read_from (i + 1) (v OR push_bit (i * 8) (ucast x)) xs"

definition orm_sql_wire_read :: "bytes \<Rightarrow> nat \<Rightarrow> u64" where
  "orm_sql_wire_read data width = wire_read_from 0 0 (take width data)"

text \<open>The loop goes from the last byte to the first.\<close>

primrec order_bytes :: "nat \<Rightarrow> u64 \<Rightarrow> bytes" where
  "order_bytes 0 v = []" |
  "order_bytes (Suc i) v = order_bytes i (drop_bit 8 v) @ [ucast v]"

definition orm_sql_wire_order_write :: "u64 \<Rightarrow> bytes" where
  "orm_sql_wire_order_write v = order_bytes 8 v"

definition orm_sql_wire_order_read :: "bytes \<Rightarrow> u64" where
  "orm_sql_wire_order_read data = fold (\<lambda>x v. push_bit 8 v OR ucast x) (take 8 data) 0"

abbreviation (input) sign_word :: u64 where "sign_word \<equiv> 0x8000000000000000"

definition orm_sql_wire_signed_order :: "i64 \<Rightarrow> u64" where
  "orm_sql_wire_signed_order v = v XOR sign_word"

definition orm_sql_wire_order_signed :: "u64 \<Rightarrow> i64" where
  "orm_sql_wire_order_signed v = (if v AND sign_word \<noteq> 0 then v XOR sign_word else sign_word + v)"

definition f64_is_zero :: "f64 \<Rightarrow> bool" where
  "f64_is_zero w \<longleftrightarrow> f64_exponent w = 0 \<and> f64_mantissa w = 0"

definition orm_sql_wire_double_order :: "f64 \<Rightarrow> u64" where
  "orm_sql_wire_double_order v =
     (let bits = (if f64_is_zero v then 0 else v) in if bits AND sign_word \<noteq> 0 then NOT bits else bits XOR sign_word)"

definition orm_sql_wire_order_double :: "u64 \<Rightarrow> f64" where
  "orm_sql_wire_order_double w = (if w AND sign_word \<noteq> 0 then w XOR sign_word else NOT w)"


section \<open>Key codec\<close>

record orm_sql_index_part =
  part_column :: nat
  part_type :: orm_sql_type
  part_descending :: bool

record orm_sql_index_definition =
  def_parts_initialized :: bool
  def_parts :: "orm_sql_index_part list"
  def_part_bytes :: nat
  def_metadata_bytes :: nat
  def_source_offset :: nat
  def_name :: bytes
  def_table :: bytes
  def_name_size :: nat
  def_table_size :: nat
  def_unique :: bool
  def_generated_name :: bool

abbreviation (input) INDEX_KEY_CELL :: nat where "INDEX_KEY_CELL \<equiv> 9"
abbreviation (input) INDEX_KEY_NULL :: u8 where "INDEX_KEY_NULL \<equiv> 0"
abbreviation (input) INDEX_KEY_VALUE :: u8 where "INDEX_KEY_VALUE \<equiv> 1"
abbreviation (input) INDEX_KEY_PASSES :: nat where "INDEX_KEY_PASSES \<equiv> 2"

definition orm_tidesdb_sql_index_key_size ::
    "orm_sql_index_definition option \<Rightarrow> orm_tidesdb_sql_budget option \<Rightarrow> bool \<Rightarrow> turbodb_status + nat" where
  "orm_tidesdb_sql_index_key_size definition budget wants =
     (case definition of None \<Rightarrow> Inl TURBODB_STATUS_INVALID_ARGUMENT
      | Some d \<Rightarrow>
        if budget = None \<or> \<not> def_parts_initialized d \<or> length (def_parts d) = 0 \<or> \<not> wants then Inl TURBODB_STATUS_INVALID_ARGUMENT
        else if length (def_parts d) > SIZE_MAX div INDEX_KEY_CELL then Inl TURBODB_STATUS_LIMIT_EXCEEDED
        else Inr (length (def_parts d) * INDEX_KEY_CELL))"

definition index_key_charge :: "orm_tidesdb_sql_budget option \<Rightarrow> nat \<Rightarrow> turbodb_status \<times> orm_tidesdb_sql_budget option" where
  "index_key_charge budget sz =
     (if sz > SIZE_MAX div INDEX_KEY_PASSES then (TURBODB_STATUS_LIMIT_EXCEEDED, budget)
      else orm_tidesdb_sql_budget_reserve budget (Some (steps_amount (of_nat (sz * INDEX_KEY_PASSES)))))"

definition index_key_type :: "orm_sql_index_part \<Rightarrow> turbodb_status" where
  "index_key_type part =
     (if sql_kind (part_type part) \<noteq> KIND_INT64 \<and> sql_kind (part_type part) \<noteq> KIND_UINT64 \<and> sql_kind (part_type part) \<noteq> KIND_DOUBLE
      then TURBODB_STATUS_INVALID_ARGUMENT else TURBODB_STATUS_OK)"

definition index_key_validate ::
    "(bytes \<Rightarrow> bool) \<Rightarrow> orm_sql_index_part \<Rightarrow> turbodb_value list \<Rightarrow> nat \<Rightarrow> orm_tidesdb_sql_budget option
      \<Rightarrow> turbodb_status \<times> orm_tidesdb_sql_budget option" where
  "index_key_validate utf8_valid part row count budget =
     (if index_key_type part \<noteq> TURBODB_STATUS_OK then (index_key_type part, budget)
      else if part_column part \<ge> count then (TURBODB_STATUS_INVALID_ARGUMENT, budget)
      else case orm_tidesdb_sql_predicate_bind ORM_SQL_IS_NULL (part_type part) None True of
        Inl status \<Rightarrow> (status, budget)
      | Inr predicate \<Rightarrow>
        (case orm_tidesdb_sql_predicate_eval utf8_valid (Some predicate) (Some (row ! part_column part)) None budget True of
           (status, budget, ignored) \<Rightarrow> (status, budget)))"

definition index_key_write :: "orm_sql_index_part \<Rightarrow> turbodb_value \<Rightarrow> bytes" where
  "index_key_write part v =
     (let null = (value_kind v = KIND_NULL);
          word = (if null then 0
                  else if value_kind v = KIND_INT64 then orm_sql_wire_signed_order (int64_value (tv_data v))
                  else if value_kind v = KIND_DOUBLE then orm_sql_wire_double_order (double_value (tv_data v))
                  else uint64_value (tv_data v));
          out = (if null then INDEX_KEY_NULL else INDEX_KEY_VALUE) # orm_sql_wire_order_write word in
      if part_descending part then map (\<lambda>x. NOT x) out else out)"

text \<open>The first pass of the encoder, over the parts that are left.\<close>

fun validate_parts ::
    "(bytes \<Rightarrow> bool) \<Rightarrow> orm_sql_index_part list \<Rightarrow> turbodb_value list \<Rightarrow> nat \<Rightarrow> orm_tidesdb_sql_budget option \<Rightarrow> bool
      \<Rightarrow> turbodb_status \<times> orm_tidesdb_sql_budget option \<times> bool" where
  "validate_parts utf8_valid [] row count budget null = (TURBODB_STATUS_OK, budget, null)" |
  "validate_parts utf8_valid (part # parts) row count budget null =
     (case index_key_validate utf8_valid part row count budget of (status, budget) \<Rightarrow>
        if status \<noteq> TURBODB_STATUS_OK then (status, budget, null)
        else validate_parts utf8_valid parts row count budget (null \<or> value_kind (row ! part_column part) = KIND_NULL))"

definition orm_tidesdb_sql_index_key_encode ::
    "(bytes \<Rightarrow> bool) \<Rightarrow> orm_sql_index_definition option \<Rightarrow> orm_tidesdb_sql_budget option \<Rightarrow> turbodb_value list option \<Rightarrow> nat \<Rightarrow> bool \<Rightarrow> nat \<Rightarrow> bool
      \<Rightarrow> turbodb_status \<times> orm_tidesdb_sql_budget option \<times> (bytes \<times> bool) option" where
  "orm_tidesdb_sql_index_key_encode utf8_valid definition budget row count out capacity wants =
     (case row of None \<Rightarrow> (TURBODB_STATUS_INVALID_ARGUMENT, budget, None)
      | Some row \<Rightarrow>
        if \<not> out \<or> \<not> wants then (TURBODB_STATUS_INVALID_ARGUMENT, budget, None)
        else case orm_tidesdb_sql_index_key_size definition budget True of
          Inl status \<Rightarrow> (status, budget, None)
        | Inr sz \<Rightarrow>
          if capacity < sz then (TURBODB_STATUS_LIMIT_EXCEEDED, budget, None)
          else case index_key_charge budget sz of (status, budget) \<Rightarrow>
            if status \<noteq> TURBODB_STATUS_OK then (status, budget, None)
            else let parts = (case definition of None \<Rightarrow> [] | Some d \<Rightarrow> def_parts d) in
              case validate_parts utf8_valid parts row count budget False of (status, budget, null) \<Rightarrow>
                if status \<noteq> TURBODB_STATUS_OK then (status, budget, None)
                else (status, budget, Some (concat (map (\<lambda>part. index_key_write part (row ! part_column part)) parts), null)))"

definition index_key_read :: "orm_sql_index_part \<Rightarrow> bytes \<Rightarrow> turbodb_value" where
  "index_key_read part data =
     (if hd data = (if part_descending part then NOT INDEX_KEY_NULL else INDEX_KEY_NULL) then turbodb_null
      else
        let word = orm_sql_wire_order_read (drop 1 data);
            word = (if part_descending part then NOT word else word) in
        if sql_kind (part_type part) = KIND_DOUBLE then turbodb_f64 (orm_sql_wire_order_double word)
        else if sql_kind (part_type part) = KIND_INT64 then turbodb_i64 (orm_sql_wire_order_signed word) else turbodb_u64 word)"

definition index_key_check_cell :: "orm_sql_index_part \<Rightarrow> bytes \<Rightarrow> bool \<Rightarrow> turbodb_status \<times> bool" where
  "index_key_check_cell part data contains_null =
     (if index_key_type part \<noteq> TURBODB_STATUS_OK then (index_key_type part, contains_null)
      else
        let marker = (if part_descending part then NOT (hd data) else hd data);
            word = orm_sql_wire_order_read (drop 1 data);
            word = (if part_descending part then NOT word else word) in
        if marker \<noteq> INDEX_KEY_NULL \<and> marker \<noteq> INDEX_KEY_VALUE then (TURBODB_STATUS_DATASTORE_ERROR, contains_null)
        else if marker = INDEX_KEY_NULL then
          if \<not> sql_nullable (part_type part) \<or> word \<noteq> 0 then (TURBODB_STATUS_DATASTORE_ERROR, contains_null) else (TURBODB_STATUS_OK, True)
        else if sql_kind (part_type part) = KIND_DOUBLE then
          let v = orm_sql_wire_order_double word in
          if \<not> f64_isfinite v \<or> (f64_is_zero v \<and> word \<noteq> sign_word) then (TURBODB_STATUS_DATASTORE_ERROR, contains_null)
          else (TURBODB_STATUS_OK, contains_null)
        else (TURBODB_STATUS_OK, contains_null))"

text \<open>The passes of the decoder, over the parts and the bytes that are left.\<close>

fun check_cells :: "orm_sql_index_part list \<Rightarrow> bytes \<Rightarrow> bool \<Rightarrow> turbodb_status \<times> bool" where
  "check_cells [] data null = (TURBODB_STATUS_OK, null)" |
  "check_cells (part # parts) data null =
     (case index_key_check_cell part data null of (status, null) \<Rightarrow>
        if status \<noteq> TURBODB_STATUS_OK then (status, null) else check_cells parts (drop INDEX_KEY_CELL data) null)"

fun read_cells :: "orm_sql_index_part list \<Rightarrow> bytes \<Rightarrow> turbodb_value list" where
  "read_cells [] data = []" |
  "read_cells (part # parts) data = index_key_read part data # read_cells parts (drop INDEX_KEY_CELL data)"

definition orm_tidesdb_sql_index_key_decode ::
    "orm_sql_index_definition option \<Rightarrow> orm_tidesdb_sql_budget option \<Rightarrow> ptr \<Rightarrow> nat \<Rightarrow> bool \<Rightarrow> nat \<Rightarrow> bool
      \<Rightarrow> turbodb_status \<times> orm_tidesdb_sql_budget option \<times> (turbodb_value list \<times> bool) option" where
  "orm_tidesdb_sql_index_key_decode definition budget data sz out capacity wants =
     (case data of None \<Rightarrow> (TURBODB_STATUS_INVALID_ARGUMENT, budget, None)
      | Some data \<Rightarrow>
        if \<not> out \<or> \<not> wants then (TURBODB_STATUS_INVALID_ARGUMENT, budget, None)
        else case orm_tidesdb_sql_index_key_size definition budget True of
          Inl status \<Rightarrow> (status, budget, None)
        | Inr expected \<Rightarrow>
          let parts = (case definition of None \<Rightarrow> [] | Some d \<Rightarrow> def_parts d) in
          if sz \<noteq> expected then (TURBODB_STATUS_DATASTORE_ERROR, budget, None)
          else if capacity < length parts then (TURBODB_STATUS_LIMIT_EXCEEDED, budget, None)
          else case index_key_charge budget sz of (status, budget) \<Rightarrow>
            if status \<noteq> TURBODB_STATUS_OK then (status, budget, None)
            else case check_cells parts (take sz data) False of (status, null) \<Rightarrow>
              if status \<noteq> TURBODB_STATUS_OK then (status, budget, None)
              else (status, budget, Some (read_cells parts (take sz data), null)))"


section \<open>Order of the fields\<close>

lemma length_wire_write [simp]: "length (orm_sql_wire_write n v) = n"
  by (induction n arbitrary: v) simp_all

lemma wire_read_write: "wire_read_from i acc (orm_sql_wire_write n v) = acc OR push_bit (i * 8) (take_bit (8 * n) v)"
proof (induction n arbitrary: i acc v)
  case 0
  then show ?case by simp
next
  case (Suc n)
  have "push_bit (i * 8) (ucast (ucast v :: u8)) OR push_bit ((i + 1) * 8) (take_bit (8 * n) (drop_bit 8 v)) = push_bit (i * 8) (take_bit (8 * Suc n) v)"
  proof (rule bit_word_eqI)
    fix k :: nat
    assume "k < LENGTH(64)"
    show "bit (push_bit (i * 8) (ucast (ucast v :: u8)) OR push_bit ((i + 1) * 8) (take_bit (8 * n) (drop_bit 8 v)) :: u64) k =
        bit (push_bit (i * 8) (take_bit (8 * Suc n) v)) k"
      by (cases "k < i * 8"; cases "k < (i + 1) * 8") (auto simp: bit_or_iff bit_push_bit_iff bit_take_bit_iff bit_drop_bit_eq bit_ucast_iff)
  qed
  then show ?case using Suc.IH [of "i + 1" "acc OR push_bit (i * 8) (ucast (ucast v :: u8))" "drop_bit 8 v"] by (simp add: or.assoc)
qed

text \<open>The little-endian fields of records read back.\<close>

lemma wire_roundtrip: "orm_sql_wire_read (orm_sql_wire_write width v @ rest) width = take_bit (8 * width) v"
  by (simp add: orm_sql_wire_read_def wire_read_write)

definition order_of :: "'a :: linorder \<Rightarrow> 'a \<Rightarrow> int" where
  "order_of a b = (if a < b then - 1 else if b < a then 1 else 0)"

lemma order_of_antisym: "order_of b a = - order_of a b"
  by (auto simp: order_of_def)

lemma memcmp_append: "length x = length y \<Longrightarrow> memcmp (x @ xs) (y @ ys) = (if memcmp x y \<noteq> 0 then memcmp x y else memcmp xs ys)"
  by (induction x y rule: list_induct2) auto

lemma not_word_less: "NOT x < NOT y \<longleftrightarrow> y < (x :: 'a :: len word)"
proof -
  have "unat (NOT z) + unat z = unat (- 1 :: 'a word)" for z :: "'a word"
  proof -
    have "z \<le> - 1" by (rule word_order.extremum)
    then have "unat (- 1 - z) = unat (- 1 :: 'a word) - unat z" "unat z \<le> unat (- 1 :: 'a word)" by (simp_all add: unat_sub word_le_nat_alt)
    moreover have "NOT z = - 1 - z" by (simp add: not_eq_complement)
    ultimately show ?thesis by simp
  qed
  from this [of x] this [of y] show ?thesis unfolding word_less_nat_alt by linarith
qed

lemma memcmp_complement: "length x = length y \<Longrightarrow> memcmp (map (\<lambda>b. NOT b) x) (map (\<lambda>b. NOT b) y) = - memcmp x y"
  by (induction x y rule: list_induct2) (auto simp: not_word_less)

lemma length_order_bytes [simp]: "length (order_bytes n v) = n"
  by (induction n arbitrary: v) simp_all

lemma memcmp_order_bytes:
  "memcmp (order_bytes n v) (order_bytes n w) = order_of (unat v mod 256 ^ n) (unat w mod 256 ^ n)"
proof (induction n arbitrary: v w)
  case 0
  then show ?case by (simp add: order_of_def)
next
  case (Suc n)
  have split: "unat x mod 256 ^ Suc n = 256 * (unat (drop_bit 8 x) mod 256 ^ n) + unat (ucast x :: u8)" for x :: u64
  proof -
    have "unat (drop_bit 8 x) = unat x div 256"
      unfolding unsigned_drop_bit_eq by (simp only: drop_bit_eq_div take_bit_eq_mod mod_less unsigned_less) simp
    moreover have "unat (ucast x :: u8) = unat x mod 256" by (simp add: unsigned_ucast_eq take_bit_eq_mod)
    ultimately show ?thesis by (simp only: power_Suc mod_mult2_eq)
  qed
  have byte: "unat (ucast x :: u8) < 256" for x :: u64 using unsigned_less [of "ucast x :: u8", where 'a = nat] by simp
  have "memcmp (order_bytes (Suc n) v) (order_bytes (Suc n) w) =
      (if memcmp (order_bytes n (drop_bit 8 v)) (order_bytes n (drop_bit 8 w)) \<noteq> 0
       then memcmp (order_bytes n (drop_bit 8 v)) (order_bytes n (drop_bit 8 w))
       else order_of (unat (ucast v :: u8)) (unat (ucast w :: u8)))"
    by (simp add: memcmp_append order_of_def word_less_nat_alt)
  then show ?case using byte [of v] byte [of w] unfolding Suc.IH split by (auto simp: order_of_def split: if_splits)
qed

lemma order_write_order: "memcmp (orm_sql_wire_order_write v) (orm_sql_wire_order_write w) = order_of v w"
proof -
  have "unat x mod 256 ^ 8 = unat x" for x :: u64 using unsigned_less [of x, where 'a = nat] by simp
  then show ?thesis unfolding orm_sql_wire_order_write_def memcmp_order_bytes by (simp add: order_of_def word_less_nat_alt)
qed

lemma order_read_fold:
  "length (order_bytes n v) = n \<and> fold (\<lambda>x w. push_bit 8 w OR ucast x) (order_bytes n v) (0 :: u64) = take_bit (8 * n) v"
proof (induction n arbitrary: v)
  case 0
  then show ?case by simp
next
  case (Suc n)
  have "push_bit 8 (take_bit (8 * n) (drop_bit 8 v)) OR ucast (ucast v :: u8) = take_bit (8 * Suc n) v"
    by (rule bit_word_eqI) (auto simp: bit_or_iff bit_push_bit_iff bit_take_bit_iff bit_drop_bit_eq bit_ucast_iff)
  then show ?case using Suc by simp
qed

lemma order_roundtrip [simp]: "orm_sql_wire_order_read (orm_sql_wire_order_write v) = v"
  using order_read_fold [of 8 v] by (simp add: orm_sql_wire_order_read_def orm_sql_wire_order_write_def take_bit_word_eq_self)

lemma xor_sign: "v XOR sign_word = v + sign_word"
proof -
  have "v XOR sign_word = flip_bit 63 v" by (simp add: flip_bit_eq_xor)
  also have "\<dots> = v + 2 ^ 63" by (cases "bit v 63") (simp_all add: flip_bit_eq_if unset_bit_eq set_bit_eq)
  finally show ?thesis by simp
qed

lemma and_sign: "v AND sign_word \<noteq> 0 \<longleftrightarrow> bit (v :: u64) 63"
  using and_exp_eq_0_iff_not_bit [of v 63] by simp

lemma bit_sign: "bit (v :: u64) 63 \<longleftrightarrow> 2 ^ 63 \<le> unat v"
proof -
  have "unat v < 2 ^ 64" using unsigned_less [of v, where 'a = nat] by simp
  then have "unat v div 2 ^ 63 = (if 2 ^ 63 \<le> unat v then 1 else 0)" by (auto intro: div_nat_eqI)
  moreover have "bit v 63 \<longleftrightarrow> bit (unat v) 63" by (simp add: bit_unsigned_iff)
  ultimately show ?thesis by (simp add: bit_iff_odd)
qed

lemma signed_order_value: "uint (orm_sql_wire_signed_order v) = sint v + 2 ^ 63"
proof -
  have "orm_sql_wire_signed_order v = word_of_int (sint v + 2 ^ 63)" by (simp add: orm_sql_wire_signed_order_def xor_sign)
  then have "uint (orm_sql_wire_signed_order v) = take_bit 64 (sint v + 2 ^ 63)" by (simp only: uint_word_of_int_eq) simp
  also have "\<dots> = sint v + 2 ^ 63" using sint_greater_eq [of v] sint_less [of v] by (simp add: take_bit_int_eq_self)
  finally show ?thesis .
qed

lemma order_signed_add: "orm_sql_wire_order_signed v = v + sign_word"
  by (simp add: orm_sql_wire_order_signed_def xor_sign add.commute)

lemma signed_roundtrip: "orm_sql_wire_order_signed (orm_sql_wire_signed_order v) = v" "orm_sql_wire_signed_order (orm_sql_wire_order_signed w) = w"
  by (simp_all add: order_signed_add orm_sql_wire_signed_order_def xor_sign add.assoc)

lemma signed_order: "order_of (orm_sql_wire_signed_order v) (orm_sql_wire_signed_order w) = order_of (sint v) (sint w)"
  by (simp add: order_of_def word_less_def signed_order_value)

text \<open>The number a double denotes grows with the 63 bits under the sign.\<close>

definition f64_magnitude :: "f64 \<Rightarrow> nat" where
  "f64_magnitude w = unat w mod 2 ^ 63"

definition scaled_magnitude :: "f64 \<Rightarrow> nat" where
  "scaled_magnitude w =
     (if f64_exponent w = 0 then f64_mantissa w else (2 ^ 52 + f64_mantissa w) * 2 ^ (f64_exponent w - 1))"

lemma f64_scaled_sign: "f64_scaled w = (if bit w 63 then - int (scaled_magnitude w) else int (scaled_magnitude w))"
  by (simp add: f64_scaled_def scaled_magnitude_def Let_def)

lemma f64_magnitude_fields: "f64_magnitude w = 2 ^ 52 * f64_exponent w + f64_mantissa w"
proof -
  have "unat w mod (2 ^ 52 * 2 ^ 11) = 2 ^ 52 * (unat w div 2 ^ 52 mod 2 ^ 11) + unat w mod 2 ^ 52" by (rule mod_mult2_eq)
  then show ?thesis by (simp add: f64_magnitude_def f64_exponent_nat f64_mantissa_nat)
qed

lemma scaled_magnitude_less:
  assumes "f64_magnitude a < f64_magnitude b"
  shows "scaled_magnitude a < scaled_magnitude b"
proof -
  have m: "f64_mantissa w < 2 ^ 52" for w by (simp add: f64_mantissa_nat)
  consider "f64_exponent a = f64_exponent b" "f64_mantissa a < f64_mantissa b" | "f64_exponent a < f64_exponent b"
    using assms m [of a] m [of b] unfolding f64_magnitude_fields by (cases "f64_exponent a" "f64_exponent b" rule: linorder_cases) auto
  then show ?thesis
  proof cases
    case 1
    then show ?thesis by (simp add: scaled_magnitude_def)
  next
    case 2
    then have b: "scaled_magnitude b \<ge> 2 ^ 52 * 2 ^ (f64_exponent b - 1)" by (simp add: scaled_magnitude_def)
    have "(2 :: nat) ^ f64_exponent a \<le> 2 ^ (f64_exponent b - 1)" using 2 by (intro power_increasing) auto
    then have "(2 :: nat) ^ 52 * 2 ^ f64_exponent a \<le> 2 ^ 52 * 2 ^ (f64_exponent b - 1)" by simp
    moreover have "scaled_magnitude a < 2 ^ 52 * 2 ^ f64_exponent a"
    proof (cases "f64_exponent a")
      case 0
      then show ?thesis using m [of a] by (simp add: scaled_magnitude_def)
    next
      case (Suc e)
      have "(2 ^ 52 + f64_mantissa a) * 2 ^ e < (2 ^ 52 + 2 ^ 52) * 2 ^ e" using m [of a] by (intro mult_strict_right_mono) simp_all
      then show ?thesis using Suc by (simp add: scaled_magnitude_def)
    qed
    ultimately show ?thesis using b by linarith
  qed
qed

lemma f64_is_zero_magnitude: "f64_is_zero w \<longleftrightarrow> f64_magnitude w = 0"
  by (simp add: f64_is_zero_def f64_magnitude_fields)

lemma scaled_magnitude_zero: "scaled_magnitude w = 0 \<longleftrightarrow> f64_is_zero w"
  by (auto simp: scaled_magnitude_def f64_is_zero_def)

lemma f64_unat: "unat w = (if bit w 63 then 2 ^ 63 else 0) + f64_magnitude w"
proof -
  have "unat w < 2 ^ 64" using unsigned_less [of w, where 'a = nat] by simp
  then have "unat w div 2 ^ 63 = (if bit w 63 then 1 else 0)" unfolding bit_sign by (auto intro: div_nat_eqI)
  then show ?thesis using div_mult_mod_eq [of "unat w" "2 ^ 63"] by (auto simp: f64_magnitude_def)
qed

lemma unat_not: "unat (NOT z) + unat z = 2 ^ 64 - 1" for z :: u64
proof -
  have "z \<le> - 1" by (rule word_order.extremum)
  then have "unat (- 1 - z) = unat (- 1 :: u64) - unat z" "unat z \<le> unat (- 1 :: u64)" by (simp_all add: unat_sub word_le_nat_alt)
  moreover have "NOT z = - 1 - z" by (simp add: not_eq_complement)
  ultimately show ?thesis by (simp add: unsigned_minus_1_eq_mask mask_eq_exp_minus_1)
qed

lemma unat_xor_sign: "\<not> bit z 63 \<Longrightarrow> unat (z XOR sign_word) = 2 ^ 63 + unat z"
proof -
  assume "\<not> bit z 63"
  then have "unat z + unat sign_word < 2 ^ 64" by (simp add: bit_sign)
  then show ?thesis unfolding xor_sign by (subst unat_add_lem [THEN iffD1]) simp_all
qed

lemma double_order_value:
  "unat (orm_sql_wire_double_order v) =
     (if bit v 63 \<and> \<not> f64_is_zero v then 2 ^ 63 - 1 - f64_magnitude v else 2 ^ 63 + f64_magnitude v)"
proof (cases "f64_is_zero v")
  case True
  then show ?thesis by (simp add: orm_sql_wire_double_order_def f64_is_zero_magnitude)
next
  case False
  then show ?thesis using unat_not [of v] unat_xor_sign [of v] f64_unat [of v]
    by (auto simp: orm_sql_wire_double_order_def and_sign)
qed

lemma scaled_magnitude_less_iff: "scaled_magnitude a < scaled_magnitude b \<longleftrightarrow> f64_magnitude a < f64_magnitude b"
proof (cases "f64_magnitude a" "f64_magnitude b" rule: linorder_cases)
  case equal
  have "f64_exponent w = f64_magnitude w div 2 ^ 52" "f64_mantissa w = f64_magnitude w mod 2 ^ 52" for w
    unfolding f64_magnitude_fields by (simp_all add: f64_mantissa_nat)
  then show ?thesis using equal by (simp add: scaled_magnitude_def)
next
  case less
  then show ?thesis using scaled_magnitude_less by simp
next
  case greater
  then show ?thesis using scaled_magnitude_less [OF greater] by simp
qed

lemma double_order_less: "orm_sql_wire_double_order a < orm_sql_wire_double_order b \<longleftrightarrow> f64_scaled a < f64_scaled b"
proof -
  have mag: "f64_magnitude a < 2 ^ 63" "f64_magnitude b < 2 ^ 63" by (simp_all add: f64_magnitude_def)
  note facts = mag scaled_magnitude_less_iff [of a b] scaled_magnitude_less_iff [of b a]
    scaled_magnitude_zero [of a, unfolded f64_is_zero_magnitude] scaled_magnitude_zero [of b, unfolded f64_is_zero_magnitude]
  show ?thesis
    unfolding word_less_nat_alt double_order_value f64_scaled_sign f64_is_zero_magnitude
    using facts by (cases "bit a 63"; cases "bit b 63"; cases "f64_magnitude a = 0"; cases "f64_magnitude b = 0") auto
qed

lemma double_order: "order_of (orm_sql_wire_double_order v) (orm_sql_wire_double_order w) = order_of (f64_scaled v) (f64_scaled w)"
  by (simp add: order_of_def double_order_less)

text \<open>The canonical form of a double: the zero is positive.\<close>

definition canonical_double :: "f64 \<Rightarrow> f64" where
  "canonical_double v = (if f64_is_zero v then 0 else v)"

lemma bit_xor_sign: "bit (v XOR sign_word) 63 \<longleftrightarrow> \<not> bit (v :: u64) 63"
proof -
  have "v XOR sign_word = flip_bit 63 v" by (simp add: flip_bit_eq_xor)
  then show ?thesis by (simp add: bit_flip_bit_iff)
qed

lemma double_roundtrip: "orm_sql_wire_order_double (orm_sql_wire_double_order v) = canonical_double v"
  by (cases "bit (canonical_double v) 63")
    (simp_all add: orm_sql_wire_order_double_def orm_sql_wire_double_order_def and_sign canonical_double_def bit_xor_sign bit_not_iff Let_def xor.assoc split: if_splits)

lemma double_order_canonical [simp]: "orm_sql_wire_double_order (canonical_double v) = orm_sql_wire_double_order v"
  by (simp add: orm_sql_wire_double_order_def canonical_double_def f64_is_zero_def f64_exponent_def f64_mantissa_def)

lemma double_unread:
  assumes "f64_is_zero (orm_sql_wire_order_double w) \<Longrightarrow> w = sign_word"
  shows "orm_sql_wire_double_order (orm_sql_wire_order_double w) = w"
proof (cases "f64_is_zero (orm_sql_wire_order_double w)")
  case True
  then show ?thesis using assms by (simp add: orm_sql_wire_double_order_def)
next
  case False
  then show ?thesis
    by (cases "bit w 63") (simp_all add: orm_sql_wire_order_double_def orm_sql_wire_double_order_def and_sign bit_xor_sign bit_not_iff xor.assoc)
qed

lemma order_bytes_complement:
  "(\<And>i. i < 8 * n \<Longrightarrow> bit w i \<longleftrightarrow> \<not> bit v i) \<Longrightarrow> n \<le> 8 \<Longrightarrow> map (\<lambda>x. NOT x) (order_bytes n v) = order_bytes n w"
proof (induction n arbitrary: v w)
  case 0
  then show ?case by simp
next
  case (Suc n)
  have "NOT (ucast v :: u8) = ucast w" using Suc.prems by (intro bit_word_eqI) (auto simp: bit_not_iff bit_ucast_iff)
  then show ?case using Suc.prems by (auto simp: bit_drop_bit_eq intro!: Suc.IH)
qed

lemma order_write_complement: "map (\<lambda>x. NOT x) (orm_sql_wire_order_write v) = orm_sql_wire_order_write (NOT v)"
  unfolding orm_sql_wire_order_write_def by (rule order_bytes_complement) (simp_all add: bit_not_iff)

lemma length_order_write [simp]: "length (orm_sql_wire_order_write v) = 8"
  by (simp add: orm_sql_wire_order_write_def)

lemma order_read_append [simp]: "length xs = 8 \<Longrightarrow> orm_sql_wire_order_read (xs @ ys) = orm_sql_wire_order_read xs"
  by (simp add: orm_sql_wire_order_read_def)

lemma order_fold_unread:
  "length xs \<le> 8 \<Longrightarrow> order_bytes (length xs) (fold (\<lambda>x w. push_bit 8 w OR ucast x) xs (0 :: u64)) = xs \<and>
   (\<forall>i. bit (fold (\<lambda>x w. push_bit 8 w OR ucast x) xs (0 :: u64)) i \<longrightarrow> i < 8 * length xs)"
proof (induction xs rule: rev_induct)
  case Nil
  then show ?case by simp
next
  case (snoc x xs)
  let ?w = "fold (\<lambda>x w. push_bit 8 w OR ucast x) xs (0 :: u64)"
  have IH: "order_bytes (length xs) ?w = xs" "\<And>i. bit ?w i \<Longrightarrow> i < 8 * length xs" using snoc by auto
  have high: "\<not> bit (ucast x :: u64) (8 + n)" for n using bit_imp_le_length [of x "8 + n"] by (auto simp: bit_ucast_iff)
  have "drop_bit 8 (push_bit 8 ?w OR ucast x) = ?w"
  proof (rule bit_word_eqI)
    fix n :: nat
    have "bit ?w n \<Longrightarrow> 8 + n < 64" using IH(2) [of n] snoc.prems by simp
    then show "bit (drop_bit 8 (push_bit 8 ?w OR ucast x)) n = bit ?w n"
      using high by (auto simp: bit_drop_bit_eq bit_or_iff bit_push_bit_iff)
  qed
  moreover have "ucast (push_bit 8 ?w OR ucast x) = x"
    by (intro bit_word_eqI) (auto simp: bit_or_iff bit_push_bit_iff bit_ucast_iff)
  moreover have "i < 8 * length (xs @ [x])" if "bit (push_bit 8 ?w OR ucast x) i" for i
  proof (cases "i < 8")
    case False
    then show ?thesis using that IH(2) [of "i - 8"] high [of "i - 8"] by (auto simp: bit_or_iff bit_push_bit_iff)
  qed simp
  ultimately show ?case using IH by simp
qed

lemma order_unread: "length xs = 8 \<Longrightarrow> orm_sql_wire_order_write (orm_sql_wire_order_read xs) = xs"
  using order_fold_unread [of xs] by (simp add: orm_sql_wire_order_write_def orm_sql_wire_order_read_def)


section \<open>The contract of a field\<close>

text \<open>
  What the key codec relies on in a field: its words sort as the values do, reading gives the value back in canonical form, and an accepted
  word is the one written for the value it reads as.
\<close>

locale ordered_field =
  fixes encode :: "'v \<Rightarrow> u64" and decode :: "u64 \<Rightarrow> 'v" and compare :: "'v \<Rightarrow> 'v \<Rightarrow> int" and canonical :: "'v \<Rightarrow> 'v"
    and accepted :: "u64 \<Rightarrow> bool"
  assumes ordered: "order_of (encode a) (encode b) = compare a b"
    and reads_back: "decode (encode v) = canonical v"
    and one_form: "accepted w \<Longrightarrow> encode (decode w) = w"
begin

lemma field_ordered: "memcmp (orm_sql_wire_order_write (encode a)) (orm_sql_wire_order_write (encode b)) = compare a b"
  by (simp add: order_write_order ordered)

end

interpretation i64_field: ordered_field orm_sql_wire_signed_order orm_sql_wire_order_signed "\<lambda>a b. order_of (sint a) (sint b)" id "\<lambda>_. True"
  by unfold_locales (simp_all add: signed_order signed_roundtrip)

interpretation u64_field: ordered_field "\<lambda>u. u" "\<lambda>w. w" order_of id "\<lambda>_. True"
  by unfold_locales simp_all

interpretation f64_field: ordered_field orm_sql_wire_double_order orm_sql_wire_order_double "\<lambda>a b. order_of (f64_scaled a) (f64_scaled b)"
    canonical_double "\<lambda>w. f64_is_zero (orm_sql_wire_order_double w) \<longrightarrow> w = sign_word"
  by unfold_locales (simp_all add: double_order double_roundtrip double_unread)


section \<open>Cells\<close>

lemma length_write [simp]: "length (index_key_write part v) = 9"
  by (simp add: index_key_write_def Let_def)

lemma key_type_kinds:
  "index_key_type part = TURBODB_STATUS_OK \<longleftrightarrow> sql_kind (part_type part) \<in> {KIND_INT64, KIND_UINT64, KIND_DOUBLE}"
  by (auto simp: index_key_type_def)

text \<open>The values of a part's type, and the form in which they are read back.\<close>

definition canonical_value :: "turbodb_value \<Rightarrow> turbodb_value" where
  "canonical_value v = (case tv_data v of TURBODB_VALUE_DOUBLE d \<Rightarrow> turbodb_f64 (canonical_double d) | _ \<Rightarrow> v)"

lemma key_value_cases:
  assumes "index_key_type part = TURBODB_STATUS_OK" and "valid_value v (part_type part)"
  obtains "v = turbodb_null" "sql_nullable (part_type part)"
  | i where "v = turbodb_i64 i" "sql_kind (part_type part) = KIND_INT64"
  | u where "v = turbodb_u64 u" "sql_kind (part_type part) = KIND_UINT64"
  | d where "v = turbodb_f64 d" "sql_kind (part_type part) = KIND_DOUBLE" "f64_isfinite d"
  using assms by (cases v; cases "tv_data v")
    (auto simp: key_type_kinds valid_value_def turbodb_value_defs split: if_splits)

definition key_word :: "turbodb_value \<Rightarrow> u64" where
  "key_word v =
     (case tv_data v of TURBODB_VALUE_INT64 i \<Rightarrow> orm_sql_wire_signed_order i | TURBODB_VALUE_UINT64 u \<Rightarrow> u
      | TURBODB_VALUE_DOUBLE d \<Rightarrow> orm_sql_wire_double_order d | _ \<Rightarrow> 0)"

text \<open>Nine bytes are a marker and a word, complemented for a descending part.\<close>

definition key_cell :: "orm_sql_index_part \<Rightarrow> u8 \<Rightarrow> u64 \<Rightarrow> bytes" where
  "key_cell part marker word =
     (if part_descending part then map (\<lambda>x. NOT x) (marker # orm_sql_wire_order_write word) else marker # orm_sql_wire_order_write word)"

lemma length_key_cell [simp]: "length (key_cell part marker word) = 9"
  by (simp add: key_cell_def)

lemma key_cell_order:
  "memcmp (key_cell part m v) (key_cell part n w) =
     (let order = memcmp (m # orm_sql_wire_order_write v) (n # orm_sql_wire_order_write w) in if part_descending part then - order else order)"
  using memcmp_complement [of "m # orm_sql_wire_order_write v" "n # orm_sql_wire_order_write w"] by (auto simp: key_cell_def Let_def simp del: list.map memcmp.simps)

lemma key_cell_exists:
  assumes "9 \<le> length data"
  obtains marker word where "data = key_cell part marker word @ drop 9 data"
proof -
  obtain x ys where ys: "data = x # ys" "8 \<le> length ys" using assms by (cases data) auto
  then have xs: "length (take 8 ys) = 8" "data = (x # take 8 ys) @ drop 9 data" by simp_all
  show thesis
  proof (cases "part_descending part")
    case True
    then have "key_cell part (NOT x) (NOT (orm_sql_wire_order_read (take 8 ys))) = x # take 8 ys"
      using order_unread [OF xs(1)] by (simp add: key_cell_def order_write_complement)
    then show thesis using xs(2) that by metis
  next
    case False
    then have "key_cell part x (orm_sql_wire_order_read (take 8 ys)) = x # take 8 ys"
      using order_unread [OF xs(1)] by (simp add: key_cell_def)
    then show thesis using xs(2) that by metis
  qed
qed

lemma not_eq_not: "NOT x = NOT y \<longleftrightarrow> x = (y :: 'a :: len word)"
  by (metis bit.double_compl)

lemma read_cell:
  "index_key_read part (key_cell part marker word @ rest) =
     (if marker = 0 then turbodb_null
      else if sql_kind (part_type part) = KIND_DOUBLE then turbodb_f64 (orm_sql_wire_order_double word)
      else if sql_kind (part_type part) = KIND_INT64 then turbodb_i64 (orm_sql_wire_order_signed word) else turbodb_u64 word)"
  using not_eq_not [of marker 0] by (simp add: index_key_read_def key_cell_def order_write_complement Let_def)

lemma check_cell:
  assumes "index_key_type part = TURBODB_STATUS_OK"
  shows "index_key_check_cell part (key_cell part marker word @ rest) null =
     (if marker \<noteq> 0 \<and> marker \<noteq> 1 then (TURBODB_STATUS_DATASTORE_ERROR, null)
      else if marker = 0 then (if \<not> sql_nullable (part_type part) \<or> word \<noteq> 0 then (TURBODB_STATUS_DATASTORE_ERROR, null) else (TURBODB_STATUS_OK, True))
      else if sql_kind (part_type part) = KIND_DOUBLE \<and>
         (\<not> f64_isfinite (orm_sql_wire_order_double word) \<or> (f64_is_zero (orm_sql_wire_order_double word) \<and> word \<noteq> sign_word))
      then (TURBODB_STATUS_DATASTORE_ERROR, null) else (TURBODB_STATUS_OK, null))"
  using assms by (simp add: index_key_check_cell_def key_cell_def order_write_complement Let_def) blast

lemma key_write_cell:
  assumes "index_key_type part = TURBODB_STATUS_OK" and "valid_value v (part_type part)"
  shows "index_key_write part v = key_cell part (if is_null v then 0 else 1) (key_word v)"
  by (rule key_value_cases [OF assms]) (simp_all add: index_key_write_def key_cell_def key_word_def turbodb_value_defs is_null_def)

lemma cell_order:
  assumes "index_key_type part = TURBODB_STATUS_OK" and "valid_value a (part_type part)" and "valid_value b (part_type part)"
  shows "memcmp (index_key_write part a) (index_key_write part b) =
    (if part_descending part then - orm_sql_value_order a b else orm_sql_value_order a b)"
proof -
  let ?cell = "\<lambda>v. (if is_null v then 0 else 1) # orm_sql_wire_order_write (key_word v)"
  have "memcmp (?cell a) (?cell b) = orm_sql_value_order a b"
    by (rule key_value_cases [OF assms(1,2)]; rule key_value_cases [OF assms(1,3)])
      (simp_all add: key_word_def turbodb_value_defs is_null_def orm_sql_value_order_def,
        simp_all add: i64_field.field_ordered f64_field.field_ordered, auto simp: u64_field.field_ordered order_of_def f64_less_def f64_finite_not_nan)
  then show ?thesis by (simp only: key_write_cell [OF assms(1,2)] key_write_cell [OF assms(1,3)] key_cell_order Let_def)
qed

lemma cell_reads_back:
  assumes "index_key_type part = TURBODB_STATUS_OK" and "valid_value v (part_type part)"
  shows "index_key_read part (index_key_write part v @ rest) = canonical_value v"
    and "index_key_check_cell part (index_key_write part v @ rest) null = (TURBODB_STATUS_OK, null \<or> value_kind v = KIND_NULL)"
proof -
  note defs = key_word_def turbodb_value_defs is_null_def
  have zero: "f64_is_zero (canonical_double d) \<Longrightarrow> orm_sql_wire_double_order d = sign_word" for d
    by (auto simp: canonical_double_def orm_sql_wire_double_order_def split: if_splits)
  have finite: "f64_isfinite d \<Longrightarrow> f64_isfinite (canonical_double d)" for d
    by (simp add: canonical_double_def f64_isfinite_def f64_exponent_def)
  show "index_key_read part (index_key_write part v @ rest) = canonical_value v"
    unfolding key_write_cell [OF assms] read_cell
    by (rule key_value_cases [OF assms]) (simp_all add: defs canonical_value_def i64_field.reads_back f64_field.reads_back)
  show "index_key_check_cell part (index_key_write part v @ rest) null = (TURBODB_STATUS_OK, null \<or> value_kind v = KIND_NULL)"
    unfolding key_write_cell [OF assms] check_cell [OF assms(1)]
    by (rule key_value_cases [OF assms]) (simp_all add: defs f64_field.reads_back finite, auto dest: zero)
qed

text \<open>A cell that passes the check is the one written for the value it reads as.\<close>

lemma cell_canonical:
  assumes "index_key_check_cell part data null = (TURBODB_STATUS_OK, null')" and "9 \<le> length data"
  shows "index_key_write part (index_key_read part data) = take 9 data"
proof -
  have type: "index_key_type part = TURBODB_STATUS_OK" using assms(1) by (auto simp: index_key_check_cell_def split: if_splits)
  obtain marker word where cell: "data = key_cell part marker word @ drop 9 data" by (rule key_cell_exists [OF assms(2)])
  have data: "take 9 data = key_cell part marker word" by (subst cell) simp
  note ok = assms(1) [unfolded cell [THEN arg_cong, of "\<lambda>d. index_key_check_cell part d null"] check_cell [OF type]]
  have "index_key_write part (index_key_read part (key_cell part marker word @ drop 9 data)) = key_cell part marker word"
    unfolding read_cell using ok type f64_field.one_form [of word]
    by (auto simp: key_type_kinds index_key_write_def key_cell_def turbodb_value_defs i64_field.one_form split: if_splits)
  then show ?thesis using cell data by simp
qed


section \<open>Keys\<close>

text \<open>What a granted encoding has checked, and what it writes.\<close>

definition row_fits :: "orm_sql_index_part list \<Rightarrow> turbodb_value list \<Rightarrow> nat \<Rightarrow> bool" where
  "row_fits parts row count \<longleftrightarrow>
     (\<forall>part\<in>set parts. index_key_type part = TURBODB_STATUS_OK \<and> part_column part < count \<and> valid_value (row ! part_column part) (part_type part))"

definition key_bytes :: "orm_sql_index_part list \<Rightarrow> turbodb_value list \<Rightarrow> bytes" where
  "key_bytes parts row = concat (map (\<lambda>part. index_key_write part (row ! part_column part)) parts)"

definition key_has_null :: "orm_sql_index_part list \<Rightarrow> turbodb_value list \<Rightarrow> bool" where
  "key_has_null parts row \<longleftrightarrow> (\<exists>part\<in>set parts. value_kind (row ! part_column part) = KIND_NULL)"

lemma validate_ok:
  assumes "index_key_validate utf8_valid part row count budget = (TURBODB_STATUS_OK, budget')"
  shows "index_key_type part = TURBODB_STATUS_OK \<and> part_column part < count \<and> valid_value (row ! part_column part) (part_type part)"
proof -
  have type: "index_key_type part = TURBODB_STATUS_OK" "part_column part < count"
    using assms by (auto simp: index_key_validate_def split: if_splits)
  obtain p ignored where p: "orm_tidesdb_sql_predicate_bind ORM_SQL_IS_NULL (part_type part) None True = Inr p"
      "orm_tidesdb_sql_predicate_eval utf8_valid (Some p) (Some (row ! part_column part)) None budget True = (TURBODB_STATUS_OK, budget', ignored)"
    using assms type by (auto simp: index_key_validate_def orm_tidesdb_sql_predicate_bind_def Let_def split: sum.splits prod.splits if_splits)
  then have "valid_value (row ! part_column part) (pred_left p)"
    by (auto simp: orm_tidesdb_sql_predicate_eval_def split: option.splits if_splits)
  then show ?thesis using type bound_operator [OF p(1)] by simp
qed

lemma validate_parts_ok:
  "validate_parts utf8_valid parts row count budget null = (TURBODB_STATUS_OK, budget', null') \<Longrightarrow>
   row_fits parts row count \<and> null' = (null \<or> key_has_null parts row)"
proof (induction parts arbitrary: budget null)
  case Nil
  then show ?case by (simp add: row_fits_def key_has_null_def)
next
  case (Cons part parts)
  obtain status b1 where v: "index_key_validate utf8_valid part row count budget = (status, b1)" by fastforce
  then have ok: "status = TURBODB_STATUS_OK" using Cons.prems by (auto split: if_splits)
  show ?case using Cons.IH [of b1 "null \<or> value_kind (row ! part_column part) = KIND_NULL"] Cons.prems v ok validate_ok [OF v [unfolded ok]]
    by (auto simp: row_fits_def key_has_null_def)
qed

lemma encode_ok:
  assumes "orm_tidesdb_sql_index_key_encode utf8_valid (Some d) budget (Some row) count out capacity wants = (TURBODB_STATUS_OK, budget', Some (key, null))"
  shows "row_fits (def_parts d) row count" and "key = key_bytes (def_parts d) row" and "null = key_has_null (def_parts d) row"
    and "orm_tidesdb_sql_index_key_size (Some d) budget True = Inr (length (def_parts d) * 9)"
proof -
  show size: "orm_tidesdb_sql_index_key_size (Some d) budget True = Inr (length (def_parts d) * 9)"
    using assms by (auto simp: orm_tidesdb_sql_index_key_encode_def orm_tidesdb_sql_index_key_size_def split: if_splits)
  obtain b1 b2 where "validate_parts utf8_valid (def_parts d) row count b1 False = (TURBODB_STATUS_OK, b2, null)" "key = key_bytes (def_parts d) row"
    using assms size by (auto simp: orm_tidesdb_sql_index_key_encode_def key_bytes_def Let_def split: if_splits prod.splits)
  then show "row_fits (def_parts d) row count" "key = key_bytes (def_parts d) row" "null = key_has_null (def_parts d) row"
    using validate_parts_ok by blast+
qed

text \<open>The order of rows under an index: by the parts, each in its direction, NULL first.\<close>

fun index_order :: "orm_sql_index_part list \<Rightarrow> turbodb_value list \<Rightarrow> turbodb_value list \<Rightarrow> int" where
  "index_order [] a b = 0" |
  "index_order (part # parts) a b =
     (let order = orm_sql_value_order (a ! part_column part) (b ! part_column part);
          order = (if part_descending part then - order else order) in
      if order \<noteq> 0 then order else index_order parts a b)"

lemma key_order: "row_fits parts a n \<Longrightarrow> row_fits parts b m \<Longrightarrow> memcmp (key_bytes parts a) (key_bytes parts b) = index_order parts a b"
proof (induction parts)
  case Nil
  then show ?case by (simp add: key_bytes_def)
next
  case (Cons part parts)
  then show ?case using cell_order [of part "a ! part_column part" "b ! part_column part"]
    by (simp add: row_fits_def key_bytes_def memcmp_append Let_def)
qed

lemma length_key_bytes [simp]: "length (key_bytes parts row) = length parts * 9"
  by (induction parts) (simp_all add: key_bytes_def)

lemma cells_read_back:
  "row_fits parts row n \<Longrightarrow>
   check_cells parts (key_bytes parts row) null = (TURBODB_STATUS_OK, null \<or> key_has_null parts row) \<and>
   read_cells parts (key_bytes parts row) = map (\<lambda>part. canonical_value (row ! part_column part)) parts"
proof (induction parts arbitrary: null)
  case Nil
  then show ?case by (simp add: key_has_null_def)
next
  case (Cons part parts)
  then show ?case using cell_reads_back(1) [of part "row ! part_column part" "key_bytes parts row"]
      cell_reads_back(2) [of part "row ! part_column part" "key_bytes parts row" null]
    by (auto simp: row_fits_def key_bytes_def key_has_null_def)
qed

lemma cells_canonical:
  "check_cells parts data null = (TURBODB_STATUS_OK, null') \<Longrightarrow> length data = length parts * 9 \<Longrightarrow>
   data = concat (map2 index_key_write parts (read_cells parts data))"
proof (induction parts arbitrary: data null)
  case Nil
  then show ?case by simp
next
  case (Cons part parts)
  obtain status n1 where c: "index_key_check_cell part data null = (status, n1)" by fastforce
  then have ok: "status = TURBODB_STATUS_OK" using Cons.prems(1) by (auto split: if_splits)
  have "drop 9 data = concat (map2 index_key_write parts (read_cells parts (drop 9 data)))"
    using Cons.IH [of "drop 9 data" n1] Cons.prems c ok by simp
  moreover have "index_key_write part (index_key_read part data) = take 9 data"
    using cell_canonical [OF c [unfolded ok]] Cons.prems(2) by simp
  ultimately have "index_key_write part (index_key_read part data) @ concat (map2 index_key_write parts (read_cells parts (drop 9 data))) = data"
    by (metis append_take_drop_id)
  then show ?case by simp
qed

text \<open>
  C38. The keys of an index sort as the rows do.  When two rows are encoded under the same definition, comparing the keys as
  byte strings gives the order of the rows under the index: the first part in which they differ decides, NULL before every value,
  integers by value with their sign, doubles by value with both zeros equal, and a descending part reversed.
\<close>

theorem index_keys_ordered:
  assumes "orm_tidesdb_sql_index_key_encode utf8_valid (Some d) budget (Some a) n out capacity wants = (TURBODB_STATUS_OK, budget1, Some (key_a, null_a))"
    and "orm_tidesdb_sql_index_key_encode utf8_valid (Some d) budget1 (Some b) m out capacity wants = (TURBODB_STATUS_OK, budget2, Some (key_b, null_b))"
  shows "memcmp key_a key_b = index_order (def_parts d) a b"
  using key_order [OF encode_ok(1) [OF assms(1)] encode_ok(1) [OF assms(2)]] encode_ok(2) [OF assms(1)] encode_ok(2) [OF assms(2)] by simp

lemma canonical_write:
  assumes "index_key_type part = TURBODB_STATUS_OK" and "valid_value v (part_type part)"
  shows "index_key_write part (canonical_value v) = index_key_write part v"
  by (rule key_value_cases [OF assms]) (simp_all add: canonical_value_def index_key_write_def turbodb_value_defs)

lemma canonical_key:
  "row_fits parts row n \<Longrightarrow> concat (map2 index_key_write parts (map (\<lambda>part. canonical_value (row ! part_column part)) parts)) = key_bytes parts row"
  by (induction parts) (auto simp: row_fits_def key_bytes_def canonical_write)

lemma decode_ok:
  assumes "orm_tidesdb_sql_index_key_decode (Some d) budget (Some data) (length data) out capacity wants = (TURBODB_STATUS_OK, budget', Some (row, null))"
  shows "length data = length (def_parts d) * 9" and "\<exists>n. check_cells (def_parts d) data False = (TURBODB_STATUS_OK, n)"
    and "row = read_cells (def_parts d) data"
  using assms by (auto simp: orm_tidesdb_sql_index_key_decode_def orm_tidesdb_sql_index_key_size_def Let_def split: if_splits prod.splits)

text \<open>
  C39. Keys are decoded to the values they were written for, and a key has only one form.  With the same charge granted, the decoder
  returns for an encoded key the indexed values of the row (a negative zero as the positive one) and the same
  flag for NULLs; and whatever bytes the decoder accepts with these values are the bytes of that key.
\<close>

theorem index_key_roundtrip:
  assumes "orm_tidesdb_sql_index_key_encode utf8_valid (Some d) budget (Some row) count out capacity wants = (TURBODB_STATUS_OK, budget1, Some (key, null))"
    and "index_key_charge (Some b2) (length key) = (TURBODB_STATUS_OK, budget3)" and "length (def_parts d) \<le> room"
  shows "orm_tidesdb_sql_index_key_decode (Some d) (Some b2) (Some key) (length key) True room True =
      (TURBODB_STATUS_OK, budget3, Some (map (\<lambda>part. canonical_value (row ! part_column part)) (def_parts d), null)) \<and>
    (\<forall>data b4 b5. orm_tidesdb_sql_index_key_decode (Some d) b4 (Some data) (length data) True room True =
      (TURBODB_STATUS_OK, b5, Some (map (\<lambda>part. canonical_value (row ! part_column part)) (def_parts d), null)) \<longrightarrow> data = key)"
proof -
  note fits = encode_ok(1) [OF assms(1)]
  have key: "key = key_bytes (def_parts d) row" "null = key_has_null (def_parts d) row" using encode_ok(2,3) [OF assms(1)] by simp_all
  have "orm_tidesdb_sql_index_key_size (Some d) (Some b2) True = Inr (length (def_parts d) * 9)"
    using encode_ok(4) [OF assms(1)] by (auto simp: orm_tidesdb_sql_index_key_size_def split: if_splits)
  then have "orm_tidesdb_sql_index_key_decode (Some d) (Some b2) (Some key) (length key) True room True =
      (TURBODB_STATUS_OK, budget3, Some (map (\<lambda>part. canonical_value (row ! part_column part)) (def_parts d), null))"
    using assms(2,3) cells_read_back [OF fits, of False] unfolding key by (simp add: orm_tidesdb_sql_index_key_decode_def Let_def)
  moreover have "data = key" if decoded: "orm_tidesdb_sql_index_key_decode (Some d) b4 (Some data) (length data) True room True =
      (TURBODB_STATUS_OK, b5, Some (map (\<lambda>part. canonical_value (row ! part_column part)) (def_parts d), null))" for data b4 b5
    using decode_ok [OF decoded] cells_canonical [of "def_parts d" data False] canonical_key [OF fits] key(1) by metis
  ultimately show ?thesis by blast
qed

text \<open>An index on a descending integer column and a nullable double column, and three rows.\<close>

definition example_parts :: "orm_sql_index_part list" where
  "example_parts = [\<lparr>part_column = 1, part_type = \<lparr>sql_kind = KIND_INT64, sql_nullable = False\<rparr>, part_descending = True\<rparr>,
     \<lparr>part_column = 0, part_type = \<lparr>sql_kind = KIND_DOUBLE, sql_nullable = True\<rparr>, part_descending = False\<rparr>]"

definition example_index :: orm_sql_index_definition where
  "example_index = \<lparr>def_parts_initialized = True, def_parts = example_parts, def_part_bytes = 0, def_metadata_bytes = 0, def_source_offset = 0,
     def_name = [], def_table = [], def_name_size = 0, def_table_size = 0, def_unique = False, def_generated_name = False\<rparr>"

definition example_row :: "turbodb_value \<Rightarrow> turbodb_value list" where
  "example_row v = [v, turbodb_i64 (- 3)]"

definition step_budget :: "u64 \<Rightarrow> orm_tidesdb_sql_budget" where
  "step_budget used = example_budget\<lparr>bud_statement_active := True, bud_used := steps_amount used, bud_peak := steps_amount used\<rparr>"

lemma step_budget_reserve:
  assumes "used \<le> 100" and "n \<le> 100 - used"
  shows "orm_tidesdb_sql_budget_reserve (Some (step_budget used)) (Some (steps_amount n)) = (TURBODB_STATUS_OK, Some (step_budget (used + n)))"
proof -
  have le: "used \<le> used + n" using reserve_fits(4) [of used 100 n] assms by (simp add: not_less)
  then have "max used (used + n) = used + n" by (simp add: max_def)
  then show ?thesis using assms
    by (auto simp: orm_tidesdb_sql_budget_reserve_def require_active_def Let_def charge_all all_resources step_budget_def example_budget_def
        example_limits_def transaction_zero_def steps_amount_def amount_zero_def not_less fun_eq_iff)
qed

lemma example_encode:
  assumes "v = turbodb_null \<or> v = turbodb_f64 d \<and> f64_isfinite d" and "used \<le> 62"
  shows "\<exists>key null. orm_tidesdb_sql_index_key_encode (\<lambda>_. True) (Some example_index) (Some (step_budget used)) (Some (example_row v)) 2 True 18 True =
    (TURBODB_STATUS_OK, Some (step_budget (used + 38)), Some (key, null))"
proof -
  have le: "used \<le> 100" "36 \<le> 100 - used" "used + 36 \<le> 100" "1 \<le> 100 - (used + 36)" "used + 37 \<le> 100" "1 \<le> 100 - (used + 37)"
    using assms(2) by unat_arith+
  have "index_key_charge (Some (step_budget used)) 18 = (TURBODB_STATUS_OK, Some (step_budget (used + 36)))"
    using step_budget_reserve [OF le(1,2)] by (simp add: index_key_charge_def SIZE_MAX_def)
  moreover have "index_key_validate (\<lambda>_. True) (example_parts ! 0) (example_row v) 2 (Some (step_budget (used + 36))) = (TURBODB_STATUS_OK, Some (step_budget (used + 37)))"
    using step_budget_reserve [OF le(3,4)]
    by (simp add: index_key_validate_def index_key_type_def example_parts_def orm_tidesdb_sql_predicate_bind_def orm_tidesdb_sql_predicate_eval_def unary_def valid_type_def
        comparison_op_def example_row_def valid_value_def turbodb_value_defs charge_steps_def bytes_of_def add_steps_def valid_text_def add.commute [of used])
  moreover have "index_key_validate (\<lambda>_. True) (example_parts ! 1) (example_row v) 2 (Some (step_budget (used + 37))) = (TURBODB_STATUS_OK, Some (step_budget (used + 38)))"
    using step_budget_reserve [OF le(5,6)] assms(1)
    by (auto simp add: index_key_validate_def index_key_type_def example_parts_def orm_tidesdb_sql_predicate_bind_def orm_tidesdb_sql_predicate_eval_def unary_def valid_type_def
        comparison_op_def example_row_def valid_value_def turbodb_value_defs charge_steps_def bytes_of_def add_steps_def valid_text_def add.commute [of used])
  ultimately show ?thesis
    by (simp add: orm_tidesdb_sql_index_key_encode_def orm_tidesdb_sql_index_key_size_def example_index_def SIZE_MAX_def example_parts_def)
qed

theorem index_keys_ordered_witness:
  "\<exists>budget1 budget2 key_a key_b null_a null_b.
     orm_tidesdb_sql_index_key_encode (\<lambda>_. True) (Some example_index) (Some (step_budget 0)) (Some (example_row turbodb_null)) 2 True 18 True =
       (TURBODB_STATUS_OK, budget1, Some (key_a, null_a)) \<and>
     orm_tidesdb_sql_index_key_encode (\<lambda>_. True) (Some example_index) budget1 (Some (example_row (turbodb_f64 0))) 2 True 18 True =
       (TURBODB_STATUS_OK, budget2, Some (key_b, null_b)) \<and> memcmp key_a key_b = - 1"
proof -
  obtain key_a null_a where a: "orm_tidesdb_sql_index_key_encode (\<lambda>_. True) (Some example_index) (Some (step_budget 0)) (Some (example_row turbodb_null)) 2 True 18 True =
      (TURBODB_STATUS_OK, Some (step_budget 38), Some (key_a, null_a))" using example_encode [of turbodb_null 0 0] by auto
  obtain key_b null_b where b: "orm_tidesdb_sql_index_key_encode (\<lambda>_. True) (Some example_index) (Some (step_budget 38)) (Some (example_row (turbodb_f64 0))) 2 True 18 True =
      (TURBODB_STATUS_OK, Some (step_budget 76), Some (key_b, null_b))"
    using example_encode [of "turbodb_f64 0" 0 38] by (auto simp: f64_isfinite_def f64_exponent_def)
  have "index_order (def_parts example_index) (example_row turbodb_null) (example_row (turbodb_f64 0)) = - 1"
    by (simp add: example_index_def example_parts_def example_row_def orm_sql_value_order_def turbodb_value_defs)
  then show ?thesis using a b index_keys_ordered [OF a b] by auto
qed

theorem index_key_roundtrip_witness:
  "\<exists>budget1 key null budget3.
     orm_tidesdb_sql_index_key_encode (\<lambda>_. True) (Some example_index) (Some (step_budget 0)) (Some (example_row (turbodb_f64 0x8000000000000000))) 2 True 18 True =
       (TURBODB_STATUS_OK, budget1, Some (key, null)) \<and>
     orm_tidesdb_sql_index_key_decode (Some example_index) (Some (step_budget 0)) (Some key) (length key) True 2 True =
       (TURBODB_STATUS_OK, budget3, Some ([turbodb_i64 (- 3), turbodb_f64 0], null))"
proof -
  have finite: "f64_isfinite 0x8000000000000000" by (simp add: f64_isfinite_def f64_exponent_nat)
  then obtain key null where a: "orm_tidesdb_sql_index_key_encode (\<lambda>_. True) (Some example_index) (Some (step_budget 0)) (Some (example_row (turbodb_f64 0x8000000000000000))) 2 True 18 True =
      (TURBODB_STATUS_OK, Some (step_budget 38), Some (key, null))" using example_encode [of "turbodb_f64 0x8000000000000000" "0x8000000000000000" 0] by auto
  have "length key = 18" using encode_ok(2) [OF a] by (simp add: example_index_def example_parts_def)
  then have c: "index_key_charge (Some (step_budget 0)) (length key) = (TURBODB_STATUS_OK, Some (step_budget 36))"
    using step_budget_reserve [of 0 36] by (simp add: index_key_charge_def SIZE_MAX_def)
  have room: "length (def_parts example_index) \<le> 2" by (simp add: example_index_def example_parts_def)
  have "map (\<lambda>part. canonical_value (example_row (turbodb_f64 0x8000000000000000) ! part_column part)) (def_parts example_index) = [turbodb_i64 (- 3), turbodb_f64 0]"
    by (simp add: example_index_def example_parts_def example_row_def canonical_value_def turbodb_value_defs canonical_double_def f64_is_zero_def f64_exponent_nat f64_mantissa_nat)
  with a index_key_roundtrip [OF a c room] show ?thesis by auto
qed

end
