(* ===== verification/Mysql_Parameters.thy ===== *)
theory Mysql_Parameters
  imports Wire_Codec C_Printf
begin

text \<open>
  The client's rewriting of SQL text, \<open>src/mysql/parameters.c\<close>: \<open>mysql_parameter_lower\<close> turns portable
  placeholders (\<open>?1\<close>, \<open>?2\<close>, \<dots>) into the native \<open>?\<close> of the protocol and records the order of the bindings,
  leaving strings, quoted identifiers and comments alone; \<open>mysql_sql_reject_managed_transaction\<close> looks for
  a leading keyword that would end or alter a transaction the client manages itself.

  The text is a byte list whose length is \<open>sql_size\<close>.  The loop of the rewriting is a step function on
  the local variables of the C function (\<open>lower_state\<close>), iterated until the input is used up.
  \<open>Mysql_Lowering\<close> holds what is proved of it.
\<close>

section \<open>Data\<close>

abbreviation (input) "CH_TAB \<equiv> 0x09 :: u8"
abbreviation (input) "CH_LF \<equiv> 0x0a :: u8"
abbreviation (input) "CH_FF \<equiv> 0x0c :: u8"
abbreviation (input) "CH_CR \<equiv> 0x0d :: u8"
abbreviation (input) "CH_SPACE \<equiv> 0x20 :: u8"
abbreviation (input) "CH_BANG \<equiv> 0x21 :: u8"
abbreviation (input) "CH_DOUBLE \<equiv> 0x22 :: u8"
abbreviation (input) "CH_HASH \<equiv> 0x23 :: u8"
abbreviation (input) "CH_SINGLE \<equiv> 0x27 :: u8"
abbreviation (input) "CH_STAR \<equiv> 0x2a :: u8"
abbreviation (input) "CH_DASH \<equiv> 0x2d :: u8"
abbreviation (input) "CH_SLASH \<equiv> 0x2f :: u8"
abbreviation (input) "CH_QUESTION \<equiv> 0x3f :: u8"
abbreviation (input) "CH_BACKSLASH \<equiv> 0x5c :: u8"
abbreviation (input) "CH_BACKTICK \<equiv> 0x60 :: u8"

datatype mysql_parameter_lex_state =
    MYSQL_PARAMETER_LEX_CODE
  | MYSQL_PARAMETER_LEX_SINGLE_QUOTE
  | MYSQL_PARAMETER_LEX_DOUBLE_QUOTE
  | MYSQL_PARAMETER_LEX_BACKTICK
  | MYSQL_PARAMETER_LEX_LINE_DASH
  | MYSQL_PARAMETER_LEX_LINE_HASH
  | MYSQL_PARAMETER_LEX_BLOCK_COMMENT

datatype mysql_parameter_style =
    MYSQL_PARAMETER_STYLE_NONE
  | MYSQL_PARAMETER_STYLE_NATIVE
  | MYSQL_PARAMETER_STYLE_PORTABLE

record mysql_parameter_lower_options =
  opt_ansi_quotes :: bool
  opt_no_backslash_escapes :: bool
  opt_max_parameters :: u32

record mysql_parameter_lower_result =
  res_style :: mysql_parameter_style
  res_bind_count :: nat

text \<open>ASCII text as bytes.\<close>

definition ascii :: "string \<Rightarrow> bytes" where
  "ascii s = map of_char s"

text \<open>The recurring bounds-checked comparison \<open>i < sql_size && sql[i] == c\<close>.\<close>

definition byte_at :: "bytes \<Rightarrow> nat \<Rightarrow> u8 \<Rightarrow> bool" where
  "byte_at sql i c \<longleftrightarrow> i < length sql \<and> sql ! i = c"


section \<open>Transaction control in raw SQL\<close>

definition mysql_parameter_is_space :: "u8 \<Rightarrow> bool" where
  "mysql_parameter_is_space v \<longleftrightarrow> v = CH_SPACE \<or> v = CH_TAB \<or> v = CH_CR \<or> v = CH_LF \<or> v = CH_FF"

definition mysql_sql_is_alpha :: "u8 \<Rightarrow> bool" where
  "mysql_sql_is_alpha v \<longleftrightarrow> v \<ge> 0x41 \<and> v \<le> 0x5a \<or> v \<ge> 0x61 \<and> v \<le> 0x7a"

definition mysql_sql_upper :: "u8 \<Rightarrow> u8" where
  "mysql_sql_upper v = (if v \<ge> 0x61 \<and> v \<le> 0x7a then v - (0x61 - 0x41) else v)"

text \<open>The loop of \<open>mysql_sql_keyword_equal\<close> at position \<open>i\<close>, over the rest of the keyword.\<close>

fun keyword_equal_loop :: "bytes \<Rightarrow> nat \<Rightarrow> nat \<Rightarrow> bytes \<Rightarrow> bool" where
  "keyword_equal_loop sql i stop [] = (i = stop)" |
  "keyword_equal_loop sql i stop (k # ks) =
     (if i < stop then
        if mysql_sql_upper (sql ! i) \<noteq> k then False else keyword_equal_loop sql (i + 1) stop ks
      else False)"

definition mysql_sql_keyword_equal :: "ptr \<Rightarrow> nat \<Rightarrow> nat \<Rightarrow> ptr \<Rightarrow> bool" where
  "mysql_sql_keyword_equal sql start stop keyword =
     (case (sql, keyword) of (Some s, Some k) \<Rightarrow> keyword_equal_loop s start stop k | _ \<Rightarrow> False)"

definition rejected_keywords :: "bytes list" where
  "rejected_keywords = map ascii
     [''ALTER'', ''ANALYZE'', ''BEGIN'', ''CACHE'', ''CHANGE'',
      ''CHECK'', ''COMMIT'', ''CREATE'', ''DROP'', ''FLUSH'',
      ''GRANT'', ''INSTALL'', ''LOAD'', ''LOCK'', ''OPTIMIZE'',
      ''RENAME'', ''REPAIR'', ''RESET'', ''REVOKE'', ''ROLLBACK'',
      ''SAVEPOINT'', ''SET'', ''START'', ''STOP'', ''TRUNCATE'',
      ''UNINSTALL'', ''UNLOCK'', ''XA'']"

text \<open>\<open>while (cursor < sql_size && p(sql[cursor])) ++cursor;\<close>\<close>

function scan_while :: "(u8 \<Rightarrow> bool) \<Rightarrow> bytes \<Rightarrow> nat \<Rightarrow> nat" where
  "scan_while p sql cursor = (if cursor < length sql \<and> p (sql ! cursor) then scan_while p sql (cursor + 1) else cursor)"
  by auto
termination by (relation "measure (\<lambda>(p, sql, cursor). length sql - cursor)") auto

declare scan_while.simps [simp del]

definition not_newline :: "u8 \<Rightarrow> bool" where
  "not_newline v \<longleftrightarrow> v \<noteq> CH_LF \<and> v \<noteq> CH_CR"

text \<open>The search for the end of a block comment.\<close>

function comment_end :: "bytes \<Rightarrow> nat \<Rightarrow> nat" where
  "comment_end sql e =
     (if e + 1 < length sql \<and> \<not> (sql ! e = CH_STAR \<and> sql ! (e + 1) = CH_SLASH) then comment_end sql (e + 1) else e)"
  by auto
termination by (relation "measure (\<lambda>(sql, e). length sql - e)") auto

declare comment_end.simps [simp del]

lemma scan_while_ge: "cursor \<le> scan_while p sql cursor"
  by (induction p sql cursor rule: scan_while.induct) (subst scan_while.simps, auto)

lemma comment_end_ge: "e \<le> comment_end sql e"
  by (induction sql e rule: comment_end.induct) (subst comment_end.simps, auto)

lemma scan_while_progress: "cursor < length sql \<Longrightarrow> p (sql ! cursor) \<Longrightarrow> cursor < scan_while p sql cursor"
  using scan_while_ge [of "cursor + 1" p sql] by (subst scan_while.simps) simp

text \<open>
  The loop over leading blanks and comments: \<open>Inl\<close> the value the function returns from inside it,
  \<open>Inr\<close> the cursor at which it breaks.
\<close>

function skip_leading :: "bytes \<Rightarrow> nat \<Rightarrow> bool + nat" where
  "skip_leading sql start =
     (let cursor = scan_while mysql_parameter_is_space sql start in
      if cursor \<ge> length sql then Inl False
      else if sql ! cursor = CH_HASH then skip_leading sql (scan_while not_newline sql cursor)
      else if cursor + 1 < length sql \<and> sql ! cursor = CH_DASH \<and> sql ! (cursor + 1) = CH_DASH \<and>
              (cursor + 2 = length sql \<or> mysql_parameter_is_space (sql ! (cursor + 2)))
      then skip_leading sql (scan_while not_newline sql (cursor + 2))
      else if cursor + 1 < length sql \<and> sql ! cursor = CH_SLASH \<and> sql ! (cursor + 1) = CH_STAR then
        if byte_at sql (cursor + 2) CH_BANG then Inl True
        else let e = comment_end sql (cursor + 2) in
             if e + 1 \<ge> length sql then Inl True else skip_leading sql (e + 2)
      else Inr cursor)"
  by auto
termination
proof (relation "measure (\<lambda>(sql, start). length sql - start)", goal_cases)
  case 1
  then show ?case by simp
next
  case (2 sql start cursor)
  have "start \<le> cursor" using scan_while_ge [of start mysql_parameter_is_space sql] 2(1) by simp
  moreover have "cursor < scan_while not_newline sql cursor"
    using 2 by (intro scan_while_progress) (auto simp: not_newline_def)
  ultimately show ?case using 2(2) by simp
next
  case (3 sql start cursor)
  have "start \<le> cursor" using scan_while_ge [of start mysql_parameter_is_space sql] 3(1) by simp
  then show ?case using 3(2) scan_while_ge [of "cursor + 2" not_newline sql] by simp
next
  case (4 sql start cursor e)
  have "start \<le> cursor" using scan_while_ge [of start mysql_parameter_is_space sql] 4(1) by simp
  then show ?case using 4(2) 4(7) comment_end_ge [of "cursor + 2" sql] by simp
qed

declare skip_leading.simps [simp del]

definition mysql_sql_reject_managed_transaction :: "ptr \<Rightarrow> bool" where
  "mysql_sql_reject_managed_transaction text =
     (case text of None \<Rightarrow> False
      | Some sql \<Rightarrow>
        if length sql = 0 then False
        else case skip_leading sql 0 of
          Inl result \<Rightarrow> result
        | Inr start \<Rightarrow>
            let cursor = scan_while mysql_sql_is_alpha sql start in
            if cursor = start then False
            else list_ex (\<lambda>k. mysql_sql_keyword_equal text start cursor (Some k)) rejected_keywords)"


section \<open>Lowering placeholders\<close>

definition mysql_parameter_emit :: "ptr \<Rightarrow> nat \<Rightarrow> nat \<Rightarrow> ptr \<Rightarrow> nat \<Rightarrow> wire_write" where
  "mysql_parameter_emit out capacity used data sz =
     (case out of None \<Rightarrow> (MYSQL_WIRE_STATUS_INVALID, None, used)
      | Some d \<Rightarrow>
        if data = None \<and> sz \<noteq> 0 then (MYSQL_WIRE_STATUS_INVALID, out, used)
        else if used > capacity \<or> capacity - used < sz then (MYSQL_WIRE_STATUS_LIMIT, out, used)
        else (MYSQL_WIRE_STATUS_OK,
              (if sz \<noteq> 0 then Some (memcpy d used (case data of None \<Rightarrow> [] | Some x \<Rightarrow> take sz x)) else out),
              used + sz))"

definition mysql_parameter_record ::
    "mysql_parameter_style \<Rightarrow> u32 \<Rightarrow> mysql_parameter_lower_options \<Rightarrow> u32 list \<Rightarrow> nat \<Rightarrow> mysql_parameter_lower_result
      \<Rightarrow> mysql_wire_status \<times> u32 list \<times> mysql_parameter_lower_result" where
  "mysql_parameter_record style index options bind_order bind_order_capacity result =
     (if opt_max_parameters options = 0 \<or> index = 0 \<or> index > opt_max_parameters options
      then (MYSQL_WIRE_STATUS_INVALID, bind_order, result)
      else if res_style result \<noteq> MYSQL_PARAMETER_STYLE_NONE \<and> res_style result \<noteq> style
      then (MYSQL_WIRE_STATUS_INVALID, bind_order, result)
      else if res_bind_count result \<ge> bind_order_capacity \<or> res_bind_count result \<ge> unat (opt_max_parameters options)
      then (MYSQL_WIRE_STATUS_LIMIT, bind_order, result)
      else (MYSQL_WIRE_STATUS_OK, bind_order[res_bind_count result := index],
            \<lparr>res_style = style, res_bind_count = res_bind_count result + 1\<rparr>))"

definition is_digit :: "u8 \<Rightarrow> bool" where
  "is_digit v \<longleftrightarrow> v \<ge> 0x30 \<and> v \<le> 0x39"

function portable_index_loop :: "bytes \<Rightarrow> nat \<Rightarrow> u64 \<Rightarrow> (u64 \<times> nat) option" where
  "portable_index_loop sql cursor v =
     (if cursor < length sql \<and> is_digit (sql ! cursor) then
        let d = ucast (sql ! cursor - 0x30) :: u64 in
        if v > (- 1 - d) div 10 then None else portable_index_loop sql (cursor + 1) (v * 10 + d)
      else Some (v, cursor))"
  by auto
termination by (relation "measure (\<lambda>(sql, cursor, v). length sql - cursor)") auto

declare portable_index_loop.simps [simp del]

definition mysql_parameter_parse_portable_index :: "ptr \<Rightarrow> nat \<Rightarrow> u32 \<Rightarrow> mysql_wire_status + (u32 \<times> nat)" where
  "mysql_parameter_parse_portable_index sql start max_parameters =
     (case sql of None \<Rightarrow> Inl MYSQL_WIRE_STATUS_INVALID
      | Some s \<Rightarrow>
        if start \<ge> length s \<or> \<not> is_digit (s ! start) then Inl MYSQL_WIRE_STATUS_INVALID
        else case portable_index_loop s start 0 of
          None \<Rightarrow> Inl MYSQL_WIRE_STATUS_LIMIT
        | Some (v, cursor) \<Rightarrow>
            if v = 0 \<or> unat v > 2 ^ 32 - 1 \<or> v > ucast max_parameters then Inl MYSQL_WIRE_STATUS_LIMIT
            else Inr (ucast v, cursor))"

text \<open>The local variables of \<open>mysql_parameter_lower\<close> and the arrays it writes.\<close>

record lower_state =
  low_state :: mysql_parameter_lex_state
  low_executable :: bool
  low_input :: nat
  low_output :: nat
  low_sql :: bytes
  low_bind :: "u32 list"
  low_result :: mysql_parameter_lower_result

type_synonym lowered = "mysql_wire_status \<times> lower_state"

text \<open>An emit at the output cursor; on success \<open>next\<close> is what the code does before \<open>continue\<close>.\<close>

definition lower_emit :: "nat \<Rightarrow> ptr \<Rightarrow> nat \<Rightarrow> (lower_state \<Rightarrow> lower_state) \<Rightarrow> lower_state \<Rightarrow> lowered" where
  "lower_emit capacity data sz continue s =
     (case mysql_parameter_emit (Some (low_sql s)) capacity (low_output s) data sz of (status, out, used) \<Rightarrow>
        if status \<noteq> MYSQL_WIRE_STATUS_OK then (status, s)
        else (status, continue (s\<lparr>low_sql := (case out of None \<Rightarrow> low_sql s | Some d \<Rightarrow> d), low_output := used\<rparr>)))"

definition advance :: "nat \<Rightarrow> lower_state \<Rightarrow> lower_state" where
  "advance n s = s\<lparr>low_input := low_input s + n\<rparr>"

definition enter :: "mysql_parameter_lex_state \<Rightarrow> lower_state \<Rightarrow> lower_state" where
  "enter state s = s\<lparr>low_state := state\<rparr>"

definition lower_line_comment :: "bytes \<Rightarrow> nat \<Rightarrow> lower_state \<Rightarrow> lowered" where
  "lower_line_comment sql capacity s =
     (let ch = sql ! low_input s in
      lower_emit capacity (Some [ch]) 1 (\<lambda>s.
        let s = advance 1 s in
        if ch = CH_LF \<or> ch = CH_CR then enter MYSQL_PARAMETER_LEX_CODE s else s) s)"

definition lower_block_comment :: "bytes \<Rightarrow> nat \<Rightarrow> lower_state \<Rightarrow> lowered" where
  "lower_block_comment sql capacity s =
     (let i = low_input s; ch = sql ! i in
      if byte_at sql i CH_STAR \<and> byte_at sql (i + 1) CH_SLASH
      then lower_emit capacity (Some (drop i sql)) 2 (\<lambda>s. enter MYSQL_PARAMETER_LEX_CODE (advance 2 s)) s
      else lower_emit capacity (Some [ch]) 1 (advance 1) s)"

definition quote_terminator :: "mysql_parameter_lex_state \<Rightarrow> u8" where
  "quote_terminator state =
     (if state = MYSQL_PARAMETER_LEX_SINGLE_QUOTE then CH_SINGLE
      else if state = MYSQL_PARAMETER_LEX_DOUBLE_QUOTE then CH_DOUBLE else CH_BACKTICK)"

definition lower_quoted :: "mysql_parameter_lower_options \<Rightarrow> bytes \<Rightarrow> nat \<Rightarrow> lower_state \<Rightarrow> lowered" where
  "lower_quoted options sql capacity s =
     (let i = low_input s; ch = sql ! i; terminator = quote_terminator (low_state s) in
      if ch = terminator then
        if byte_at sql (i + 1) terminator then lower_emit capacity (Some (drop i sql)) 2 (advance 2) s
        else lower_emit capacity (Some [ch]) 1 (\<lambda>s. enter MYSQL_PARAMETER_LEX_CODE (advance 1 s)) s
      else if ch = CH_BACKSLASH \<and> low_state s \<noteq> MYSQL_PARAMETER_LEX_BACKTICK \<and> \<not> opt_no_backslash_escapes options then
        let copy = (if i + 1 < length sql then 2 else 1) in
        lower_emit capacity (Some (drop i sql)) copy (advance copy) s
      else lower_emit capacity (Some [ch]) 1 (advance 1) s)"

text \<open>A placeholder is recorded first and emitted then, so that a failing emit leaves its record behind.\<close>

definition lower_record ::
    "mysql_parameter_style \<Rightarrow> u32 \<Rightarrow> mysql_parameter_lower_options \<Rightarrow> nat \<Rightarrow> (lower_state \<Rightarrow> lowered) \<Rightarrow> lower_state \<Rightarrow> lowered" where
  "lower_record style index options bind_capacity continue s =
     (case mysql_parameter_record style index options (low_bind s) bind_capacity (low_result s) of (status, bind, result) \<Rightarrow>
        if status \<noteq> MYSQL_WIRE_STATUS_OK then (status, s) else continue (s\<lparr>low_bind := bind, low_result := result\<rparr>))"

definition lower_placeholder :: "mysql_parameter_lower_options \<Rightarrow> bytes \<Rightarrow> nat \<Rightarrow> nat \<Rightarrow> lower_state \<Rightarrow> lowered" where
  "lower_placeholder options sql capacity bind_capacity s =
     (let i = low_input s in
      if i + 1 < length sql \<and> is_digit (sql ! (i + 1)) then
        case mysql_parameter_parse_portable_index (Some sql) (i + 1) (opt_max_parameters options) of
          Inl status \<Rightarrow> (status, s)
        | Inr (index, e) \<Rightarrow>
            lower_record MYSQL_PARAMETER_STYLE_PORTABLE index options bind_capacity
              (lower_emit capacity (Some [CH_QUESTION]) 1 (\<lambda>s. s\<lparr>low_input := e\<rparr>)) s
      else if res_bind_count (low_result s) \<ge> 2 ^ 32 - 1 then (MYSQL_WIRE_STATUS_LIMIT, s)
      else lower_record MYSQL_PARAMETER_STYLE_NATIVE (of_nat (res_bind_count (low_result s)) + 1) options bind_capacity
             (lower_emit capacity (Some [sql ! i]) 1 (advance 1)) s)"

definition lower_code :: "mysql_parameter_lower_options \<Rightarrow> bytes \<Rightarrow> nat \<Rightarrow> nat \<Rightarrow> lower_state \<Rightarrow> lowered" where
  "lower_code options sql capacity bind_capacity s =
     (let i = low_input s; ch = sql ! i; copy = Some (drop i sql) in
      if low_executable s \<and> byte_at sql i CH_STAR \<and> byte_at sql (i + 1) CH_SLASH
      then lower_emit capacity copy 2 (\<lambda>s. (advance 2 s)\<lparr>low_executable := False\<rparr>) s
      else if byte_at sql i CH_SLASH \<and> byte_at sql (i + 1) CH_STAR \<and> byte_at sql (i + 2) CH_BANG
      then lower_emit capacity copy 3 (\<lambda>s. (advance 3 s)\<lparr>low_executable := True\<rparr>) s
      else if byte_at sql i CH_SLASH \<and> byte_at sql (i + 1) CH_STAR
      then lower_emit capacity copy 2 (\<lambda>s. enter MYSQL_PARAMETER_LEX_BLOCK_COMMENT (advance 2 s)) s
      else if ch = CH_HASH
      then lower_emit capacity (Some [ch]) 1 (\<lambda>s. enter MYSQL_PARAMETER_LEX_LINE_HASH (advance 1 s)) s
      else if ch = CH_DASH \<and> byte_at sql (i + 1) CH_DASH \<and>
              (i + 2 = length sql \<or> mysql_parameter_is_space (sql ! (i + 2)))
      then lower_emit capacity copy 2 (\<lambda>s. enter MYSQL_PARAMETER_LEX_LINE_DASH (advance 2 s)) s
      else if ch = CH_SINGLE
      then lower_emit capacity (Some [ch]) 1 (\<lambda>s. enter MYSQL_PARAMETER_LEX_SINGLE_QUOTE (advance 1 s)) s
      else if ch = CH_DOUBLE
      then lower_emit capacity (Some [ch]) 1 (\<lambda>s. enter MYSQL_PARAMETER_LEX_DOUBLE_QUOTE (advance 1 s)) s
      else if ch = CH_BACKTICK
      then lower_emit capacity (Some [ch]) 1 (\<lambda>s. enter MYSQL_PARAMETER_LEX_BACKTICK (advance 1 s)) s
      else if ch = CH_QUESTION then lower_placeholder options sql capacity bind_capacity s
      else lower_emit capacity (Some [ch]) 1 (advance 1) s)"

definition lower_step :: "mysql_parameter_lower_options \<Rightarrow> bytes \<Rightarrow> nat \<Rightarrow> nat \<Rightarrow> lower_state \<Rightarrow> lowered" where
  "lower_step options sql capacity bind_capacity s =
     (if low_state s = MYSQL_PARAMETER_LEX_LINE_DASH \<or> low_state s = MYSQL_PARAMETER_LEX_LINE_HASH
      then lower_line_comment sql capacity s
      else if low_state s = MYSQL_PARAMETER_LEX_BLOCK_COMMENT then lower_block_comment sql capacity s
      else if low_state s = MYSQL_PARAMETER_LEX_SINGLE_QUOTE \<or> low_state s = MYSQL_PARAMETER_LEX_DOUBLE_QUOTE \<or>
              low_state s = MYSQL_PARAMETER_LEX_BACKTICK
      then lower_quoted options sql capacity s
      else lower_code options sql capacity bind_capacity s)"

text \<open>Every successful step moves the input cursor forward, so the loop ends.\<close>

lemma lower_emit_OK:
  "lower_emit capacity data sz continue s = (MYSQL_WIRE_STATUS_OK, t) \<Longrightarrow>
   \<exists>out used. t = continue (s\<lparr>low_sql := out, low_output := used\<rparr>)"
  by (auto simp: lower_emit_def split: prod.splits if_splits)

lemma lower_emit_input:
  assumes "lower_emit capacity data sz continue s = (MYSQL_WIRE_STATUS_OK, t)"
    and "\<And>out used. low_input s < low_input (continue (s\<lparr>low_sql := out, low_output := used\<rparr>))"
  shows "low_input s < low_input t"
  using lower_emit_OK [OF assms(1)] assms(2) by auto

lemma lower_record_input:
  assumes "lower_record style index options bind_capacity continue s = (MYSQL_WIRE_STATUS_OK, t)"
    and "\<And>bind result. continue (s\<lparr>low_bind := bind, low_result := result\<rparr>) = (MYSQL_WIRE_STATUS_OK, t) \<Longrightarrow> low_input s < low_input t"
  shows "low_input s < low_input t"
  using assms by (auto simp: lower_record_def split: prod.splits if_splits)

lemma portable_index_loop_ge: "portable_index_loop sql cursor v = Some (w, e) \<Longrightarrow> cursor \<le> e"
proof (induction sql cursor v rule: portable_index_loop.induct)
  case (1 sql cursor v)
  then show ?case by (subst (asm) (2) portable_index_loop.simps) (auto simp: Let_def split: if_splits)
qed

lemma parse_portable_index_ge:
  "mysql_parameter_parse_portable_index sql start m = Inr (index, e) \<Longrightarrow> start \<le> e"
  by (auto simp: mysql_parameter_parse_portable_index_def split: option.splits if_splits dest: portable_index_loop_ge)

lemma parse_portable_index_fails:
  "mysql_parameter_parse_portable_index sql start m \<noteq> Inl MYSQL_WIRE_STATUS_OK"
  by (auto simp: mysql_parameter_parse_portable_index_def split: option.splits)

lemma lower_placeholder_progress:
  assumes "lower_placeholder options sql capacity bind_capacity s = (MYSQL_WIRE_STATUS_OK, t)"
  shows "low_input s < low_input t"
  using assms
  by (auto simp: lower_placeholder_def Let_def advance_def parse_portable_index_fails split: if_splits sum.splits prod.splits
      dest!: parse_portable_index_ge elim!: lower_record_input lower_emit_OK [THEN exE])

lemma lower_step_progress:
  assumes "lower_step options sql capacity bind_capacity s = (MYSQL_WIRE_STATUS_OK, t)"
  shows "low_input s < low_input t"
  using assms lower_placeholder_progress
  unfolding lower_step_def lower_line_comment_def lower_block_comment_def lower_quoted_def lower_code_def Let_def
  by (auto split: if_splits elim!: lower_emit_input simp: advance_def enter_def)

function lower_loop :: "mysql_parameter_lower_options \<Rightarrow> bytes \<Rightarrow> nat \<Rightarrow> nat \<Rightarrow> lower_state \<Rightarrow> lowered" where
  "lower_loop options sql capacity bind_capacity s =
     (if low_input s < length sql then
        case lower_step options sql capacity bind_capacity s of (status, s') \<Rightarrow>
          if status \<noteq> MYSQL_WIRE_STATUS_OK then (status, s') else lower_loop options sql capacity bind_capacity s'
      else (MYSQL_WIRE_STATUS_OK, s))"
  by auto
termination
  by (relation "measure (\<lambda>(options, sql, capacity, bind_capacity, s). length sql - low_input s)")
     (auto dest!: lower_step_progress [OF sym])

declare lower_loop.simps [simp del]

definition lower_unfinished :: "lower_state \<Rightarrow> bool" where
  "lower_unfinished s \<longleftrightarrow>
     low_state s = MYSQL_PARAMETER_LEX_SINGLE_QUOTE \<or> low_state s = MYSQL_PARAMETER_LEX_DOUBLE_QUOTE \<or>
     low_state s = MYSQL_PARAMETER_LEX_BACKTICK \<or> low_state s = MYSQL_PARAMETER_LEX_BLOCK_COMMENT \<or> low_executable s"

definition lower_start :: "bytes \<Rightarrow> u32 list \<Rightarrow> lower_state" where
  "lower_start out bind =
     \<lparr>low_state = MYSQL_PARAMETER_LEX_CODE, low_executable = False, low_input = 0, low_output = 0, low_sql = out,
      low_bind = bind, low_result = \<lparr>res_style = MYSQL_PARAMETER_STYLE_NONE, res_bind_count = 0\<rparr>\<rparr>"

text \<open>
  What a call leaves behind: its status, the two arrays, \<open>*out_size\<close> and \<open>*result\<close>.  The latter two
  are \<open>None\<close> where the call returns before it assigns them.
\<close>

record lower_outcome =
  lowered_status :: mysql_wire_status
  lowered_sql :: ptr
  lowered_size :: "nat option"
  lowered_bind :: "u32 list option"
  lowered_result :: "mysql_parameter_lower_result option"

definition mysql_parameter_lower ::
    "ptr \<Rightarrow> mysql_parameter_lower_options option \<Rightarrow> ptr \<Rightarrow> nat \<Rightarrow> u32 list option \<Rightarrow> nat \<Rightarrow> lower_outcome" where
  "mysql_parameter_lower sql options out_sql out_capacity bind_order bind_order_capacity =
     (let invalid = \<lparr>lowered_status = MYSQL_WIRE_STATUS_INVALID, lowered_sql = out_sql, lowered_size = None,
                    lowered_bind = bind_order, lowered_result = None\<rparr> in
      case (sql, options, out_sql, bind_order) of
        (Some text, Some opts, Some out, Some bind) \<Rightarrow>
          if opt_max_parameters opts = 0 then invalid
          else case lower_loop opts text out_capacity bind_order_capacity (lower_start out bind) of (status, s) \<Rightarrow>
            let left = \<lparr>lowered_status = status, lowered_sql = Some (low_sql s), lowered_size = Some 0,
                        lowered_bind = Some (low_bind s), lowered_result = Some (low_result s)\<rparr> in
            if status \<noteq> MYSQL_WIRE_STATUS_OK then left
            else if lower_unfinished s then left\<lparr>lowered_status := MYSQL_WIRE_STATUS_INVALID\<rparr>
            else left\<lparr>lowered_size := Some (low_output s)\<rparr>
      | _ \<Rightarrow> invalid)"

end
