(* ===== verification/Mysql_Lowering.thy ===== *)
theory Mysql_Lowering
  imports Mysql_Parameters
begin

text \<open>
  What the rewriting of \<open>src/mysql/parameters.c\<close> does to SQL text.  The reference is a lexer over the
  remaining text, \<open>next_token\<close> and \<open>lex_sql\<close>: the loop of \<open>mysql_parameter_lower\<close> handles one token per
  round, and the text it produces is the rendering of the tokens.  The properties follow from that: when
  lowering succeeds and with what result, that it stays inside the caller's arrays, and that lowering its
  own result changes nothing.
\<close>

section \<open>The reference lexer\<close>

text \<open>
  The text as a sequence of tokens: stretches copied as they are, native markers, and portable markers
  with their digits.  A token's source is the text it stands for, its rendering what lowering makes of it.
\<close>

datatype sql_token = Verbatim bytes | Native_Marker | Portable_Marker bytes

fun token_source :: "sql_token \<Rightarrow> bytes" where
  "token_source (Verbatim xs) = xs" |
  "token_source Native_Marker = [CH_QUESTION]" |
  "token_source (Portable_Marker ds) = CH_QUESTION # ds"

fun token_text :: "sql_token \<Rightarrow> bytes" where
  "token_text (Verbatim xs) = xs" |
  "token_text Native_Marker = [CH_QUESTION]" |
  "token_text (Portable_Marker ds) = [CH_QUESTION]"

definition starts :: "bytes \<Rightarrow> bytes \<Rightarrow> bool" where
  "starts p xs \<longleftrightarrow> take (length p) xs = p"

definition next_token :: "bool \<Rightarrow> mysql_parameter_lex_state \<Rightarrow> bool \<Rightarrow> bytes \<Rightarrow> sql_token \<times> mysql_parameter_lex_state \<times> bool" where
  "next_token no_escapes st ex xs =
     (if st = MYSQL_PARAMETER_LEX_LINE_DASH \<or> st = MYSQL_PARAMETER_LEX_LINE_HASH then
        (Verbatim (take 1 xs), if not_newline (hd xs) then st else MYSQL_PARAMETER_LEX_CODE, ex)
      else if st = MYSQL_PARAMETER_LEX_BLOCK_COMMENT then
        if starts [CH_STAR, CH_SLASH] xs then (Verbatim (take 2 xs), MYSQL_PARAMETER_LEX_CODE, ex)
        else (Verbatim (take 1 xs), st, ex)
      else if st \<noteq> MYSQL_PARAMETER_LEX_CODE then
        let q = quote_terminator st in
        if starts [q, q] xs then (Verbatim (take 2 xs), st, ex)
        else if starts [q] xs then (Verbatim (take 1 xs), MYSQL_PARAMETER_LEX_CODE, ex)
        else if starts [CH_BACKSLASH] xs \<and> st \<noteq> MYSQL_PARAMETER_LEX_BACKTICK \<and> \<not> no_escapes then (Verbatim (take 2 xs), st, ex)
        else (Verbatim (take 1 xs), st, ex)
      else if ex \<and> starts [CH_STAR, CH_SLASH] xs then (Verbatim (take 2 xs), st, False)
      else if starts [CH_SLASH, CH_STAR, CH_BANG] xs then (Verbatim (take 3 xs), st, True)
      else if starts [CH_SLASH, CH_STAR] xs then (Verbatim (take 2 xs), MYSQL_PARAMETER_LEX_BLOCK_COMMENT, ex)
      else if starts [CH_HASH] xs then (Verbatim (take 1 xs), MYSQL_PARAMETER_LEX_LINE_HASH, ex)
      else if starts [CH_DASH, CH_DASH] xs \<and> list_all mysql_parameter_is_space (take 1 (drop 2 xs)) then
        (Verbatim (take 2 xs), MYSQL_PARAMETER_LEX_LINE_DASH, ex)
      else if starts [CH_SINGLE] xs then (Verbatim (take 1 xs), MYSQL_PARAMETER_LEX_SINGLE_QUOTE, ex)
      else if starts [CH_DOUBLE] xs then (Verbatim (take 1 xs), MYSQL_PARAMETER_LEX_DOUBLE_QUOTE, ex)
      else if starts [CH_BACKTICK] xs then (Verbatim (take 1 xs), MYSQL_PARAMETER_LEX_BACKTICK, ex)
      else if starts [CH_QUESTION] xs then
        let ds = takeWhile is_digit (drop 1 xs) in (if ds = [] then Native_Marker else Portable_Marker ds, st, ex)
      else (Verbatim (take 1 xs), st, ex))"

definition is_quote :: "mysql_parameter_lex_state \<Rightarrow> bool" where
  "is_quote st \<longleftrightarrow> st = MYSQL_PARAMETER_LEX_SINGLE_QUOTE \<or> st = MYSQL_PARAMETER_LEX_DOUBLE_QUOTE \<or> st = MYSQL_PARAMETER_LEX_BACKTICK"

definition is_line :: "mysql_parameter_lex_state \<Rightarrow> bool" where
  "is_line st \<longleftrightarrow> st = MYSQL_PARAMETER_LEX_LINE_DASH \<or> st = MYSQL_PARAMETER_LEX_LINE_HASH"

lemma lex_state_cases:
  obtains (code) "st = MYSQL_PARAMETER_LEX_CODE" | (line) "is_line st" | (block) "st = MYSQL_PARAMETER_LEX_BLOCK_COMMENT" | (quoted) "is_quote st"
  by (cases st) (auto simp: is_quote_def is_line_def)

lemma next_token_line:
  "is_line st \<Longrightarrow> next_token nb st ex xs = (Verbatim (take 1 xs), if not_newline (hd xs) then st else MYSQL_PARAMETER_LEX_CODE, ex)"
  by (auto simp: next_token_def is_line_def)

lemma next_token_block:
  "next_token nb MYSQL_PARAMETER_LEX_BLOCK_COMMENT ex xs =
     (if starts [CH_STAR, CH_SLASH] xs then (Verbatim (take 2 xs), MYSQL_PARAMETER_LEX_CODE, ex)
      else (Verbatim (take 1 xs), MYSQL_PARAMETER_LEX_BLOCK_COMMENT, ex))"
  by (simp add: next_token_def)

lemma next_token_quoted:
  "is_quote st \<Longrightarrow> next_token nb st ex xs =
     (if starts [quote_terminator st, quote_terminator st] xs then (Verbatim (take 2 xs), st, ex)
      else if starts [quote_terminator st] xs then (Verbatim (take 1 xs), MYSQL_PARAMETER_LEX_CODE, ex)
      else if starts [CH_BACKSLASH] xs \<and> st \<noteq> MYSQL_PARAMETER_LEX_BACKTICK \<and> \<not> nb then (Verbatim (take 2 xs), st, ex)
      else (Verbatim (take 1 xs), st, ex))"
  unfolding is_quote_def next_token_def Let_def by (elim disjE; simp only: mysql_parameter_lex_state.distinct simp_thms if_True if_False)

lemma starts_simps [simp]:
  "starts [] xs" "\<not> starts (c # p) []" "starts (c # p) (x # xs) \<longleftrightarrow> x = c \<and> starts p xs"
  by (auto simp: starts_def)

lemma starts_length: "starts p xs \<Longrightarrow> length p \<le> length xs"
  by (metis starts_def length_take min.cobounded1)

lemma take_min_length: "take (min (length xs) n) xs = take n xs"
  by (simp add: min_def)

lemma next_token_source:
  assumes "next_token nb st ex xs = (t, st', ex')" and "xs \<noteq> []"
  shows "take (length (token_source t)) xs = token_source t" and "token_source t \<noteq> []"
proof -
  obtain x rest where xs: "xs = x # rest" using assms(2) by (cases xs) auto
  show "take (length (token_source t)) xs = token_source t" "token_source t \<noteq> []"
    using assms(1) unfolding next_token_def Let_def xs
    by (auto split: if_splits simp: takeWhile_eq_take [symmetric] take_min_length)
qed

function lex_sql :: "bool \<Rightarrow> mysql_parameter_lex_state \<Rightarrow> bool \<Rightarrow> bytes \<Rightarrow> sql_token list \<times> mysql_parameter_lex_state \<times> bool" where
  "lex_sql nb st ex xs =
     (if xs = [] then ([], st, ex)
      else case next_token nb st ex xs of (t, st', ex') \<Rightarrow>
        case lex_sql nb st' ex' (drop (length (token_source t)) xs) of (ts, final) \<Rightarrow> (t # ts, final))"
  by auto
termination
  by (relation "measure (\<lambda>(nb, st, ex, xs). length xs)") (auto dest: next_token_source(2) [OF sym])

declare lex_sql.simps [simp del]

lemma lex_sql_source: "concat (map token_source (fst (lex_sql nb st ex xs))) = xs"
proof (induction nb st ex xs rule: lex_sql.induct)
  case (1 nb st ex xs)
  show ?case
  proof (cases "xs = []")
    case True
    then show ?thesis by (simp add: lex_sql.simps)
  next
    case False
    obtain t st' ex' where n: "next_token nb st ex xs = (t, st', ex')" by (metis prod_cases3)
    have "token_source t @ drop (length (token_source t)) xs = xs"
      using next_token_source(1) [OF n False] by (metis append_take_drop_id)
    then show ?thesis using 1 [OF False n [symmetric] refl] False n
      by (subst lex_sql.simps) (auto split: prod.splits)
  qed
qed

text \<open>What lowering does with one token.\<close>

definition after_token :: "nat \<Rightarrow> mysql_parameter_lex_state \<Rightarrow> bool \<Rightarrow> lower_state \<Rightarrow> lower_state" where
  "after_token n st ex s = s\<lparr>low_input := low_input s + n, low_state := st, low_executable := ex\<rparr>"

definition portable_ok :: "u32 \<Rightarrow> bytes \<Rightarrow> bool" where
  "portable_ok m ds \<longleftrightarrow> 1 \<le> decimal_value ds \<and> decimal_value ds \<le> unat m"

definition put_token :: "mysql_parameter_lower_options \<Rightarrow> nat \<Rightarrow> nat \<Rightarrow> sql_token \<times> mysql_parameter_lex_state \<times> bool \<Rightarrow> lower_state \<Rightarrow> lowered" where
  "put_token options capacity bind_capacity = (\<lambda>(t, st, ex) s.
     let emit = lower_emit capacity (Some (token_text t)) (length (token_text t)) (after_token (length (token_source t)) st ex) in
     case t of
       Verbatim xs \<Rightarrow> emit s
     | Native_Marker \<Rightarrow>
         if res_bind_count (low_result s) \<ge> 2 ^ 32 - 1 then (MYSQL_WIRE_STATUS_LIMIT, s)
         else lower_record MYSQL_PARAMETER_STYLE_NATIVE (of_nat (res_bind_count (low_result s)) + 1) options bind_capacity emit s
     | Portable_Marker ds \<Rightarrow>
         if portable_ok (opt_max_parameters options) ds
         then lower_record MYSQL_PARAMETER_STYLE_PORTABLE (of_nat (decimal_value ds)) options bind_capacity emit s
         else (MYSQL_WIRE_STATUS_LIMIT, s))"

lemma byte_at_drop: "byte_at sql (i + k) c = byte_at (drop i sql) k c"
  by (auto simp: byte_at_def)

lemma byte_at_Cons [simp]:
  "byte_at (x # xs) 0 c \<longleftrightarrow> x = c" "byte_at (x # xs) (Suc k) c \<longleftrightarrow> byte_at xs k c" "\<not> byte_at [] k c"
  by (auto simp: byte_at_def)

lemma lower_emit_take: "lower_emit cap (Some xs) n k s = lower_emit cap (Some (take n xs)) n k s"
  by (simp add: lower_emit_def mysql_parameter_emit_def)

lemma lower_emit_cong:
  assumes "take n xs = ys" and "n = m" and "\<And>out used. k (s\<lparr>low_sql := out, low_output := used\<rparr>) = l (s\<lparr>low_sql := out, low_output := used\<rparr>)"
  shows "lower_emit cap (Some xs) n k s = lower_emit cap (Some ys) m l s"
  unfolding assms(1) [symmetric] assms(2) [symmetric] lower_emit_take [of cap xs]
  using assms(3) by (auto simp: lower_emit_def split: prod.splits)

text \<open>The index loop reads the digits of a portable marker.\<close>

lemma foldl_decimal_ge: "n \<le> foldl (\<lambda>n c. n * 10 + (unat (c :: u8) - 48)) n ds"
proof (induction ds arbitrary: n)
  case (Cons d ds)
  have "n \<le> n * 10 + (unat d - 48)" by simp
  also have "\<dots> \<le> foldl (\<lambda>n c. n * 10 + (unat c - 48)) (n * 10 + (unat d - 48)) ds" by (rule Cons)
  finally show ?case by simp
qed simp

lemma digit_step:
  assumes "is_digit c"
  defines "d \<equiv> ucast (c - 0x30) :: u64"
  shows "unat d = unat c - 48" and "v > (- 1 - d) div 10 \<longleftrightarrow> unat v * 10 + (unat c - 48) \<ge> 2 ^ 64"
    and "\<not> v > (- 1 - d) div 10 \<Longrightarrow> unat (v * 10 + d) = unat v * 10 + (unat c - 48)"
proof -
  have c: "48 \<le> unat c" "unat c \<le> 57" using assms(1) by (simp_all add: is_digit_def word_le_nat_alt)
  show d: "unat d = unat c - 48"
    unfolding d_def using assms(1) by (simp add: unat_ucast_up is_digit_def unat_sub)
  have "unat (- 1 - d) = 2 ^ 64 - 1 - (unat c - 48)" using d c by (simp add: unat_sub word_order.extremum unsigned_minus_1_eq_mask mask_eq_exp_minus_1)
  then have m: "unat ((- 1 - d) div 10) = (2 ^ 64 - 1 - (unat c - 48)) div 10" by (simp add: unat_div)
  show *: "v > (- 1 - d) div 10 \<longleftrightarrow> unat v * 10 + (unat c - 48) \<ge> 2 ^ 64"
    unfolding word_less_nat_alt m using c by (simp add: div_less_iff_less_mult) linarith
  show "unat (v * 10 + d) = unat v * 10 + (unat c - 48)" if "\<not> v > (- 1 - d) div 10"
  proof -
    have "unat v * 10 + (unat c - 48) < 2 ^ 64" using that * by simp
    then show ?thesis using d by (simp add: unat_word_ariths)
  qed
qed

lemma portable_index_loop_spec:
  "portable_index_loop sql i v =
     (let ds = takeWhile is_digit (drop i sql); n = foldl (\<lambda>n c. n * 10 + (unat c - 48)) (unat v) ds in
      if n < 2 ^ 64 then Some (of_nat n, i + length ds) else None)"
proof (induction sql i v rule: portable_index_loop.induct)
  case (1 sql i v)
  show ?case
  proof (cases "i < length sql \<and> is_digit (sql ! i)")
    case True
    let ?d = "ucast (sql ! i - 0x30) :: u64"
    have ds: "takeWhile is_digit (drop i sql) = sql ! i # takeWhile is_digit (drop (Suc i) sql)"
      using True by (simp add: Cons_nth_drop_Suc [symmetric])
    show ?thesis
    proof (cases "v > (- 1 - ?d) div 10")
      case overflow: True
      have "2 ^ 64 \<le> unat v * 10 + (unat (sql ! i) - 48)" using digit_step(2) [of "sql ! i" v] True overflow by simp
      then have "2 ^ 64 \<le> foldl (\<lambda>n c. n * 10 + (unat c - 48)) (unat v * 10 + (unat (sql ! i) - 48)) (takeWhile is_digit (drop (Suc i) sql))"
        using foldl_decimal_ge order_trans by blast
      then show ?thesis using True overflow unfolding ds by (subst portable_index_loop.simps) (simp add: Let_def)
    next
      case False
      then show ?thesis using True 1 [OF True refl False] digit_step(3) [OF conjunct2 [OF True] False] unfolding ds
        by (subst portable_index_loop.simps) (simp add: Let_def)
    qed
  next
    case False
    then have "takeWhile is_digit (drop i sql) = []" by (cases "i < length sql") (auto simp: Cons_nth_drop_Suc [symmetric])
    then show ?thesis using False unsigned_less [of v] by (subst portable_index_loop.simps) (auto simp: Let_def)
  qed
qed

lemma parse_portable_index_spec:
  assumes "takeWhile is_digit (drop i sql) = ds" and "ds \<noteq> []"
  shows "mysql_parameter_parse_portable_index (Some sql) i m =
    (if portable_ok m ds then Inr (of_nat (decimal_value ds), i + length ds) else Inl MYSQL_WIRE_STATUS_LIMIT)"
proof -
  have i: "i < length sql" "is_digit (sql ! i)"
    using assms by (cases "i < length sql"; auto simp: Cons_nth_drop_Suc [symmetric] split: if_splits)+
  have loop: "portable_index_loop sql i 0 = (if decimal_value ds < 2 ^ 64 then Some (of_nat (decimal_value ds), i + length ds) else None)"
    by (simp add: portable_index_loop_spec assms(1) Let_def decimal_value_def)
  have m: "unat m < 2 ^ 32" using unsigned_less [of m] by simp
  have "unat (of_nat (decimal_value ds) :: u64) = decimal_value ds \<and> ucast (of_nat (decimal_value ds) :: u64) = (of_nat (decimal_value ds) :: u32)"
    if "decimal_value ds < 2 ^ 64"
    using that by (simp add: unsigned_of_nat take_bit_nat_eq_self)
  then show ?thesis
    using i m unfolding mysql_parameter_parse_portable_index_def portable_ok_def
    by (auto simp: loop word_less_nat_alt unat_eq_0 [symmetric] unat_ucast_up not_less)
qed

text \<open>A step of the loop handles the next token of the remaining text.\<close>

lemma lower_placeholder_is_token:
  assumes d: "drop (low_input s) sql = CH_QUESTION # rest" and "low_state s = MYSQL_PARAMETER_LEX_CODE" and "opt_max_parameters options \<noteq> 0"
  shows "lower_placeholder options sql cap bcap s =
    put_token options cap bcap
      (let ds = takeWhile is_digit rest in (if ds = [] then Native_Marker else Portable_Marker ds, low_state s, low_executable s)) s"
proof -
  have i: "low_input s < length sql" "sql ! low_input s = CH_QUESTION"
    using d by (cases "low_input s < length sql"; simp add: Cons_nth_drop_Suc [symmetric])+
  have rest: "drop (Suc (low_input s)) sql = rest" using d i(1) by (simp add: Cons_nth_drop_Suc [symmetric])
  have digit: "Suc (low_input s) < length sql \<and> is_digit (sql ! Suc (low_input s)) \<longleftrightarrow> takeWhile is_digit rest \<noteq> []"
    unfolding rest [symmetric] by (cases "Suc (low_input s) < length sql") (auto simp: Cons_nth_drop_Suc [symmetric])
  show ?thesis
  proof (cases "takeWhile is_digit rest = []")
    case True
    show ?thesis using True digit i assms(2)
      by (auto simp: lower_placeholder_def put_token_def Let_def lower_record_def after_token_def advance_def
          intro!: lower_emit_cong split: prod.splits)
  next
    case False
    show ?thesis using False digit i assms(2) parse_portable_index_spec [of "Suc (low_input s)" sql, unfolded rest, OF refl False]
      by (auto simp: lower_placeholder_def put_token_def Let_def lower_record_def after_token_def
          intro!: lower_emit_cong split: prod.splits)
  qed
qed

lemma put_token_if: "put_token options cap bcap (if b then x else y) s = (if b then put_token options cap bcap x s else put_token options cap bcap y s)"
  by simp

lemma put_token_Verbatim:
  "put_token options cap bcap (Verbatim xs, st, ex) s = lower_emit cap (Some xs) (length xs) (after_token (length xs) st ex) s"
  by (simp add: put_token_def)

lemma lower_step_is_token:
  assumes "low_input s < length sql" and "opt_max_parameters options \<noteq> 0"
  shows "lower_step options sql cap bcap s =
    put_token options cap bcap
      (next_token (opt_no_backslash_escapes options) (low_state s) (low_executable s) (drop (low_input s) sql)) s"
proof -
  obtain c rest where d: "drop (low_input s) sql = c # rest" using assms(1) by (metis Cons_nth_drop_Suc)
  have c: "sql ! low_input s = c" using d assms(1) by (metis Cons_nth_drop_Suc list.inject)
  have at: "byte_at sql (low_input s) x \<longleftrightarrow> c = x" "byte_at sql (low_input s + 1) x \<longleftrightarrow> byte_at rest 0 x"
    "byte_at sql (low_input s + 2) x \<longleftrightarrow> byte_at rest 1 x" for x
    using byte_at_drop [of sql "low_input s" 0] byte_at_drop [of sql "low_input s" 1] byte_at_drop [of sql "low_input s" 2]
    by (simp_all add: d numeral_2_eq_2)
  have n: "length sql = low_input s + Suc (length rest)" using arg_cong [OF d, of length] assms(1) by auto
  have len: "low_input s + 1 < length sql \<longleftrightarrow> rest \<noteq> []" "low_input s + 2 = length sql \<longleftrightarrow> length rest = 1"
    unfolding n by auto
  have third: "sql ! (low_input s + 2) = rest ! 1" if "byte_at rest 0 x" "length rest \<noteq> 1" for x
    using that nth_drop [of "low_input s" sql 2] assms(1) by (simp add: d numeral_2_eq_2)
  show ?thesis
  proof (cases "low_state s = MYSQL_PARAMETER_LEX_CODE")
    case True
    have marker: "c = CH_QUESTION \<Longrightarrow> lower_placeholder options sql cap bcap s =
        put_token options cap bcap (if takeWhile is_digit rest = [] then Native_Marker else Portable_Marker (takeWhile is_digit rest),
          MYSQL_PARAMETER_LEX_CODE, low_executable s) s"
      using lower_placeholder_is_token [OF _ True assms(2)] d True by (simp add: Let_def)
    have dash: "byte_at rest 0 CH_DASH \<and> (low_input s + 2 = length sql \<or> mysql_parameter_is_space (sql ! (low_input s + 2))) \<longleftrightarrow>
        starts [CH_DASH] rest \<and> list_all mysql_parameter_is_space (take 1 (drop 1 rest))"
      using third [of CH_DASH] unfolding len by (cases rest; cases "tl rest") auto
    have byte: "byte_at rest 0 x \<longleftrightarrow> starts [x] rest" "starts [x] rest \<and> byte_at rest 1 y \<longleftrightarrow> starts [x, y] rest" for x y
      by (cases rest; cases "tl rest"; auto)+
    have st: "starts (x # p) (c # rest) \<longleftrightarrow> c = x \<and> starts p rest" "starts [] rest" for x p by simp_all
    have short: "starts [CH_STAR] rest \<Longrightarrow> min (length rest) (Suc 0) = Suc 0" "starts [CH_SLASH] rest \<Longrightarrow> min (length rest) (Suc 0) = Suc 0"
      "starts [CH_DASH] rest \<Longrightarrow> min (length rest) (Suc 0) = Suc 0" "starts [CH_STAR, CH_BANG] rest \<Longrightarrow> min (length rest) 2 = 2"
      using starts_length [of _ rest] by fastforce+
    have two: "drop 2 (c # rest) = drop 1 rest" by (simp add: numeral_2_eq_2)
    show ?thesis
      unfolding lower_step_def lower_code_def Let_def c at dash
      unfolding byte next_token_def d put_token_if Let_def st two
      by (simp only: True mysql_parameter_lex_state.distinct simp_thms if_True if_False drop_Suc_Cons drop_0 One_nat_def)
         (intro if_cong refl; (rule marker | (unfold put_token_Verbatim, rule lower_emit_cong)?);
            simp add: after_token_def advance_def enter_def True short)
  next
    case False
    show ?thesis
    proof (cases "low_state s" rule: lex_state_cases)
      case line
      then show ?thesis unfolding next_token_line [OF line] put_token_Verbatim lower_step_def is_line_def
        by (auto simp: lower_line_comment_def c d Let_def after_token_def advance_def enter_def not_newline_def intro!: lower_emit_cong)
    next
      case block
      then show ?thesis unfolding block next_token_block put_token_Verbatim put_token_if lower_step_def lower_block_comment_def at d c Let_def
        by (cases rest) (auto intro!: lower_emit_cong simp: block after_token_def advance_def enter_def)
    next
      case quoted
      then have "lower_step options sql cap bcap s = lower_quoted options sql cap s"
        by (auto simp: lower_step_def is_quote_def)
      then show ?thesis unfolding next_token_quoted [OF quoted] put_token_Verbatim put_token_if lower_quoted_def at d c Let_def len
        by (cases rest) (auto intro!: lower_emit_cong simp: after_token_def advance_def enter_def)
    qed (use False in simp)
  qed
qed

section \<open>When lowering succeeds\<close>

fun marker_style :: "sql_token \<Rightarrow> mysql_parameter_style" where
  "marker_style (Verbatim xs) = MYSQL_PARAMETER_STYLE_NONE" |
  "marker_style Native_Marker = MYSQL_PARAMETER_STYLE_NATIVE" |
  "marker_style (Portable_Marker ds) = MYSQL_PARAMETER_STYLE_PORTABLE"

definition is_marker :: "sql_token \<Rightarrow> bool" where
  "is_marker t \<longleftrightarrow> marker_style t \<noteq> MYSQL_PARAMETER_STYLE_NONE"

text \<open>The index a marker binds when \<open>k\<close> markers come before it.\<close>

fun marker_index :: "nat \<Rightarrow> sql_token \<Rightarrow> nat" where
  "marker_index k (Portable_Marker ds) = decimal_value ds" |
  "marker_index k t = k + 1"

definition render :: "sql_token list \<Rightarrow> bytes" where
  "render ts = concat (map token_text ts)"

fun bindings :: "nat \<Rightarrow> sql_token list \<Rightarrow> nat list" where
  "bindings k [] = []" |
  "bindings k (t # ts) = (if is_marker t then marker_index k t # bindings (k + 1) ts else bindings k ts)"

fun style_after :: "mysql_parameter_style \<Rightarrow> sql_token list \<Rightarrow> mysql_parameter_style" where
  "style_after style [] = style" |
  "style_after style (t # ts) = style_after (if is_marker t then marker_style t else style) ts"

text \<open>What has to hold of a token, given the style and the number of the markers before it.\<close>

definition token_ok :: "mysql_parameter_lower_options \<Rightarrow> nat \<Rightarrow> mysql_parameter_style \<Rightarrow> nat \<Rightarrow> sql_token \<Rightarrow> bool" where
  "token_ok options bind_capacity style k t \<longleftrightarrow>
     (is_marker t \<longrightarrow> (style = MYSQL_PARAMETER_STYLE_NONE \<or> style = marker_style t) \<and>
        k < bind_capacity \<and> k < unat (opt_max_parameters options) \<and>
        1 \<le> marker_index k t \<and> marker_index k t \<le> unat (opt_max_parameters options))"

fun tokens_ok :: "mysql_parameter_lower_options \<Rightarrow> nat \<Rightarrow> nat \<Rightarrow> mysql_parameter_style \<Rightarrow> nat \<Rightarrow> nat \<Rightarrow> sql_token list \<Rightarrow> bool" where
  "tokens_ok options cap bcap style k used [] \<longleftrightarrow> True" |
  "tokens_ok options cap bcap style k used (t # ts) \<longleftrightarrow>
     token_ok options bcap style k t \<and> used + length (token_text t) \<le> cap \<and>
     tokens_ok options cap bcap (if is_marker t then marker_style t else style) (if is_marker t then k + 1 else k)
       (used + length (token_text t)) ts"

definition markers :: "sql_token list \<Rightarrow> nat" where
  "markers ts = length (filter is_marker ts)"

text \<open>The state after the tokens.\<close>

definition after_tokens :: "sql_token list \<Rightarrow> mysql_parameter_lex_state \<Rightarrow> bool \<Rightarrow> lower_state \<Rightarrow> lower_state" where
  "after_tokens ts st ex s =
     \<lparr>low_state = st, low_executable = ex, low_input = low_input s + length (concat (map token_source ts)),
      low_output = low_output s + length (render ts), low_sql = memcpy (low_sql s) (low_output s) (render ts),
      low_bind = memcpy (low_bind s) (res_bind_count (low_result s)) (map of_nat (bindings (res_bind_count (low_result s)) ts)),
      low_result = \<lparr>res_style = style_after (res_style (low_result s)) ts, res_bind_count = res_bind_count (low_result s) + markers ts\<rparr>\<rparr>"

definition room :: "nat \<Rightarrow> nat \<Rightarrow> lower_state \<Rightarrow> bool" where
  "room cap bcap s \<longleftrightarrow> low_output s \<le> cap \<and> cap \<le> length (low_sql s) \<and>
     res_bind_count (low_result s) \<le> bcap \<and> bcap \<le> length (low_bind s)"

lemma render_simps [simp]: "render [] = []" "render (t # ts) = token_text t @ render ts"
  by (simp_all add: render_def)

lemma markers_simps [simp]: "markers [] = 0" "markers (t # ts) = (if is_marker t then Suc (markers ts) else markers ts)"
  by (simp_all add: markers_def)

lemma is_marker_simps [simp]: "\<not> is_marker (Verbatim xs)" "is_marker Native_Marker" "is_marker (Portable_Marker ds)"
  by (simp_all add: is_marker_def)

lemma length_bindings [simp]: "length (bindings k ts) = markers ts"
  by (induction ts arbitrary: k) auto

lemma lower_emit_result:
  assumes "room cap bcap s"
  shows "lower_emit cap (Some xs) (length xs) continue s =
    (if low_output s + length xs \<le> cap
     then (MYSQL_WIRE_STATUS_OK, continue (s\<lparr>low_sql := memcpy (low_sql s) (low_output s) xs, low_output := low_output s + length xs\<rparr>))
     else (MYSQL_WIRE_STATUS_LIMIT, s))"
  using assms by (cases xs) (auto simp: room_def lower_emit_def mysql_parameter_emit_def)

lemma after_one_token:
  "after_tokens [t] st ex s =
     after_token (length (token_source t)) st ex
       (s\<lparr>low_bind := (if is_marker t then memcpy (low_bind s) (res_bind_count (low_result s)) [of_nat (marker_index (res_bind_count (low_result s)) t)] else low_bind s),
          low_result := (if is_marker t then \<lparr>res_style = marker_style t, res_bind_count = res_bind_count (low_result s) + 1\<rparr> else low_result s),
          low_sql := memcpy (low_sql s) (low_output s) (token_text t), low_output := low_output s + length (token_text t)\<rparr>)"
  by (cases s) (simp add: after_tokens_def after_token_def)

lemma put_token_result:
  assumes "room cap bcap s" and m: "opt_max_parameters options \<noteq> 0"
  shows "put_token options cap bcap (t, st, ex) s = (MYSQL_WIRE_STATUS_OK, u) \<longleftrightarrow>
    token_ok options bcap (res_style (low_result s)) (res_bind_count (low_result s)) t \<and>
    low_output s + length (token_text t) \<le> cap \<and> u = after_tokens [t] st ex s"
proof -
  let ?k = "res_bind_count (low_result s)" and ?m = "opt_max_parameters options"
  have room: "room cap bcap (s\<lparr>low_bind := (low_bind s)[k := i], low_result := r\<rparr>)" if "res_bind_count r \<le> bcap" for k i r
    using assms(1) that by (simp add: room_def)
  have max: "unat ?m < 2 ^ 32" using unsigned_less [of ?m] by simp
  have recorded: "lower_record (marker_style t) i options bcap (lower_emit cap (Some [CH_QUESTION]) 1 (after_token n st ex)) s = (MYSQL_WIRE_STATUS_OK, u) \<longleftrightarrow>
      (i \<noteq> 0 \<and> i \<le> ?m \<and> (res_style (low_result s) = MYSQL_PARAMETER_STYLE_NONE \<or> res_style (low_result s) = marker_style t) \<and>
       ?k < bcap \<and> ?k < unat ?m) \<and> low_output s + 1 \<le> cap \<and>
      u = after_token n st ex (s\<lparr>low_bind := memcpy (low_bind s) ?k [i], low_result := \<lparr>res_style = marker_style t, res_bind_count = ?k + 1\<rparr>,
            low_sql := memcpy (low_sql s) (low_output s) [CH_QUESTION], low_output := low_output s + 1\<rparr>)" for i n
    using assms(1) m lower_emit_result [OF room, of \<open>\<lparr>res_style = marker_style t, res_bind_count = ?k + 1\<rparr>\<close> "[CH_QUESTION]" "after_token n st ex" ?k i]
    by (auto simp: lower_record_def mysql_parameter_record_def room_def list_update_is_memcpy not_less not_le split: if_splits)
  show ?thesis
  proof (cases t)
    case (Verbatim xs)
    then show ?thesis
      using lower_emit_result [OF assms(1)] by (auto simp: put_token_def token_ok_def after_one_token)
  next
    case Native_Marker
    have k: "unat (of_nat ?k + 1 :: u32) = ?k + 1" if "?k < 2 ^ 32 - 1"
      using that by (simp add: unat_word_ariths unsigned_of_nat take_bit_nat_eq_self)
    then have index: "of_nat ?k + 1 \<noteq> (0 :: u32) \<and> (of_nat ?k + 1 \<le> ?m \<longleftrightarrow> ?k < unat ?m)" if "?k < 2 ^ 32 - 1"
      using that by (auto simp: word_le_nat_alt)
    show ?thesis
      using Native_Marker max recorded [unfolded Native_Marker marker_style.simps] index
      by (auto simp: put_token_def token_ok_def after_one_token add.commute)
  next
    case (Portable_Marker ds)
    have index: "of_nat (decimal_value ds) \<noteq> (0 :: u32) \<and> of_nat (decimal_value ds) \<le> ?m" if "portable_ok ?m ds"
      using that max by (auto simp: portable_ok_def word_le_nat_alt unsigned_of_nat take_bit_nat_eq_self unat_eq_0 [symmetric])
    show ?thesis
      using Portable_Marker recorded [unfolded Portable_Marker marker_style.simps] index
      by (auto simp: put_token_def token_ok_def after_one_token portable_ok_def)
  qed
qed

lemma after_tokens_Nil: "after_tokens [] (low_state s) (low_executable s) s = s"
  by (simp add: after_tokens_def)

lemma after_tokens_Cons:
  assumes "room cap bcap s" and "token_ok options bcap (res_style (low_result s)) (res_bind_count (low_result s)) t"
    and "low_output s + length (token_text t) \<le> cap"
  shows "after_tokens ts st' ex' (after_tokens [t] st ex s) = after_tokens (t # ts) st' ex' s"
    and "room cap bcap (after_tokens [t] st ex s)"
  using assms memcpy_memcpy [of "low_output s" "token_text t" "low_sql s" "render ts"]
    memcpy_memcpy [of "res_bind_count (low_result s)" "[of_nat (marker_index (res_bind_count (low_result s)) t)]" "low_bind s"]
  by (auto simp: after_tokens_def room_def token_ok_def ac_simps)

lemma lower_loop_result:
  assumes "room cap bcap s" and "low_input s \<le> length sql" and "opt_max_parameters options \<noteq> 0"
    and "lex_sql (opt_no_backslash_escapes options) (low_state s) (low_executable s) (drop (low_input s) sql) = (ts, st, ex)"
  shows "lower_loop options sql cap bcap s = (MYSQL_WIRE_STATUS_OK, u) \<longleftrightarrow>
    tokens_ok options cap bcap (res_style (low_result s)) (res_bind_count (low_result s)) (low_output s) ts \<and> u = after_tokens ts st ex s"
  using assms
proof (induction ts arbitrary: s)
  case Nil
  then have "\<not> low_input s < length sql" by (auto simp: lex_sql.simps [of _ _ _ "drop _ _"] split: if_splits prod.splits)
  then show ?case using Nil after_tokens_Nil [of s] by (auto simp: lower_loop.simps [of _ _ _ _ s] lex_sql.simps [of _ _ _ "[]"])
next
  case (Cons t ts)
  let ?nb = "opt_no_backslash_escapes options" and ?xs = "drop (low_input s) sql"
  have i: "low_input s < length sql" using Cons.prems(2,4) by (auto simp: lex_sql.simps [of _ _ _ "[]"] le_less)
  obtain st1 ex1 where n: "next_token ?nb (low_state s) (low_executable s) ?xs = (t, st1, ex1)"
    and rest: "lex_sql ?nb st1 ex1 (drop (length (token_source t)) ?xs) = (ts, st, ex)"
    using Cons.prems(4) i by (auto simp: lex_sql.simps [of _ _ _ ?xs] split: prod.splits)
  have src: "length (token_source t) \<le> length ?xs"
    using next_token_source(1) [OF n] i by (metis Cons_nth_drop_Suc length_take list.distinct(1) min.cobounded1)
  let ?s = "after_tokens [t] st1 ex1 s"
  have step: "lower_step options sql cap bcap s = put_token options cap bcap (t, st1, ex1) s"
    using lower_step_is_token [OF i Cons.prems(3)] n by simp
  show ?case
  proof (cases "token_ok options bcap (res_style (low_result s)) (res_bind_count (low_result s)) t \<and> low_output s + length (token_text t) \<le> cap")
    case True
    then have "lower_step options sql cap bcap s = (MYSQL_WIRE_STATUS_OK, ?s)"
      unfolding step using put_token_result [OF Cons.prems(1,3)] by blast
    then have loop: "lower_loop options sql cap bcap s = lower_loop options sql cap bcap ?s"
      using i by (simp add: lower_loop.simps [of _ _ _ _ s])
    note after = after_tokens_Cons [OF Cons.prems(1) conjunct1 [OF True] conjunct2 [OF True]]
    have "lower_loop options sql cap bcap ?s = (MYSQL_WIRE_STATUS_OK, u) \<longleftrightarrow>
        tokens_ok options cap bcap (res_style (low_result ?s)) (res_bind_count (low_result ?s)) (low_output ?s) ts \<and> u = after_tokens ts st ex ?s"
      using rest src i by (intro Cons.IH after(2) Cons.prems(3)) (auto simp: after_tokens_def ac_simps)
    then show ?thesis unfolding loop after(1) using True by (auto simp: after_tokens_def)
  next
    case False
    have "fst (lower_step options sql cap bcap s) \<noteq> MYSQL_WIRE_STATUS_OK"
      unfolding step using put_token_result [OF Cons.prems(1,3)] False by (metis prod.collapse)
    then show ?thesis using False i by (auto simp: lower_loop.simps [of _ _ _ _ s] split: prod.splits)
  qed
qed

text \<open>The conditions collected: room for the text and the bindings, one style, indexes in range.\<close>

definition one_style :: "sql_token list \<Rightarrow> bool" where
  "one_style ts \<longleftrightarrow> (\<forall>t\<in>set ts. \<forall>u\<in>set ts. is_marker t \<and> is_marker u \<longrightarrow> marker_style t = marker_style u)"

definition lowerable :: "mysql_parameter_lower_options \<Rightarrow> nat \<Rightarrow> nat \<Rightarrow> sql_token list \<Rightarrow> bool" where
  "lowerable options cap bcap ts \<longleftrightarrow>
     length (render ts) \<le> cap \<and> markers ts \<le> bcap \<and> markers ts \<le> unat (opt_max_parameters options) \<and> one_style ts \<and>
     list_all (\<lambda>n. 1 \<le> n \<and> n \<le> unat (opt_max_parameters options)) (bindings 0 ts)"

lemma styles_Cons:
  "one_style (t # ts) \<and> (\<forall>u\<in>set (t # ts). is_marker u \<longrightarrow> style = MYSQL_PARAMETER_STYLE_NONE \<or> marker_style u = style) \<longleftrightarrow>
   (if is_marker t then (style = MYSQL_PARAMETER_STYLE_NONE \<or> marker_style t = style) \<and> one_style ts \<and>
        (\<forall>u\<in>set ts. is_marker u \<longrightarrow> marker_style u = marker_style t)
    else one_style ts \<and> (\<forall>u\<in>set ts. is_marker u \<longrightarrow> style = MYSQL_PARAMETER_STYLE_NONE \<or> marker_style u = style))"
proof (cases "is_marker t")
  case True
  then have "one_style (t # ts) \<longleftrightarrow> (\<forall>u\<in>set ts. is_marker u \<longrightarrow> marker_style u = marker_style t)"
    unfolding one_style_def by (auto; metis)
  moreover have "one_style ts" if "\<forall>u\<in>set ts. is_marker u \<longrightarrow> marker_style u = marker_style t"
    using that by (simp add: one_style_def)
  ultimately show ?thesis using True by auto
next
  case False
  then have "one_style (t # ts) \<longleftrightarrow> one_style ts" by (auto simp: one_style_def)
  then show ?thesis using False by simp
qed

fun styles_ok :: "mysql_parameter_style \<Rightarrow> sql_token list \<Rightarrow> bool" where
  "styles_ok style [] \<longleftrightarrow> True" |
  "styles_ok style (t # ts) \<longleftrightarrow>
     (if is_marker t then (style = MYSQL_PARAMETER_STYLE_NONE \<or> style = marker_style t) \<and> styles_ok (marker_style t) ts
      else styles_ok style ts)"

lemma styles_ok_iff:
  "styles_ok style ts \<longleftrightarrow> one_style ts \<and> (\<forall>t\<in>set ts. is_marker t \<longrightarrow> style = MYSQL_PARAMETER_STYLE_NONE \<or> marker_style t = style)"
proof (induction ts arbitrary: style)
  case (Cons t ts)
  have "is_marker t \<Longrightarrow> marker_style t \<noteq> MYSQL_PARAMETER_STYLE_NONE" by (simp add: is_marker_def)
  then show ?case unfolding styles_Cons by (auto simp: Cons)
qed (simp add: one_style_def)

lemma tokens_ok_iff:
  assumes "used \<le> cap" and "k \<le> bcap" and "k \<le> unat (opt_max_parameters options)"
  shows "tokens_ok options cap bcap style k used ts \<longleftrightarrow>
    used + length (render ts) \<le> cap \<and> k + markers ts \<le> bcap \<and> k + markers ts \<le> unat (opt_max_parameters options) \<and>
    styles_ok style ts \<and> list_all (\<lambda>n. 1 \<le> n \<and> n \<le> unat (opt_max_parameters options)) (bindings k ts)"
  using assms
proof (induction ts arbitrary: style k used)
  case (Cons t ts)
  show ?case
  proof (cases "token_ok options bcap style k t \<and> used + length (token_text t) \<le> cap")
    case True
    then show ?thesis using Cons.prems
      by (cases "is_marker t") (simp_all add: Cons.IH token_ok_def add.assoc Suc_le_eq)
  next
    case False
    then show ?thesis by (auto simp: token_ok_def)
  qed
qed auto

lemma tokens_ok_start: "tokens_ok options cap bcap MYSQL_PARAMETER_STYLE_NONE 0 0 ts \<longleftrightarrow> lowerable options cap bcap ts"
  by (simp add: tokens_ok_iff lowerable_def styles_ok_iff)

definition left_open :: "mysql_parameter_lex_state \<Rightarrow> bool \<Rightarrow> bool" where
  "left_open st ex \<longleftrightarrow> is_quote st \<or> st = MYSQL_PARAMETER_LEX_BLOCK_COMMENT \<or> ex"

lemma lower_success:
  assumes "cap \<le> length out" and "bcap \<le> length bind" and "opt_max_parameters opts \<noteq> 0"
    and "lex_sql (opt_no_backslash_escapes opts) MYSQL_PARAMETER_LEX_CODE False sql = (ts, st, ex)"
  shows "lowered_status (mysql_parameter_lower (Some sql) (Some opts) (Some out) cap (Some bind) bcap) = MYSQL_WIRE_STATUS_OK \<longleftrightarrow>
      lowerable opts cap bcap ts \<and> \<not> left_open st ex"
    and "lowerable opts cap bcap ts \<and> \<not> left_open st ex \<Longrightarrow>
      mysql_parameter_lower (Some sql) (Some opts) (Some out) cap (Some bind) bcap =
        \<lparr>lowered_status = MYSQL_WIRE_STATUS_OK, lowered_sql = Some (memcpy out 0 (render ts)), lowered_size = Some (length (render ts)),
         lowered_bind = Some (memcpy bind 0 (map of_nat (bindings 0 ts))),
         lowered_result = Some \<lparr>res_style = style_after MYSQL_PARAMETER_STYLE_NONE ts, res_bind_count = markers ts\<rparr>\<rparr>"
    and "lowered_status (mysql_parameter_lower (Some sql) (Some opts) (Some out) cap (Some bind) bcap) \<noteq> MYSQL_WIRE_STATUS_OK \<Longrightarrow>
      lowered_size (mysql_parameter_lower (Some sql) (Some opts) (Some out) cap (Some bind) bcap) = Some 0"
proof -
  let ?s = "lower_start out bind"
  have room: "room cap bcap ?s" using assms(1,2) by (simp add: room_def lower_start_def)
  have loop: "lower_loop opts sql cap bcap ?s = (MYSQL_WIRE_STATUS_OK, u) \<longleftrightarrow> lowerable opts cap bcap ts \<and> u = after_tokens ts st ex ?s" for u
    using lower_loop_result [OF room _ assms(3), of sql ts st ex u] assms(4) tokens_ok_start by (simp add: lower_start_def)
  have fin: "lower_unfinished (after_tokens ts st ex ?s) \<longleftrightarrow> left_open st ex"
    by (auto simp: lower_unfinished_def after_tokens_def left_open_def is_quote_def)
  show ok: "mysql_parameter_lower (Some sql) (Some opts) (Some out) cap (Some bind) bcap =
        \<lparr>lowered_status = MYSQL_WIRE_STATUS_OK, lowered_sql = Some (memcpy out 0 (render ts)), lowered_size = Some (length (render ts)),
         lowered_bind = Some (memcpy bind 0 (map of_nat (bindings 0 ts))),
         lowered_result = Some \<lparr>res_style = style_after MYSQL_PARAMETER_STYLE_NONE ts, res_bind_count = markers ts\<rparr>\<rparr>"
    if "lowerable opts cap bcap ts \<and> \<not> left_open st ex"
    using that assms(3) fin loop [of "after_tokens ts st ex ?s"]
    by (simp add: mysql_parameter_lower_def Let_def) (simp add: after_tokens_def lower_start_def)
  have fail: "lowered_status (mysql_parameter_lower (Some sql) (Some opts) (Some out) cap (Some bind) bcap) \<noteq> MYSQL_WIRE_STATUS_OK"
    if "\<not> (lowerable opts cap bcap ts \<and> \<not> left_open st ex)"
    using that assms(3) fin loop by (auto simp: mysql_parameter_lower_def Let_def split: prod.splits)
  show "lowered_status (mysql_parameter_lower (Some sql) (Some opts) (Some out) cap (Some bind) bcap) = MYSQL_WIRE_STATUS_OK \<longleftrightarrow>
      lowerable opts cap bcap ts \<and> \<not> left_open st ex"
    using ok fail by fastforce
  show "lowered_size (mysql_parameter_lower (Some sql) (Some opts) (Some out) cap (Some bind) bcap) = Some 0"
    if "lowered_status (mysql_parameter_lower (Some sql) (Some opts) (Some out) cap (Some bind) bcap) \<noteq> MYSQL_WIRE_STATUS_OK"
    using that assms(3) by (auto simp: mysql_parameter_lower_def Let_def split: prod.splits if_splits)
qed

section \<open>Lowering the result again\<close>

lemma lex_sql_Nil [simp]: "lex_sql nb st ex [] = ([], st, ex)"
  by (simp add: lex_sql.simps)

lemma lex_sql_step:
  assumes "next_token nb st ex xs = (t, st', ex')" and "xs \<noteq> []"
  shows "lex_sql nb st ex xs = (t # fst (lex_sql nb st' ex' (drop (length (token_source t)) xs)), snd (lex_sql nb st' ex' (drop (length (token_source t)) xs)))"
  using assms by (subst lex_sql.simps) (simp split: prod.splits)

text \<open>The rendering of a text begins with its first byte.\<close>

lemma next_token_text: "next_token nb st ex (c # xs) = (t, st', ex') \<Longrightarrow> take 1 (token_text t) = [c]"
  unfolding next_token_def by (auto simp: Let_def split: if_splits)

lemma render_first: "xs \<noteq> [] \<Longrightarrow> \<exists>ys. render (fst (lex_sql nb st ex xs)) = hd xs # ys"
proof (cases xs)
  case (Cons c rest)
  obtain t st' ex' where n: "next_token nb st ex (c # rest) = (t, st', ex')" by (metis prod_cases3)
  then show ?thesis using next_token_text [OF n] lex_sql_step [OF n] Cons by (cases "token_text t") auto
qed simp

lemma render_second:
  assumes "next_token nb st ex xs = (Verbatim v, st', ex')" and "xs \<noteq> []"
  shows "take 2 (render (fst (lex_sql nb st ex xs))) = take 2 xs"
proof -
  let ?rest = "drop (length v) xs" and ?r = "render (fst (lex_sql nb st' ex' (drop (length v) xs)))"
  have xs: "v @ ?rest = xs" "v \<noteq> []" using next_token_source [OF assms] by (metis append_take_drop_id token_source.simps(1))+
  have first: "take 1 ?r = take 1 ?rest" using render_first [of ?rest nb st' ex'] by (cases ?rest) auto
  have "take (2 - length v) ?r = take (2 - length v) ?rest"
    using first xs(2) by (cases v; cases "tl v") auto
  then have "take 2 (v @ ?r) = take 2 (v @ ?rest)" by simp
  then show ?thesis using lex_sql_step [OF assms] xs(1) by simp
qed

definition native :: "sql_token \<Rightarrow> sql_token" where
  "native t = (if is_marker t then Native_Marker else t)"

lemma starts_first: "take 1 xs = take 1 ys \<Longrightarrow> starts [c] xs \<longleftrightarrow> starts [c] ys"
  by (cases xs; cases ys) auto

lemma next_token_code:
  "next_token nb MYSQL_PARAMETER_LEX_CODE ex (CH_STAR # r) =
     (if ex \<and> starts [CH_SLASH] r then (Verbatim (CH_STAR # take 1 r), MYSQL_PARAMETER_LEX_CODE, False)
      else (Verbatim [CH_STAR], MYSQL_PARAMETER_LEX_CODE, ex))"
  "next_token nb MYSQL_PARAMETER_LEX_CODE ex (CH_SLASH # r) =
     (if starts [CH_STAR, CH_BANG] r then (Verbatim (CH_SLASH # take 2 r), MYSQL_PARAMETER_LEX_CODE, True)
      else if starts [CH_STAR] r then (Verbatim (CH_SLASH # take 1 r), MYSQL_PARAMETER_LEX_BLOCK_COMMENT, ex)
      else (Verbatim [CH_SLASH], MYSQL_PARAMETER_LEX_CODE, ex))"
  "next_token nb MYSQL_PARAMETER_LEX_CODE ex (CH_DASH # r) =
     (if starts [CH_DASH] r \<and> list_all mysql_parameter_is_space (take 1 (drop 1 r))
      then (Verbatim (CH_DASH # take 1 r), MYSQL_PARAMETER_LEX_LINE_DASH, ex)
      else (Verbatim [CH_DASH], MYSQL_PARAMETER_LEX_CODE, ex))"
  "next_token nb MYSQL_PARAMETER_LEX_CODE ex (CH_QUESTION # r) =
     (if takeWhile is_digit r = [] then Native_Marker else Portable_Marker (takeWhile is_digit r), MYSQL_PARAMETER_LEX_CODE, ex)"
  by (simp_all add: next_token_def Let_def)

lemma next_token_plain:
  "c \<notin> {CH_STAR, CH_SLASH, CH_DASH, CH_QUESTION} \<Longrightarrow> next_token nb MYSQL_PARAMETER_LEX_CODE ex (c # r) =
     (Verbatim [c],
      if c = CH_HASH then MYSQL_PARAMETER_LEX_LINE_HASH else if c = CH_SINGLE then MYSQL_PARAMETER_LEX_SINGLE_QUOTE
      else if c = CH_DOUBLE then MYSQL_PARAMETER_LEX_DOUBLE_QUOTE else if c = CH_BACKTICK then MYSQL_PARAMETER_LEX_BACKTICK
      else MYSQL_PARAMETER_LEX_CODE, ex)"
  by (simp add: next_token_def)

lemma starts_hd: "starts (c # p) xs \<Longrightarrow> starts [c] xs"
  by (cases xs) auto

text \<open>
  The lexer looks at most one byte past a token, and two past a dash that opens no comment, so it finds
  the same token before a text that agrees with the original that far.
\<close>

lemma next_token_again:
  assumes n: "next_token nb st ex xs = (t, st', ex')" and "xs \<noteq> []"
    and first: "take 1 ys = take 1 (drop (length (token_source t)) xs)"
    and second: "st = MYSQL_PARAMETER_LEX_CODE \<and> starts [CH_DASH, CH_DASH] xs \<and> t = Verbatim [CH_DASH] \<Longrightarrow> take 2 ys = take 2 (drop 1 xs)"
  shows "next_token nb st ex (token_text t @ ys) = (native t, st', ex')"
proof -
  obtain c rest where xs: "xs = c # rest" using assms(2) by (cases xs) auto
  show ?thesis
  proof (cases st rule: lex_state_cases)
    case line
    then show ?thesis using n by (auto simp: next_token_line xs native_def)
  next
    case block
    show ?thesis
      using n first starts_first [OF first] unfolding block next_token_block xs
      by (cases rest) (auto simp: next_token_block native_def split: if_splits)
  next
    case quoted
    show ?thesis
      using n first starts_first [OF first] unfolding next_token_quoted [OF quoted] xs
      by (cases rest) (auto simp: next_token_quoted [OF quoted] native_def split: if_splits)
  next
    case code
    consider "c = CH_STAR" | "c = CH_SLASH" | "c = CH_DASH" | "c = CH_QUESTION" | "c \<notin> {CH_STAR, CH_SLASH, CH_DASH, CH_QUESTION}" by auto
    then show ?thesis
    proof cases
      case 1
      show ?thesis using n starts_first [OF first, of CH_SLASH] unfolding xs code 1 next_token_code
        by (cases rest) (auto simp: next_token_code native_def split: if_splits)
    next
      case 2
      show ?thesis using n starts_first [OF first, of CH_STAR] starts_first [OF first, of CH_BANG] unfolding xs code 2 next_token_code
        by (cases rest; cases "tl rest") (auto simp: next_token_code native_def split: if_splits dest: starts_hd)
    next
      case 3
      show ?thesis
        using n first second unfolding xs code 3 next_token_code
        by (cases rest; cases "tl rest"; cases ys; cases "tl ys")
           (auto simp: next_token_code native_def split: if_splits)
    next
      case 4
      have "takeWhile is_digit ys = []" if "take 1 ys = take 1 (dropWhile is_digit rest)"
        using that hd_dropWhile [of is_digit rest] by (cases ys; cases "dropWhile is_digit rest") auto
      moreover have "takeWhile is_digit rest = [] \<Longrightarrow> dropWhile is_digit rest = rest" by (metis append_Nil takeWhile_dropWhile_id)
      ultimately show ?thesis using n first unfolding xs code 4 next_token_code
        by (auto simp: next_token_code native_def dropWhile_eq_drop [symmetric] split: if_splits)
    next
      case 5
      show ?thesis using n unfolding xs code next_token_plain [OF 5] by (auto simp: next_token_plain [OF 5] native_def)
    qed
  qed
qed

lemma lex_sql_render:
  "lex_sql nb st ex (render (fst (lex_sql nb st ex xs))) = (map native (fst (lex_sql nb st ex xs)), snd (lex_sql nb st ex xs))"
proof (induction nb st ex xs rule: lex_sql.induct)
  case (1 nb st ex xs)
  show ?case
  proof (cases "xs = []")
    case False
    obtain t st' ex' where n: "next_token nb st ex xs = (t, st', ex')" by (metis prod_cases3)
    let ?rest = "drop (length (token_source t)) xs"
    let ?ys = "render (fst (lex_sql nb st' ex' ?rest))"
    note step = lex_sql_step [OF n False]
    have ih: "lex_sql nb st' ex' ?ys = (map native (fst (lex_sql nb st' ex' ?rest)), snd (lex_sql nb st' ex' ?rest))"
      using 1 [OF False n [symmetric] refl] .
    have first: "take 1 ?ys = take 1 ?rest" using render_first [of ?rest nb st' ex'] by (cases ?rest) auto
    have second: "take 2 ?ys = take 2 (drop 1 xs)"
      if dash: "st = MYSQL_PARAMETER_LEX_CODE \<and> starts [CH_DASH, CH_DASH] xs \<and> t = Verbatim [CH_DASH]"
    proof -
      obtain r where xs: "xs = CH_DASH # CH_DASH # r" using dash by (cases xs; cases "tl xs") auto
      have "st' = MYSQL_PARAMETER_LEX_CODE" using n dash by (auto simp: next_token_def xs split: if_splits)
      then obtain v st2 ex2 where "next_token nb st' ex' ?rest = (Verbatim v, st2, ex2)"
        using dash next_token_code(3) [of nb ex' r] by (auto simp: xs split: if_splits)
      then show ?thesis using render_second [of nb st' ex' ?rest] dash xs by simp
    qed
    have again: "next_token nb st ex (token_text t @ ?ys) = (native t, st', ex')"
      by (rule next_token_again [OF n False first second])
    have src: "token_source (native t) = token_text t" by (cases t) (simp_all add: native_def)
    have "token_text t \<noteq> []" using next_token_source(2) [OF n False] by (cases t) auto
    then show ?thesis using lex_sql_step [OF again] step ih src by simp
  qed simp
qed

lemma native_simps [simp]: "is_marker (native t) = is_marker t" "token_text (native t) = token_text t"
  by (cases t; simp add: native_def)+

lemma native_tokens [simp]:
  "render (map native ts) = render ts" "markers (map native ts) = markers ts"
  "bindings k (map native ts) = [Suc k..<Suc k + markers ts]" "one_style (map native ts)"
proof -
  show "render (map native ts) = render ts" "markers (map native ts) = markers ts" by (induction ts) auto
  show "bindings k (map native ts) = [Suc k..<Suc k + markers ts]"
  proof (induction ts arbitrary: k)
    case (Cons t ts)
    then show ?case by (cases t) (auto simp: native_def upt_conv_Cons)
  qed simp
  show "one_style (map native ts)" by (auto simp: one_style_def native_def)
qed

section \<open>Bounds\<close>

definition index_ok :: "mysql_parameter_lower_options \<Rightarrow> u32 \<Rightarrow> bool" where
  "index_ok options i \<longleftrightarrow> 1 \<le> i \<and> i \<le> opt_max_parameters options"

text \<open>
  The invariant of the loop, for a call with arrays \<open>out\<close> and \<open>bind\<close>: the cursors are in range, the
  arrays keep their lengths and, from the cursors on, their contents, and every index recorded is valid.
\<close>

definition lower_inv :: "mysql_parameter_lower_options \<Rightarrow> bytes \<Rightarrow> nat \<Rightarrow> nat \<Rightarrow> bytes \<Rightarrow> u32 list \<Rightarrow> lower_state \<Rightarrow> bool" where
  "lower_inv options sql cap bcap out bind s \<longleftrightarrow>
     (let k = res_bind_count (low_result s) in
      low_input s \<le> length sql \<and> low_output s \<le> low_input s \<and> low_output s \<le> cap \<and>
      length (low_sql s) = length out \<and> drop (low_output s) (low_sql s) = drop (low_output s) out \<and>
      k \<le> bcap \<and> k \<le> unat (opt_max_parameters options) \<and>
      length (low_bind s) = length bind \<and> drop k (low_bind s) = drop k bind \<and> list_all (index_ok options) (take k (low_bind s)))"

lemma drop_memcpy: "off + length xs \<le> length buf \<Longrightarrow> drop (off + length xs) (memcpy buf off xs) = drop (off + length xs) buf"
  by (simp add: memcpy_def)

lemma drop_mono: "drop k xs = drop k ys \<Longrightarrow> k \<le> n \<Longrightarrow> drop n xs = drop n ys"
  by (metis drop_drop le_add_diff_inverse2)

lemma lower_emit_inv:
  assumes inv: "lower_inv options sql cap bcap out bind s" and "cap \<le> length out" and "bcap \<le> length bind"
    and emit: "lower_emit cap (Some xs) (length xs) (after_token n st ex) s = (status, u)"
    and "length xs \<le> n" and "low_input s + n \<le> length sql"
  shows "lower_inv options sql cap bcap out bind u"
proof (cases "low_output s + length xs \<le> cap")
  case True
  have "room cap bcap s" using assms(1-3) by (simp add: room_def lower_inv_def Let_def)
  then have u: "u = after_token n st ex (s\<lparr>low_sql := memcpy (low_sql s) (low_output s) xs, low_output := low_output s + length xs\<rparr>)"
    using emit True by (simp add: lower_emit_result)
  have "drop (low_output s + length xs) (low_sql s) = drop (low_output s + length xs) out"
    using inv by (auto simp: lower_inv_def Let_def intro: drop_mono)
  then have "drop (low_output s + length xs) (memcpy (low_sql s) (low_output s) xs) = drop (low_output s + length xs) out"
    using True inv assms(2) by (simp add: drop_memcpy lower_inv_def Let_def)
  then show ?thesis
    using True assms(1,2,5,6) by (auto simp: u after_token_def lower_inv_def Let_def)
next
  case False
  then have "u = s" using emit by (auto simp: lower_emit_def mysql_parameter_emit_def split: if_splits)
  then show ?thesis using inv by simp
qed

lemma lower_record_inv:
  assumes "lower_inv options sql cap bcap out bind s" and "bcap \<le> length bind"
    and "lower_record style i options bcap continue s = (status, u)"
    and "\<And>v. lower_inv options sql cap bcap out bind v \<Longrightarrow> low_input v = low_input s \<Longrightarrow> continue v = (status, u) \<Longrightarrow> lower_inv options sql cap bcap out bind u"
  shows "lower_inv options sql cap bcap out bind u"
proof (cases "fst (mysql_parameter_record style i options (low_bind s) bcap (low_result s)) = MYSQL_WIRE_STATUS_OK")
  case True
  let ?k = "res_bind_count (low_result s)"
  let ?v = "s\<lparr>low_bind := (low_bind s)[?k := i], low_result := \<lparr>res_style = style, res_bind_count = ?k + 1\<rparr>\<rparr>"
  have ok: "i \<noteq> 0" "i \<le> opt_max_parameters options" "?k < bcap" "?k < unat (opt_max_parameters options)"
    and u: "continue ?v = (status, u)"
    using True assms(3) by (auto simp: lower_record_def mysql_parameter_record_def not_less not_le split: if_splits)
  have "index_ok options i" using ok(1,2) by (auto simp: index_ok_def word_le_nat_alt unat_eq_0 [symmetric] Suc_le_eq)
  moreover have "drop (Suc ?k) (low_bind s) = drop (Suc ?k) bind" using assms(1) by (auto simp: lower_inv_def Let_def intro: drop_mono)
  ultimately have "lower_inv options sql cap bcap out bind ?v"
    using assms(1,2) ok by (auto simp: lower_inv_def Let_def take_Suc_conv_app_nth)
  then show ?thesis using assms(4) u by simp
next
  case False
  then have "u = s" using assms(3) by (auto simp: lower_record_def split: prod.splits)
  then show ?thesis using assms(1) by simp
qed

lemma put_token_inv:
  assumes inv: "lower_inv options sql cap bcap out bind s" and "cap \<le> length out" and "bcap \<le> length bind"
    and "put_token options cap bcap (t, st, ex) s = (status, u)" and "length (token_source t) \<le> length (drop (low_input s) sql)"
  shows "lower_inv options sql cap bcap out bind u"
proof -
  have len: "length (token_text t) \<le> length (token_source t)" by (cases t) auto
  have room: "low_input s + length (token_source t) \<le> length sql" using assms(5) inv by (auto simp: lower_inv_def Let_def)
  let ?emit = "lower_emit cap (Some (token_text t)) (length (token_text t)) (after_token (length (token_source t)) st ex)"
  have emit: "lower_inv options sql cap bcap out bind u"
    if "lower_inv options sql cap bcap out bind v" "low_input v = low_input s" "?emit v = (status, u)" for v
    using lower_emit_inv [OF that(1) assms(2,3) that(3) len] that(2) room by simp
  then show ?thesis
    using assms(4) inv lower_record_inv [OF inv assms(3), of _ _ ?emit status u] emit
    by (cases t) (auto simp: put_token_def split: if_splits)
qed

lemma lower_loop_inv:
  assumes "lower_inv options sql cap bcap out bind s" and "cap \<le> length out" and "bcap \<le> length bind"
    and "opt_max_parameters options \<noteq> 0" and "lower_loop options sql cap bcap s = (status, u)"
  shows "lower_inv options sql cap bcap out bind u"
  using assms
proof (induction options sql cap bcap s rule: lower_loop.induct)
  case (1 options sql cap bcap s)
  show ?case
  proof (cases "low_input s < length sql")
    case True
    obtain t st ex where n: "next_token (opt_no_backslash_escapes options) (low_state s) (low_executable s) (drop (low_input s) sql) = (t, st, ex)"
      by (metis prod_cases3)
    have src: "length (token_source t) \<le> length (drop (low_input s) sql)"
      using next_token_source(1) [OF n] True by (metis drop_eq_Nil length_take min.cobounded1 not_le)
    obtain status' s' where step: "lower_step options sql cap bcap s = (status', s')" by fastforce
    have "put_token options cap bcap (t, st, ex) s = (status', s')"
      using lower_step_is_token [OF True "1.prems"(4)] n step by simp
    then have "lower_inv options sql cap bcap out bind s'"
      using put_token_inv [OF "1.prems"(1-3)] src by blast
    then show ?thesis using 1 True step by (auto simp: lower_loop.simps [of _ _ _ _ s] split: if_splits)
  next
    case False
    then show ?thesis using "1.prems" by (auto simp: lower_loop.simps [of _ _ _ _ s])
  qed
qed

section \<open>Properties\<close>

lemma lower_needs_parameters:
  "lowered_status (mysql_parameter_lower (Some sql) (Some opts) (Some out) cap (Some bind) bcap) = MYSQL_WIRE_STATUS_OK \<Longrightarrow>
   opt_max_parameters opts \<noteq> 0"
  by (auto simp: mysql_parameter_lower_def Let_def split: if_splits)

lemma style_after_native: "style_after style (map native ts) = (if markers ts = 0 then style else MYSQL_PARAMETER_STYLE_NATIVE)"
  by (induction ts arbitrary: style) (auto simp: native_def)

lemma lower_start_inv:
  "lower_inv opts sql cap bcap out bind (lower_start out bind)"
  by (simp add: lower_inv_def lower_start_def)

text \<open>
  C29. \<open>mysql_parameter_lower\<close> agrees with the reference lexer: with \<open>max_parameters\<close> not zero it succeeds exactly when the text ends outside
  every string, quoted identifier, block comment and executable comment, its markers are all of one style and at most \<open>max_parameters\<close>, there is
  room for the rendered text and for the bindings, and every index lies between 1 and \<open>max_parameters\<close>.  It then
  has written the rendering of the tokens, the binding order, the style and the number of markers, and
  otherwise \<open>*out_size\<close> is 0.
\<close>

theorem parameter_lower_correct:
  assumes "cap \<le> length out" and "bcap \<le> length bind" and "opt_max_parameters opts \<noteq> 0"
  shows "case lex_sql (opt_no_backslash_escapes opts) MYSQL_PARAMETER_LEX_CODE False sql of (ts, st, ex) \<Rightarrow>
    if lowerable opts cap bcap ts \<and> \<not> left_open st ex
    then mysql_parameter_lower (Some sql) (Some opts) (Some out) cap (Some bind) bcap =
      \<lparr>lowered_status = MYSQL_WIRE_STATUS_OK, lowered_sql = Some (memcpy out 0 (render ts)), lowered_size = Some (length (render ts)),
       lowered_bind = Some (memcpy bind 0 (map of_nat (bindings 0 ts))),
       lowered_result = Some \<lparr>res_style = style_after MYSQL_PARAMETER_STYLE_NONE ts, res_bind_count = markers ts\<rparr>\<rparr>
    else lowered_status (mysql_parameter_lower (Some sql) (Some opts) (Some out) cap (Some bind) bcap) \<noteq> MYSQL_WIRE_STATUS_OK \<and>
      lowered_size (mysql_parameter_lower (Some sql) (Some opts) (Some out) cap (Some bind) bcap) = Some 0"
proof -
  obtain ts st ex where l: "lex_sql (opt_no_backslash_escapes opts) MYSQL_PARAMETER_LEX_CODE False sql = (ts, st, ex)" by (metis prod_cases3)
  show ?thesis using lower_success [OF assms l] by (simp add: l)
qed

definition example_options :: mysql_parameter_lower_options where
  "example_options = \<lparr>opt_ansi_quotes = False, opt_no_backslash_escapes = False, opt_max_parameters = 4\<rparr>"

definition example_text :: bytes where
  "example_text = ascii ''a=?2 or '' @ [CH_SINGLE] @ ascii ''?'' @ [CH_SINGLE] @ ascii ''>?1''"

definition example_lowered :: bytes where
  "example_lowered = ascii ''a=? or '' @ [CH_SINGLE] @ ascii ''?'' @ [CH_SINGLE] @ ascii ''>?''"

definition example_tokens :: "sql_token list" where
  "example_tokens =
     map (\<lambda>c. Verbatim [c]) (ascii ''a='') @ Portable_Marker (ascii ''2'') #
     map (\<lambda>c. Verbatim [c]) (ascii '' or '' @ [CH_SINGLE] @ ascii ''?'' @ [CH_SINGLE] @ ascii ''>'') @ [Portable_Marker (ascii ''1'')]"

lemma example_lex:
  "lex_sql (opt_no_backslash_escapes example_options) MYSQL_PARAMETER_LEX_CODE False example_text =
     (example_tokens, MYSQL_PARAMETER_LEX_CODE, False)"
  by code_simp

lemma example_lowerable:
  "lowerable example_options 16 2 example_tokens \<and> \<not> left_open MYSQL_PARAMETER_LEX_CODE False"
  "render example_tokens = example_lowered" "length example_lowered = 12"
  "memcpy [0, 0] 0 (map of_nat (bindings 0 example_tokens)) = ([2, 1] :: u32 list)"
  "style_after MYSQL_PARAMETER_STYLE_NONE example_tokens = MYSQL_PARAMETER_STYLE_PORTABLE" "markers example_tokens = 2"
  "opt_max_parameters example_options \<noteq> 0"
  by code_simp+

theorem parameter_lower_correct_witness:
  "mysql_parameter_lower (Some example_text) (Some example_options) (Some (replicate 16 0)) 16 (Some [0, 0]) 2 =
     \<lparr>lowered_status = MYSQL_WIRE_STATUS_OK, lowered_sql = Some (memcpy (replicate 16 0) 0 example_lowered), lowered_size = Some 12,
      lowered_bind = Some [2, 1], lowered_result = Some \<lparr>res_style = MYSQL_PARAMETER_STYLE_PORTABLE, res_bind_count = 2\<rparr>\<rparr>"
  using parameter_lower_correct [of 16 "replicate 16 0" 2 "[0, 0]" example_options example_text]
  by (simp add: example_lex example_lowerable)

text \<open>
  C30. Lowering is idempotent: the text it produces is accepted again, comes out unchanged, and its markers
  bind 1, 2, 3, \<dots> in order.  The rewriting has thus neither introduced nor removed a marker, and has not
  opened or closed a string or comment.
\<close>

theorem lowering_again_changes_nothing:
  assumes "cap \<le> length out" and "bcap \<le> length bind" and "cap \<le> length out2" and "bcap \<le> length bind2"
    and "mysql_parameter_lower (Some sql) (Some opts) (Some out) cap (Some bind) bcap =
      \<lparr>lowered_status = MYSQL_WIRE_STATUS_OK, lowered_sql = Some out', lowered_size = Some n, lowered_bind = Some bind', lowered_result = Some res\<rparr>"
  shows "mysql_parameter_lower (Some (take n out')) (Some opts) (Some out2) cap (Some bind2) bcap =
    \<lparr>lowered_status = MYSQL_WIRE_STATUS_OK, lowered_sql = Some (memcpy out2 0 (take n out')), lowered_size = Some n,
     lowered_bind = Some (memcpy bind2 0 (map of_nat [1..<1 + res_bind_count res])),
     lowered_result = Some \<lparr>res_style = (if res_bind_count res = 0 then MYSQL_PARAMETER_STYLE_NONE else MYSQL_PARAMETER_STYLE_NATIVE),
                            res_bind_count = res_bind_count res\<rparr>\<rparr>"
proof -
  let ?nb = "opt_no_backslash_escapes opts"
  obtain ts st ex where l: "lex_sql ?nb MYSQL_PARAMETER_LEX_CODE False sql = (ts, st, ex)" by (metis prod_cases3)
  have m: "opt_max_parameters opts \<noteq> 0" using lower_needs_parameters assms(5) by (metis lower_outcome.select_convs(1))
  have ok: "lowerable opts cap bcap ts \<and> \<not> left_open st ex"
    using lower_success(1) [OF assms(1,2) m l] assms(5) by simp
  have r: "out' = memcpy out 0 (render ts)" "n = length (render ts)" "res_bind_count res = markers ts"
    using lower_success(2) [OF assms(1,2) m l ok] assms(5) by auto
  have whole: "take n out' = render ts" unfolding r by (simp add: memcpy_def)
  have again: "lex_sql ?nb MYSQL_PARAMETER_LEX_CODE False (render ts) = (map native ts, st, ex)"
    using lex_sql_render [of ?nb MYSQL_PARAMETER_LEX_CODE False sql] l by simp
  have "lowerable opts cap bcap (map native ts) \<and> \<not> left_open st ex"
    using ok by (auto simp: lowerable_def list_all_iff)
  from lower_success(2) [OF assms(3,4) m again this] show ?thesis
    unfolding whole unfolding r(2,3) by (simp add: style_after_native)
qed

theorem lowering_again_changes_nothing_witness:
  "mysql_parameter_lower (Some example_lowered) (Some example_options) (Some (replicate 16 0)) 16 (Some [0, 0]) 2 =
     \<lparr>lowered_status = MYSQL_WIRE_STATUS_OK, lowered_sql = Some (memcpy (replicate 16 0) 0 example_lowered), lowered_size = Some 12,
      lowered_bind = Some [1, 2], lowered_result = Some \<lparr>res_style = MYSQL_PARAMETER_STYLE_NATIVE, res_bind_count = 2\<rparr>\<rparr>"
proof -
  have first: "mysql_parameter_lower (Some example_text) (Some example_options) (Some (replicate 16 0)) 16 (Some [0, 0]) 2 =
     \<lparr>lowered_status = MYSQL_WIRE_STATUS_OK, lowered_sql = Some (memcpy (replicate 16 0) 0 example_lowered), lowered_size = Some 12,
      lowered_bind = Some [2, 1], lowered_result = Some \<lparr>res_style = MYSQL_PARAMETER_STYLE_PORTABLE, res_bind_count = 2\<rparr>\<rparr>"
    using lower_success(2) [OF _ _ _ example_lex, of 16 "replicate 16 0" 2 "[0, 0]"] by (simp add: example_lowerable)
  have vals: "take 12 (memcpy (replicate 16 0) 0 example_lowered) = example_lowered"
    "memcpy [0, 0] 0 (map of_nat [1..<1 + 2]) = ([1, 2] :: u32 list)" by code_simp+
  show ?thesis
    using lowering_again_changes_nothing [OF _ _ _ _ first, of "replicate 16 0" "[0, 0]"] vals by simp
qed

text \<open>
  C31. Whatever the text and the outcome, lowering stays inside the arrays: they keep their lengths and their
  contents from the two capacities on, the size reported is at most the capacity and at most the length of the text, and every
  recorded binding, also of a call that fails half way, is an index between 1 and \<open>max_parameters\<close>.
\<close>

theorem parameter_lower_in_bounds:
  assumes "cap \<le> length out" and "bcap \<le> length bind" and "opt_max_parameters opts \<noteq> 0"
  shows "\<exists>status out' n bind' res.
    mysql_parameter_lower (Some sql) (Some opts) (Some out) cap (Some bind) bcap =
      \<lparr>lowered_status = status, lowered_sql = Some out', lowered_size = Some n, lowered_bind = Some bind', lowered_result = Some res\<rparr> \<and>
    length out' = length out \<and> drop cap out' = drop cap out \<and> n \<le> cap \<and> n \<le> length sql \<and>
    length bind' = length bind \<and> drop bcap bind' = drop bcap bind \<and>
    res_bind_count res \<le> bcap \<and> list_all (index_ok opts) (take (res_bind_count res) bind')"
proof -
  obtain status s where loop: "lower_loop opts sql cap bcap (lower_start out bind) = (status, s)" by fastforce
  have inv: "lower_inv opts sql cap bcap out bind s"
    using lower_loop_inv [OF lower_start_inv assms loop] .
  have "\<exists>st n. mysql_parameter_lower (Some sql) (Some opts) (Some out) cap (Some bind) bcap =
      \<lparr>lowered_status = st, lowered_sql = Some (low_sql s), lowered_size = Some n, lowered_bind = Some (low_bind s), lowered_result = Some (low_result s)\<rparr> \<and>
      (n = 0 \<or> n = low_output s)"
    using assms(3) by (simp add: mysql_parameter_lower_def loop Let_def)
  then show ?thesis using inv by (fastforce simp: lower_inv_def Let_def elim: drop_mono)
qed

theorem parameter_lower_in_bounds_witness:
  "\<exists>status out' n bind' res.
    mysql_parameter_lower (Some example_text) (Some example_options) (Some (replicate 16 0)) 8 (Some [0, 7]) 1 =
      \<lparr>lowered_status = status, lowered_sql = Some out', lowered_size = Some n, lowered_bind = Some bind', lowered_result = Some res\<rparr> \<and>
    length out' = 16 \<and> drop 8 out' = drop 8 (replicate 16 0) \<and> n \<le> 8 \<and> length bind' = 2 \<and> drop 1 bind' = [7]"
  using parameter_lower_in_bounds [of 8 "replicate 16 0" 1 "[0, 7]" example_options example_text]
  by (fastforce simp: example_options_def)

end
