(* ===== verification/Mysql_Transaction.thy ===== *)
theory Mysql_Transaction
  imports Mysql_Lowering
begin

text \<open>
  Transaction control on the client: the guard \<open>mysql_sql_reject_managed_transaction\<close> of
  \<open>src/mysql/parameters.c\<close> against the texts it is meant to find, and the savepoint statements that
  \<open>src/mysql/transaction_control.c\<close> builds.

  The guard is specified on a text of the form blanks and comments, a word, anything else.  The built
  statements are put through the guard and through the lowering of \<open>Mysql_Lowering\<close>.
\<close>

section \<open>Savepoint statements\<close>

text \<open>The C enum as its integer, so that the default branch is there.\<close>

type_synonym mysql_savepoint_control = u32

abbreviation (input) "MYSQL_SAVEPOINT_CREATE \<equiv> 0 :: u32"
abbreviation (input) "MYSQL_SAVEPOINT_ROLLBACK_TO \<equiv> 1 :: u32"
abbreviation (input) "MYSQL_SAVEPOINT_RELEASE \<equiv> 2 :: u32"
abbreviation (input) "MYSQL_SAVEPOINT_NAME_MAX \<equiv> 64 :: nat"

definition mysql_savepoint_identifier_start :: "u8 \<Rightarrow> bool" where
  "mysql_savepoint_identifier_start v \<longleftrightarrow> v \<ge> 0x61 \<and> v \<le> 0x7a \<or> v \<ge> 0x41 \<and> v \<le> 0x5a \<or> v = 0x5f"

definition mysql_savepoint_identifier_continue :: "u8 \<Rightarrow> bool" where
  "mysql_savepoint_identifier_continue v \<longleftrightarrow> mysql_savepoint_identifier_start v \<or> v \<ge> 0x30 \<and> v \<le> 0x39"

definition mysql_savepoint_prefix :: "mysql_savepoint_control \<Rightarrow> mysql_wire_status + bytes" where
  "mysql_savepoint_prefix control =
     (if control = MYSQL_SAVEPOINT_CREATE then Inr (ascii ''SAVEPOINT '' @ [CH_BACKTICK])
      else if control = MYSQL_SAVEPOINT_ROLLBACK_TO then Inr (ascii ''ROLLBACK TO SAVEPOINT '' @ [CH_BACKTICK])
      else if control = MYSQL_SAVEPOINT_RELEASE then Inr (ascii ''RELEASE SAVEPOINT '' @ [CH_BACKTICK])
      else Inl MYSQL_WIRE_STATUS_INVALID)"

text \<open>The result is the status, the output array and \<open>*out_size\<close>; the name is a pointer with its size.\<close>

definition mysql_transaction_build_savepoint_control ::
    "mysql_savepoint_control \<Rightarrow> ptr \<Rightarrow> nat \<Rightarrow> ptr \<Rightarrow> nat \<Rightarrow> mysql_wire_status \<times> ptr \<times> nat" where
  "mysql_transaction_build_savepoint_control control name name_size out out_capacity =
     (case (name, out) of
        (Some nm, Some d) \<Rightarrow>
          if name_size = 0 \<or> name_size > MYSQL_SAVEPOINT_NAME_MAX then (MYSQL_WIRE_STATUS_INVALID, out, 0)
          else if \<not> mysql_savepoint_identifier_start (nm ! 0) then (MYSQL_WIRE_STATUS_INVALID, out, 0)
          else if list_ex (\<lambda>i. \<not> mysql_savepoint_identifier_continue (nm ! i)) [1..<name_size] then (MYSQL_WIRE_STATUS_INVALID, out, 0)
          else (case mysql_savepoint_prefix control of
                  Inl status \<Rightarrow> (status, out, 0)
                | Inr prefix \<Rightarrow>
                    if length prefix > SIZE_MAX - name_size - 1 then (MYSQL_WIRE_STATUS_LIMIT, out, 0)
                    else let required = length prefix + name_size + 1 in
                      if required > out_capacity then (MYSQL_WIRE_STATUS_LIMIT, out, 0)
                      else (MYSQL_WIRE_STATUS_OK,
                            Some ((memcpy (memcpy d 0 prefix) (length prefix) (take name_size nm))[length prefix + name_size := 0x60]),
                            required))
      | _ \<Rightarrow> (MYSQL_WIRE_STATUS_INVALID, out, 0))"


section \<open>The guard\<close>

text \<open>Blanks and complete comments, in any number.\<close>

fun no_close :: "bytes \<Rightarrow> bool" where
  "no_close (x # y # ys) \<longleftrightarrow> \<not> (x = CH_STAR \<and> y = CH_SLASH) \<and> no_close (y # ys)" |
  "no_close xs \<longleftrightarrow> True"

inductive trivia :: "bytes \<Rightarrow> bool" where
  trivia_Nil: "trivia []" |
  trivia_space: "mysql_parameter_is_space c \<Longrightarrow> trivia xs \<Longrightarrow> trivia (c # xs)" |
  trivia_hash: "list_all not_newline b \<Longrightarrow> \<not> not_newline n \<Longrightarrow> trivia xs \<Longrightarrow> trivia (CH_HASH # b @ n # xs)" |
  trivia_dash: "list_all not_newline b \<Longrightarrow> list_all mysql_parameter_is_space (take 1 b) \<Longrightarrow> \<not> not_newline n \<Longrightarrow> trivia xs \<Longrightarrow>
    trivia (CH_DASH # CH_DASH # b @ n # xs)" |
  trivia_block: "no_close b \<Longrightarrow> \<not> starts [CH_BANG] b \<Longrightarrow> trivia xs \<Longrightarrow> trivia (CH_SLASH # CH_STAR # b @ CH_STAR # CH_SLASH # xs)"

lemma scan_while_eq: "scan_while p sql i = i + length (takeWhile p (drop i sql))"
proof (induction p sql i rule: scan_while.induct)
  case (1 p sql i)
  show ?case
  proof (cases "i < length sql")
    case True
    then show ?thesis using 1 by (subst scan_while.simps) (auto simp: Cons_nth_drop_Suc [symmetric])
  qed (subst scan_while.simps, simp)
qed

lemma comment_end_eq:
  "no_close b \<Longrightarrow> drop e sql = b @ CH_STAR # CH_SLASH # rest \<Longrightarrow> comment_end sql e = e + length b"
proof (induction b arbitrary: e)
  case Nil
  have "e < length sql" "e + 1 < length sql" using arg_cong [OF Nil(2), of length] by auto
  then have "sql ! e = CH_STAR" "sql ! (e + 1) = CH_SLASH" using Nil(2) by (metis append_Nil nth_Cons_0 nth_drop add_0_right nth_Cons_Suc One_nat_def less_imp_le)+
  then show ?case by (subst comment_end.simps) simp
next
  case (Cons x b)
  have len: "e + 1 < length sql" using arg_cong [OF Cons(3), of length] by auto
  have x: "sql ! e = x" using Cons(3) len by (metis Cons_nth_drop_Suc Suc_eq_plus1 Suc_lessD append_Cons list.inject)
  have rest: "drop (Suc e) sql = b @ CH_STAR # CH_SLASH # rest" using Cons(3) len by (metis Cons_nth_drop_Suc Suc_eq_plus1 Suc_lessD append_Cons list.inject)
  have y: "sql ! (e + 1) = hd (b @ [CH_STAR])" using rest len by (cases b) (metis Cons_nth_drop_Suc Suc_eq_plus1 append_Cons append_Nil list.inject list.sel(1))+
  have "\<not> (sql ! e = CH_STAR \<and> sql ! (e + 1) = CH_SLASH)" using Cons(2) unfolding x y by (cases b) auto
  moreover have "no_close b" using Cons(2) by (cases b) auto
  ultimately show ?case using Cons.IH [OF _ rest] len by (subst comment_end.simps) simp
qed

lemma skip_leading_space:
  assumes "i < length sql" and "mysql_parameter_is_space (sql ! i)"
  shows "skip_leading sql i = skip_leading sql (i + 1)"
proof -
  have "scan_while mysql_parameter_is_space sql i = scan_while mysql_parameter_is_space sql (i + 1)"
    using assms by (subst scan_while.simps) simp
  then show ?thesis by (subst (1 2) skip_leading.simps) simp
qed

lemma newline_is_space: "\<not> not_newline n \<Longrightarrow> mysql_parameter_is_space n"
  by (auto simp: not_newline_def mysql_parameter_is_space_def)

lemma takeWhile_line: "list_all p b \<Longrightarrow> \<not> p n \<Longrightarrow> takeWhile p (b @ n # xs) = b"
  by (induction b) auto

lemma drop_after: "drop i sql = xs @ ys \<Longrightarrow> drop (i + length xs) sql = ys"
  by (metis add.commute append_eq_conv_conj drop_drop)

lemma nth_at: "drop i sql = x # xs \<Longrightarrow> i < length sql \<and> sql ! i = x"
  by (metis Cons_nth_drop_Suc drop_all linorder_not_less list.distinct(1) list.inject)

lemma nth_two:
  assumes "drop i sql = x # y # zs"
  shows "i < length sql \<and> sql ! i = x" and "i + 1 < length sql \<and> sql ! (i + 1) = y" and "drop (i + 2) sql = zs"
  using nth_at [OF assms] nth_at [OF drop_after [of i sql "[x]" "y # zs"]] drop_after [of i sql "[x, y]" zs] assms by simp_all

lemma nth_hd: "drop i sql = b @ n # xs \<Longrightarrow> i < length sql \<and> sql ! i = hd (b @ [n])"
  by (cases b) (auto dest!: nth_at)

lemma scan_while_stop: "i < length sql \<Longrightarrow> \<not> p (sql ! i) \<Longrightarrow> scan_while p sql i = i"
  by (subst scan_while.simps) simp

lemma skip_leading_line:
  assumes d: "drop i sql = b @ n # xs" and "list_all not_newline b" and "\<not> not_newline n"
  shows "skip_leading sql (scan_while not_newline sql i) = skip_leading sql (i + length b + 1)"
proof -
  have "scan_while not_newline sql i = i + length b" unfolding scan_while_eq d using takeWhile_line [OF assms(2,3)] by simp
  moreover have "i + length b < length sql \<and> sql ! (i + length b) = n" by (rule nth_at [OF drop_after [OF d]])
  ultimately show ?thesis using skip_leading_space [of "i + length b" sql] newline_is_space [OF assms(3)] by simp
qed

lemma skip_leading_trivia:
  "trivia t \<Longrightarrow> drop i sql = t @ rest \<Longrightarrow> skip_leading sql i = skip_leading sql (i + length t)"
proof (induction t arbitrary: i rule: trivia.induct)
  case trivia_Nil
  then show ?case by simp
next
  case (trivia_space c xs)
  have "i < length sql \<and> sql ! i = c" "drop (i + 1) sql = xs @ rest"
    using nth_at [of i sql c "xs @ rest"] drop_after [of i sql "[c]" "xs @ rest"] trivia_space(4) by auto
  then show ?case using skip_leading_space [of i sql] trivia_space(1) trivia_space(3) [of "i + 1"] by simp
next
  case (trivia_hash b n xs)
  have at: "i < length sql \<and> sql ! i = CH_HASH" using nth_at [of i sql CH_HASH "b @ n # xs @ rest"] trivia_hash(5) by simp
  have line: "drop i sql = (CH_HASH # b) @ n # xs @ rest" and after: "drop (i + length b + 2) sql = xs @ rest"
    using trivia_hash(5) drop_after [of i sql "CH_HASH # b @ [n]" "xs @ rest"] by (auto simp: ac_simps)
  have "skip_leading sql i = skip_leading sql (scan_while not_newline sql i)"
    using at by (subst skip_leading.simps) (simp add: scan_while_stop mysql_parameter_is_space_def)
  also have "\<dots> = skip_leading sql (i + length b + 2)"
    using skip_leading_line [OF line] trivia_hash(1,2) by (simp add: not_newline_def)
  also have "\<dots> = skip_leading sql (i + length b + 2 + length xs)" by (rule trivia_hash(4) [OF after])
  finally show ?case by (simp add: ac_simps)
next
  case (trivia_dash b n xs)
  have "drop i sql = CH_DASH # CH_DASH # b @ n # xs @ rest" using trivia_dash(6) by simp
  note two = nth_two [OF this]
  note at = two(1,2) nth_hd [OF two(3)]
  have space: "mysql_parameter_is_space (hd (b @ [n]))"
    using trivia_dash(2) newline_is_space [OF trivia_dash(3)] by (cases b) auto
  have after: "drop (i + 2 + length b + 1) sql = xs @ rest"
    using drop_after [of "i + 2" sql "b @ [n]" "xs @ rest"] two(3) by simp
  have "skip_leading sql i = skip_leading sql (scan_while not_newline sql (i + 2))"
    using at space by (subst skip_leading.simps) (simp add: scan_while_stop mysql_parameter_is_space_def)
  also have "\<dots> = skip_leading sql (i + 2 + length b + 1)"
    by (rule skip_leading_line [OF two(3) trivia_dash(1,3)])
  also have "\<dots> = skip_leading sql (i + 2 + length b + 1 + length xs)" by (rule trivia_dash(5) [OF after])
  finally show ?case by (simp add: ac_simps)
next
  case (trivia_block b xs)
  have "drop i sql = CH_SLASH # CH_STAR # b @ CH_STAR # CH_SLASH # xs @ rest" using trivia_block(5) by simp
  note two = nth_two [OF this]
  note at = two(1,2) nth_hd [OF two(3)]
  have bang: "\<not> byte_at sql (i + 2) CH_BANG" using at(3) trivia_block(2) by (cases b) (auto simp: byte_at_def)
  have after: "drop (i + 2 + length b + 2) sql = xs @ rest"
    using drop_after [of "i + 2" sql "b @ [CH_STAR, CH_SLASH]" "xs @ rest"] two(3) by simp
  have ce: "comment_end sql (i + 2) = i + 2 + length b" by (rule comment_end_eq [OF trivia_block(1) two(3)])
  have "i + 2 + length b + 1 < length sql" using arg_cong [OF two(3), of length] by auto
  then have "skip_leading sql i = skip_leading sql (i + 2 + length b + 2)"
    using at bang ce by (subst skip_leading.simps) (simp add: scan_while_stop mysql_parameter_is_space_def Let_def)
  also have "\<dots> = skip_leading sql (i + 2 + length b + 2 + length xs)" by (rule trivia_block(4) [OF after])
  finally show ?case by (simp add: ac_simps)
qed

lemma skip_leading_word:
  assumes "i < length sql" and "mysql_sql_is_alpha (sql ! i)"
  shows "skip_leading sql i = Inr i"
proof -
  have "sql ! i \<notin> {CH_SPACE, CH_TAB, CH_CR, CH_LF, CH_FF, CH_HASH, CH_DASH, CH_SLASH}"
    using assms(2) by (auto simp: mysql_sql_is_alpha_def)
  then show ?thesis using assms(1) by (subst skip_leading.simps) (simp add: scan_while_stop mysql_parameter_is_space_def)
qed

lemma keyword_equal_loop_eq:
  "i \<le> stop \<Longrightarrow> stop \<le> length sql \<Longrightarrow> keyword_equal_loop sql i stop k \<longleftrightarrow> map mysql_sql_upper (take (stop - i) (drop i sql)) = k"
proof (induction k arbitrary: i)
  case (Cons c k)
  show ?case
  proof (cases "i < stop")
    case True
    have "take (stop - i) (drop i sql) = sql ! i # take (stop - Suc i) (drop (Suc i) sql)"
      using True Cons.prems by (metis Cons_nth_drop_Suc Suc_diff_Suc le_less_trans not_le take_Suc_Cons)
    then show ?thesis using True Cons by simp
  qed (use Cons.prems in auto)
qed auto

lemma reject_word:
  assumes "trivia t" and "word \<noteq> []" and "list_all mysql_sql_is_alpha word" and "list_all (\<lambda>c. \<not> mysql_sql_is_alpha c) (take 1 post)"
  shows "mysql_sql_reject_managed_transaction (Some (t @ word @ post)) \<longleftrightarrow> map mysql_sql_upper word \<in> set rejected_keywords"
proof -
  let ?sql = "t @ word @ post" and ?i = "length t" and ?e = "length t + length word"
  have "mysql_sql_is_alpha (?sql ! ?i)" "?i < length ?sql" using assms(2,3) by (cases word; simp add: nth_append)+
  then have start: "skip_leading ?sql 0 = Inr ?i"
    using skip_leading_trivia [OF assms(1), of 0 ?sql "word @ post"] skip_leading_word [of ?i ?sql] by simp
  have "takeWhile mysql_sql_is_alpha (word @ post) = word"
    using assms(3,4) by (cases post) (auto simp: takeWhile_line takeWhile_eq_all_conv list_all_iff)
  then have stop: "scan_while mysql_sql_is_alpha ?sql ?i = ?e" by (simp add: scan_while_eq)
  have "keyword_equal_loop ?sql ?i ?e k \<longleftrightarrow> map mysql_sql_upper word = k" for k
    using keyword_equal_loop_eq [of ?i ?e ?sql k] by simp
  then show ?thesis
    using assms(2) start stop by (simp add: mysql_sql_reject_managed_transaction_def mysql_sql_keyword_equal_def list_ex_iff)
qed

lemma comment_end_none:
  "no_close b \<Longrightarrow> drop e sql = b \<Longrightarrow> e \<le> length sql \<Longrightarrow> length sql \<le> comment_end sql e + 1"
proof (induction b arbitrary: e)
  case Nil
  then show ?case using comment_end_ge [of e sql] by simp
next
  case (Cons x b)
  have e: "e < length sql" "sql ! e = x" "drop (Suc e) sql = b"
    using nth_at [OF Cons(3)] drop_after [of e sql "[x]" b] Cons(3) by auto
  show ?case
  proof (cases b)
    case Nil
    then show ?thesis using e comment_end_ge [of e sql] by simp
  next
    case (Cons y ys)
    have "e + 1 < length sql \<and> sql ! (e + 1) = y" using nth_at [of "Suc e" sql y ys] e(3) Cons by simp
    then show ?thesis using e Cons \<open>no_close (x # b)\<close> Cons.IH [OF _ e(3)] by (subst comment_end.simps) auto
  qed
qed

lemma reject_comment:
  assumes "trivia t" and "starts [CH_BANG] b \<or> no_close b"
  shows "mysql_sql_reject_managed_transaction (Some (t @ [CH_SLASH, CH_STAR] @ b))"
proof -
  let ?sql = "t @ [CH_SLASH, CH_STAR] @ b" and ?i = "length t"
  have d: "drop ?i ?sql = CH_SLASH # CH_STAR # b" by simp
  note two = nth_two [OF d]
  have bang: "byte_at ?sql (?i + 2) CH_BANG \<longleftrightarrow> starts [CH_BANG] b" by (cases b) (auto simp: byte_at_def nth_append)
  have "no_close b \<Longrightarrow> length ?sql \<le> comment_end ?sql (?i + 2) + 1" using comment_end_none [OF _ two(3)] by simp
  then have "skip_leading ?sql ?i = Inl True"
    using two(1,2) bang assms(2)
    by (subst skip_leading.simps) (auto simp: scan_while_stop mysql_parameter_is_space_def Let_def)
  then show ?thesis
    using skip_leading_trivia [OF assms(1), of 0 ?sql "[CH_SLASH, CH_STAR] @ b"]
    by (simp add: mysql_sql_reject_managed_transaction_def)
qed


section \<open>Savepoint statements are inert\<close>

text \<open>An identifier, letter by letter.\<close>

definition letters :: bytes where
  "letters = ascii ''abcdefghijklmnopqrstuvwxyzABCDEFGHIJKLMNOPQRSTUVWXYZ_''"

definition digits :: bytes where
  "digits = ascii ''0123456789''"

definition savepoint_name_ok :: "bytes \<Rightarrow> bool" where
  "savepoint_name_ok name \<longleftrightarrow> name \<noteq> [] \<and> length name \<le> 64 \<and> hd name \<in> set letters \<and> set name \<subseteq> set letters \<union> set digits"

lemma letter_codes:
  "letters = map of_nat ([97..<123] @ [65..<91] @ [95..<96])" "digits = map of_nat [48..<58]"
  by code_simp+

lemma byte_range:
  assumes "hi \<le> 256"
  shows "(c :: u8) \<in> set (map of_nat [lo..<hi]) \<longleftrightarrow> lo \<le> unat c \<and> unat c < hi"
proof -
  have "c \<in> of_nat ` {lo..<hi}" if "lo \<le> unat c" "unat c < hi" using that by (intro image_eqI [of _ _ "unat c"]) simp_all
  then show ?thesis using assms by (auto simp: unat_of_nat)
qed

lemma letters_start: "c \<in> set letters \<longleftrightarrow> mysql_savepoint_identifier_start c"
  unfolding letter_codes map_append set_append Un_iff
  by (simp only: byte_range) (auto simp: mysql_savepoint_identifier_start_def word_le_nat_alt word_unat_eq_iff)

lemma letters_continue: "c \<in> set letters \<union> set digits \<longleftrightarrow> mysql_savepoint_identifier_continue c"
  unfolding Un_iff letters_start mysql_savepoint_identifier_continue_def letter_codes(2)
  by (simp only: byte_range) (auto simp: word_le_nat_alt)

lemma savepoint_name_classes:
  "savepoint_name_ok name \<longleftrightarrow> name \<noteq> [] \<and> length name \<le> MYSQL_SAVEPOINT_NAME_MAX \<and>
     mysql_savepoint_identifier_start (hd name) \<and> list_all mysql_savepoint_identifier_continue name"
  unfolding savepoint_name_ok_def list_all_iff subset_iff letters_start letters_continue by auto

definition savepoint_verb :: "mysql_savepoint_control \<Rightarrow> bytes" where
  "savepoint_verb control =
     (if control = MYSQL_SAVEPOINT_CREATE then ascii ''SAVEPOINT ''
      else if control = MYSQL_SAVEPOINT_ROLLBACK_TO then ascii ''ROLLBACK TO SAVEPOINT '' else ascii ''RELEASE SAVEPOINT '')"

definition savepoint_text :: "mysql_savepoint_control \<Rightarrow> bytes \<Rightarrow> bytes" where
  "savepoint_text control name = savepoint_verb control @ [CH_BACKTICK] @ name @ [CH_BACKTICK]"

lemma name_checks:
  assumes "name \<noteq> []"
  shows "mysql_savepoint_identifier_start (name ! 0) \<and> \<not> list_ex (\<lambda>i. \<not> mysql_savepoint_identifier_continue (name ! i)) [1..<length name] \<longleftrightarrow>
    mysql_savepoint_identifier_start (hd name) \<and> list_all mysql_savepoint_identifier_continue name"
proof -
  obtain c cs where n: "name = c # cs" using assms by (cases name) auto
  have shift: "{1..<length name} = Suc ` {0..<length cs}" by (simp add: n)
  have "list_all mysql_savepoint_identifier_continue cs \<longleftrightarrow> (\<forall>i\<in>{1..<length name}. mysql_savepoint_identifier_continue (name ! i))"
    unfolding shift by (auto simp: n list_all_length simp del: image_Suc_atLeastLessThan)
  moreover have "\<not> list_ex (\<lambda>i. \<not> mysql_savepoint_identifier_continue (name ! i)) [1..<length name] \<longleftrightarrow>
      (\<forall>i\<in>{1..<length name}. mysql_savepoint_identifier_continue (name ! i))" unfolding list_ex_iff set_upt by blast
  moreover have "list_all mysql_savepoint_identifier_continue name \<longleftrightarrow> mysql_savepoint_identifier_continue c \<and> list_all mysql_savepoint_identifier_continue cs"
    "name ! 0 = c" "hd name = c" "mysql_savepoint_identifier_start c \<Longrightarrow> mysql_savepoint_identifier_continue c"
    by (simp_all add: n mysql_savepoint_identifier_continue_def)
  ultimately show ?thesis by metis
qed

lemma savepoint_control_cases:
  obtains "control = MYSQL_SAVEPOINT_CREATE" | "control = MYSQL_SAVEPOINT_ROLLBACK_TO" | "control = MYSQL_SAVEPOINT_RELEASE" | "control > MYSQL_SAVEPOINT_RELEASE"
proof -
  have "unat control = unat (0 :: u32) \<or> unat control = unat (1 :: u32) \<or> unat control = unat (2 :: u32) \<or> unat (2 :: u32) < unat control"
    by simp arith
  then show thesis using that unfolding word_unat_eq_iff [symmetric] word_less_nat_alt by blast
qed

lemma savepoint_prefix:
  "mysql_savepoint_prefix control =
     (if control > MYSQL_SAVEPOINT_RELEASE then Inl MYSQL_WIRE_STATUS_INVALID else Inr (savepoint_verb control @ [CH_BACKTICK]))"
  by (cases control rule: savepoint_control_cases) (auto simp: mysql_savepoint_prefix_def savepoint_verb_def)

lemma length_savepoint_verb: "length (savepoint_verb control) \<le> 22"
  by (simp add: savepoint_verb_def ascii_def)

lemma build_savepoint:
  assumes "cap \<le> length d"
  shows "mysql_transaction_build_savepoint_control control (Some name) (length name) (Some d) cap =
    (if \<not> savepoint_name_ok name \<or> control > MYSQL_SAVEPOINT_RELEASE then (MYSQL_WIRE_STATUS_INVALID, Some d, 0)
     else if length (savepoint_text control name) > cap then (MYSQL_WIRE_STATUS_LIMIT, Some d, 0)
     else (MYSQL_WIRE_STATUS_OK, Some (memcpy d 0 (savepoint_text control name)), length (savepoint_text control name)))"
proof (cases "savepoint_name_ok name \<and> \<not> control > MYSQL_SAVEPOINT_RELEASE")
  case True
  let ?p = "savepoint_verb control @ [CH_BACKTICK]"
  have ok: "name \<noteq> []" "length name \<le> 64"
    "mysql_savepoint_identifier_start (name ! 0)" "\<not> list_ex (\<lambda>i. \<not> mysql_savepoint_identifier_continue (name ! i)) [1..<length name]"
    using True name_checks [of name] by (auto simp: savepoint_name_classes)
  have fits: "\<not> SIZE_MAX - length name - 1 < length ?p" using ok(2) length_savepoint_verb [of control] by (simp add: SIZE_MAX_def)
  have "(memcpy (memcpy d 0 ?p) (length ?p) name)[length ?p + length name := 0x60] = memcpy d 0 (savepoint_text control name)"
    if "length ?p + length name + 1 \<le> cap"
    using that assms memcpy_memcpy [of 0 ?p d name] list_update_is_memcpy [of "length ?p + length name" "memcpy d 0 (?p @ name)" "0x60"]
      memcpy_memcpy [of 0 "?p @ name" d "[0x60]"] by (simp add: savepoint_text_def)
  then show ?thesis using True ok fits
    by (auto simp: mysql_transaction_build_savepoint_control_def savepoint_prefix savepoint_text_def Let_def)
next
  case False
  then show ?thesis using name_checks [of name]
    by (cases "name = []") (auto simp: mysql_transaction_build_savepoint_control_def savepoint_prefix savepoint_name_classes)
qed

definition plain_code :: "u8 \<Rightarrow> bool" where
  "plain_code c \<longleftrightarrow> c \<notin> {CH_STAR, CH_SLASH, CH_DASH, CH_QUESTION, CH_HASH, CH_SINGLE, CH_DOUBLE, CH_BACKTICK}"

lemma lex_sql_Cons:
  assumes "next_token nb st ex (c # xs) = (Verbatim [c], st', ex')"
  shows "lex_sql nb st ex (c # xs) = (Verbatim [c] # fst (lex_sql nb st' ex' xs), snd (lex_sql nb st' ex' xs))"
  using lex_sql_step [OF assms] by simp

lemma lex_plain:
  "list_all plain_code xs \<Longrightarrow> lex_sql nb MYSQL_PARAMETER_LEX_CODE ex (xs @ ys) =
     (map (\<lambda>c. Verbatim [c]) xs @ fst (lex_sql nb MYSQL_PARAMETER_LEX_CODE ex ys), snd (lex_sql nb MYSQL_PARAMETER_LEX_CODE ex ys))"
proof (induction xs)
  case (Cons c xs)
  have "next_token nb MYSQL_PARAMETER_LEX_CODE ex (c # xs @ ys) = (Verbatim [c], MYSQL_PARAMETER_LEX_CODE, ex)"
    using Cons.prems next_token_plain [of c nb ex "xs @ ys"] by (simp add: plain_code_def)
  then show ?case using Cons by (simp add: lex_sql_Cons)
qed simp

lemma lex_backtick:
  "list_all (\<lambda>c. c \<noteq> CH_BACKTICK) xs \<Longrightarrow> lex_sql nb MYSQL_PARAMETER_LEX_BACKTICK ex (xs @ [CH_BACKTICK]) =
     (map (\<lambda>c. Verbatim [c]) (xs @ [CH_BACKTICK]), MYSQL_PARAMETER_LEX_CODE, ex)"
proof (induction xs)
  case Nil
  then show ?case
    by (simp add: lex_sql_Cons [of _ _ _ _ _ MYSQL_PARAMETER_LEX_CODE ex] next_token_quoted is_quote_def quote_terminator_def)
next
  case (Cons c xs)
  have "next_token nb MYSQL_PARAMETER_LEX_BACKTICK ex (c # xs @ [CH_BACKTICK]) = (Verbatim [c], MYSQL_PARAMETER_LEX_BACKTICK, ex)"
    using Cons.prems by (simp add: next_token_quoted is_quote_def quote_terminator_def)
  then show ?case using Cons by (simp add: lex_sql_Cons)
qed

lemma lex_savepoint:
  assumes "savepoint_name_ok name"
  shows "lex_sql nb MYSQL_PARAMETER_LEX_CODE False (savepoint_text control name) =
    (map (\<lambda>c. Verbatim [c]) (savepoint_text control name), MYSQL_PARAMETER_LEX_CODE, False)"
proof -
  have verb: "list_all plain_code (savepoint_verb control)" by (simp add: savepoint_verb_def ascii_def plain_code_def)
  have name: "list_all (\<lambda>c. c \<noteq> CH_BACKTICK) name"
    using assms by (auto simp: savepoint_name_classes list_all_iff mysql_savepoint_identifier_continue_def mysql_savepoint_identifier_start_def)
  have "next_token nb MYSQL_PARAMETER_LEX_CODE False (CH_BACKTICK # name @ [CH_BACKTICK]) = (Verbatim [CH_BACKTICK], MYSQL_PARAMETER_LEX_BACKTICK, False)"
    by (simp add: next_token_plain)
  from lex_sql_Cons [OF this] show ?thesis using lex_plain [OF verb] lex_backtick [OF name] by (simp add: savepoint_text_def)
qed

lemma verbatim_tokens [simp]:
  "render (map (\<lambda>c. Verbatim [c]) xs) = xs" "markers (map (\<lambda>c. Verbatim [c]) xs) = 0"
  "style_after style (map (\<lambda>c. Verbatim [c]) xs) = style" "bindings k (map (\<lambda>c. Verbatim [c]) xs) = []"
  "one_style (map (\<lambda>c. Verbatim [c]) xs)"
  by (induction xs) (auto simp: one_style_def)


lemma savepoint_backticks:
  assumes "savepoint_name_ok name"
  shows "count_list (savepoint_text control name) CH_BACKTICK = 2"
proof -
  have "CH_BACKTICK \<notin> set name"
    using assms by (auto simp: savepoint_name_classes list_all_iff mysql_savepoint_identifier_continue_def mysql_savepoint_identifier_start_def)
  then have "count_list name CH_BACKTICK = 0" by (simp add: count_list_0_iff)
  moreover have "count_list (savepoint_verb control) CH_BACKTICK = 0" by (simp add: savepoint_verb_def ascii_def)
  ultimately show ?thesis by (simp add: savepoint_text_def)
qed

text \<open>What the guard says of the built statements as raw SQL: it lets the release of a savepoint through.\<close>

lemma savepoint_guard:
  assumes "control \<le> MYSQL_SAVEPOINT_RELEASE"
  shows "mysql_sql_reject_managed_transaction (Some (savepoint_text control name)) \<longleftrightarrow> control \<noteq> MYSQL_SAVEPOINT_RELEASE"
proof -
  have word: "mysql_sql_reject_managed_transaction (Some (savepoint_text control name)) \<longleftrightarrow> map mysql_sql_upper w \<in> set rejected_keywords"
    if "savepoint_verb control = w @ CH_SPACE # v" "w \<noteq> []" "list_all mysql_sql_is_alpha w" for w v
    using reject_word [OF trivia_Nil that(2,3), of "CH_SPACE # v @ [CH_BACKTICK] @ name @ [CH_BACKTICK]"] that(1)
    by (simp add: savepoint_text_def mysql_sql_is_alpha_def)
  show "mysql_sql_reject_managed_transaction (Some (savepoint_text control name)) \<longleftrightarrow> control \<noteq> MYSQL_SAVEPOINT_RELEASE"
  proof (cases control rule: savepoint_control_cases)
    case 1
    have "savepoint_verb control = ascii ''SAVEPOINT'' @ CH_SPACE # []" unfolding 1 by code_simp
    moreover have "map mysql_sql_upper (ascii ''SAVEPOINT'') \<in> set rejected_keywords" "list_all mysql_sql_is_alpha (ascii ''SAVEPOINT'')" "ascii ''SAVEPOINT'' \<noteq> []" by code_simp+
    ultimately show ?thesis using word 1 by simp
  next
    case 2
    have "savepoint_verb control = ascii ''ROLLBACK'' @ CH_SPACE # ascii ''TO SAVEPOINT ''" unfolding 2 by code_simp
    moreover have "map mysql_sql_upper (ascii ''ROLLBACK'') \<in> set rejected_keywords" "list_all mysql_sql_is_alpha (ascii ''ROLLBACK'')" "ascii ''ROLLBACK'' \<noteq> []" by code_simp+
    ultimately show ?thesis using word 2 by simp
  next
    case 3
    have "savepoint_verb control = ascii ''RELEASE'' @ CH_SPACE # ascii ''SAVEPOINT ''" unfolding 3 by code_simp
    moreover have "map mysql_sql_upper (ascii ''RELEASE'') \<notin> set rejected_keywords" "list_all mysql_sql_is_alpha (ascii ''RELEASE'')" "ascii ''RELEASE'' \<noteq> []" by code_simp+
    ultimately show ?thesis using word 3 by simp
  qed (use assms in auto)
qed


section \<open>Properties\<close>

text \<open>
  C32. The guard reads a text as blanks and comments followed by a word, and rejects it exactly when the word,
  in any case, is one of the listed keywords.  A text whose leading comment is an executable comment or is
  never closed is rejected whatever follows.
\<close>

theorem transaction_guard_reads_first_word:
  assumes "trivia t"
  shows "(word \<noteq> [] \<and> list_all mysql_sql_is_alpha word \<and> list_all (\<lambda>c. \<not> mysql_sql_is_alpha c) (take 1 post) \<longrightarrow>
      (mysql_sql_reject_managed_transaction (Some (t @ word @ post)) \<longleftrightarrow> map mysql_sql_upper word \<in> set rejected_keywords)) \<and>
    (starts [CH_BANG] b \<or> no_close b \<longrightarrow> mysql_sql_reject_managed_transaction (Some (t @ [CH_SLASH, CH_STAR] @ b)))"
  using reject_word [OF assms] reject_comment [OF assms] by blast

theorem transaction_guard_reads_first_word_witness:
  "mysql_sql_reject_managed_transaction (Some ((CH_SLASH # CH_STAR # ascii ''x'' @ CH_STAR # CH_SLASH # [CH_SPACE]) @ ascii ''cOMMIT'' @ ascii '';'')) \<and>
   mysql_sql_reject_managed_transaction (Some ([CH_SPACE] @ [CH_SLASH, CH_STAR] @ ascii ''!80000 DROP'')) \<and>
   \<not> mysql_sql_reject_managed_transaction (Some ([CH_SPACE] @ ascii ''RELEASE'' @ ascii '' SAVEPOINT x''))"
proof -
  have t: "trivia [CH_SPACE]" by (intro trivia_space trivia_Nil) (simp add: mysql_parameter_is_space_def)
  have c: "trivia (CH_SLASH # CH_STAR # ascii ''x'' @ CH_STAR # CH_SLASH # [CH_SPACE])"
    by (rule trivia_block [OF _ _ t]) (simp_all add: ascii_def)
  have "map mysql_sql_upper (ascii ''cOMMIT'') \<in> set rejected_keywords" "map mysql_sql_upper (ascii ''RELEASE'') \<notin> set rejected_keywords"
    by code_simp+
  moreover have "ascii ''cOMMIT'' \<noteq> [] \<and> list_all mysql_sql_is_alpha (ascii ''cOMMIT'') \<and> list_all (\<lambda>c. \<not> mysql_sql_is_alpha c) (take 1 (ascii '';''))"
    "ascii ''RELEASE'' \<noteq> [] \<and> list_all mysql_sql_is_alpha (ascii ''RELEASE'') \<and> list_all (\<lambda>c. \<not> mysql_sql_is_alpha c) (take 1 (ascii '' SAVEPOINT x''))"
    "starts [CH_BANG] (ascii ''!80000 DROP'') \<or> no_close (ascii ''!80000 DROP'')" by code_simp+
  ultimately show ?thesis
    using transaction_guard_reads_first_word [OF c, of "ascii ''cOMMIT''" "ascii '';''"]
      transaction_guard_reads_first_word [OF t, of "ascii ''RELEASE''" "ascii '' SAVEPOINT x''" "ascii ''!80000 DROP''"] by blast
qed

text \<open>
  C33. Savepoint names cannot inject SQL.  The builder accepts a name exactly when it is an identifier (ASCII letters, digits and
  underscores, not starting with a digit) of at most 64 characters and the control is one of the three; every other
  name is refused as invalid, and a statement that does not fit as a limit, with nothing written.  What is built is
  the verb and the name between backticks, which are the only two in it, and lowering passes it through unchanged and
  finds no marker in it.
\<close>

theorem savepoint_statement_inert:
  assumes "cap \<le> length d" and "opt_max_parameters opts \<noteq> 0" and "bcap \<le> length bind"
  shows "mysql_transaction_build_savepoint_control control (Some name) (length name) (Some d) cap =
      (if \<not> savepoint_name_ok name \<or> control > MYSQL_SAVEPOINT_RELEASE then (MYSQL_WIRE_STATUS_INVALID, Some d, 0)
       else if length (savepoint_text control name) > cap then (MYSQL_WIRE_STATUS_LIMIT, Some d, 0)
       else (MYSQL_WIRE_STATUS_OK, Some (memcpy d 0 (savepoint_text control name)), length (savepoint_text control name))) \<and>
    (\<forall>out n. mysql_transaction_build_savepoint_control control (Some name) (length name) (Some d) cap = (MYSQL_WIRE_STATUS_OK, Some out, n) \<longrightarrow>
       length out = length d \<and> n \<le> cap \<and> drop n out = drop n d \<and> count_list (take n out) CH_BACKTICK = 2 \<and>
       mysql_parameter_lower (Some (take n out)) (Some opts) (Some d) cap (Some bind) bcap =
         \<lparr>lowered_status = MYSQL_WIRE_STATUS_OK, lowered_sql = Some (memcpy d 0 (take n out)), lowered_size = Some n,
          lowered_bind = Some bind, lowered_result = Some \<lparr>res_style = MYSQL_PARAMETER_STYLE_NONE, res_bind_count = 0\<rparr>\<rparr>)"
proof (intro conjI allI impI)
  let ?text = "savepoint_text control name"
  note built = build_savepoint [OF assms(1), of control name]
  show "mysql_transaction_build_savepoint_control control (Some name) (length name) (Some d) cap =
      (if \<not> savepoint_name_ok name \<or> control > MYSQL_SAVEPOINT_RELEASE then (MYSQL_WIRE_STATUS_INVALID, Some d, 0)
       else if length ?text > cap then (MYSQL_WIRE_STATUS_LIMIT, Some d, 0)
       else (MYSQL_WIRE_STATUS_OK, Some (memcpy d 0 ?text), length ?text))" by (rule built)
  fix out n
  assume "mysql_transaction_build_savepoint_control control (Some name) (length name) (Some d) cap = (MYSQL_WIRE_STATUS_OK, Some out, n)"
  then have ok: "savepoint_name_ok name" "length ?text \<le> cap" and out: "out = memcpy d 0 ?text" "n = length ?text"
    unfolding built by (auto split: if_splits)
  then have sql: "take n out = ?text" by (simp add: memcpy_def)
  show "length out = length d" "n \<le> cap" "drop n out = drop n d" using ok(2) out assms(1) by (simp_all add: memcpy_def)
  show "count_list (take n out) CH_BACKTICK = 2" unfolding sql by (rule savepoint_backticks [OF ok(1)])
  show "mysql_parameter_lower (Some (take n out)) (Some opts) (Some d) cap (Some bind) bcap =
      \<lparr>lowered_status = MYSQL_WIRE_STATUS_OK, lowered_sql = Some (memcpy d 0 (take n out)), lowered_size = Some n,
       lowered_bind = Some bind, lowered_result = Some \<lparr>res_style = MYSQL_PARAMETER_STYLE_NONE, res_bind_count = 0\<rparr>\<rparr>"
    using lower_success(2) [OF assms(1,3,2) lex_savepoint [OF ok(1)]] ok(2) sql out(2) by (simp add: lowerable_def left_open_def is_quote_def)
qed

theorem savepoint_statement_inert_witness:
  "mysql_transaction_build_savepoint_control MYSQL_SAVEPOINT_RELEASE (Some (ascii ''s1'')) 2 (Some (replicate 30 0)) 30 =
     (MYSQL_WIRE_STATUS_OK, Some (memcpy (replicate 30 0) 0 (savepoint_text MYSQL_SAVEPOINT_RELEASE (ascii ''s1''))), 22) \<and>
   mysql_transaction_build_savepoint_control MYSQL_SAVEPOINT_CREATE (Some [0x61, CH_BACKTICK]) 2 (Some (replicate 30 0)) 30 =
     (MYSQL_WIRE_STATUS_INVALID, Some (replicate 30 0), 0)"
proof -
  have "savepoint_name_ok (ascii ''s1'')" "\<not> savepoint_name_ok [0x61, CH_BACKTICK]" "length (savepoint_text MYSQL_SAVEPOINT_RELEASE (ascii ''s1'')) = 22"
    "length (ascii ''s1'') = 2" "opt_max_parameters example_options \<noteq> 0" by code_simp+
  then show ?thesis
    using savepoint_statement_inert [of 30 "replicate 30 0" example_options 0 "[]" MYSQL_SAVEPOINT_RELEASE "ascii ''s1''"]
      savepoint_statement_inert [of 30 "replicate 30 0" example_options 0 "[]" MYSQL_SAVEPOINT_CREATE "[0x61, CH_BACKTICK]"] by (simp add: numeral_2_eq_2)
qed

end
