(* ===== verification/Spec2Isabelle.thy ===== *)
theory Spec2Isabelle
  imports Server_Authenticate Sql_Work Sql_Like Sql_Arithmetic Sql_Index_Key Mysql_Transaction
begin

text \<open>
  A verification library for turbodb, a database toolkit in C: the MySQL protocol between its client and its
  server, the client's treatment of SQL text, and the scalar core of its SQL engine with the budget that
  bounds the work of a statement.

  \<^bold>\<open>The program.\<close>  A client (\<open>src/mysql\<close>) and a server (\<open>src/tidessql/server/mysql\<close>) exchange messages of the MySQL
  client/server protocol.  A message is cut into packets with sequence numbers; its payload is a command, an answer, a
  row or a step of the handshake, made of fixed-width and length-encoded fields.  Before the client sends SQL text it
  rewrites portable placeholders and refuses statements that would end a transaction it manages.  The
  server hands statements to an SQL engine (\<open>src/tidessql/src\<close>) over a key-value store (\<open>src/tidesdb\<close>).  The engine
  evaluates predicates, patterns and arithmetic over tagged values, encodes index keys, and pays for every step from
  the ledger of the statement.

  \<^bold>\<open>Conventions of the model.\<close>  The target is a 64-bit one: \<open>size_t\<close> is a natural number bounded by \<open>SIZE_MAX = 2 ^ 64 - 1\<close>.
  Integers of fixed width are words, signed ones included (read with \<open>sint\<close>), so wrap-around is that of the code.  A
  double is its bit pattern, and denotes a number in units of \<open>2 ^ -1074\<close>.  A pointer that may be NULL is an option; a
  buffer is its list of bytes, and the place of a result is a flag that says whether it was given.  A reader returns an error or
  a value with the new offset; a writer returns the status, the buffer and the offset, so that what an error leaves in a
  buffer is part of the model.  Macros are input abbreviations.  Loops are structural recursions or functions with a
  termination proof; no definition runs on fuel, except that the search for the highest bit of a
  number starts from a bound (63 for words, 3200 for quotients of doubles, which are below \<open>2 ^ 3200\<close>).  The
  text of diagnostics is not modelled, only the status that goes with it.

  \<^bold>\<open>Theories.\<close>

  \<^item> \<open>Prelude\<close>: words and bytes, the status-passing combinators \<open>and_then\<close> and \<open>write_then\<close>, copying into a buffer, and the lemmas
    on little-endian digits.  \<open>Turbodb_Types\<close>: the statuses and values of \<open>src/include/turbodb/types.h\<close>, the fields of doubles and
    floats and the conversion between them.  \<open>C_Printf\<close>: what the sources use of the C library's number formatting.

  \<^item> \<open>Wire_Codec\<close> (\<open>src/mysql/wire/codec.c\<close>): the primitive fields.  The locales \<open>wire_codec\<close> (a reader that inverts an encoding) and
    \<open>wire_sink\<close> (a writer that appends one, or fails and leaves a bounded buffer) are the interface of this layer; each reader and
    writer of the code is an interpretation, and the decoders and builders above rest on their facts.

  \<^item> \<open>Wire_Packet\<close> (\<open>src/mysql/wire/packet.c\<close>): the incremental packet stream.  It stays in bounds, and an error is final.
    \<open>Server_Frame\<close> (\<open>src/tidessql/server/mysql/frame.c\<close>): reassembly of messages and their framing.  What one side frames the other
    reassembles, however the bytes are cut, and a feed changes nothing in the caller's array outside the message within its capacity.

  \<^item> \<open>Wire_Statement\<close> (\<open>src/mysql/wire/query.c\<close>, \<open>statement.c\<close>) and \<open>Server_Command\<close> (\<open>src/tidessql/server/mysql/command.c\<close>): commands
    and their parameters, from the client's builders to the server's decoder; a rejected EXECUTE leaves no parameter behind.

  \<^item> \<open>Wire_Result\<close>, \<open>Wire_Row\<close> (\<open>src/mysql/wire/result.c\<close>, \<open>row.c\<close>) and \<open>Server_Response\<close> (\<open>src/tidessql/server/mysql/response.c\<close>): answers,
    column definitions and rows, from the server's two-pass encoders to the client's decoders.

  \<^item> \<open>Wire_Handshake\<close> and \<open>Server_Handshake\<close> (\<open>handshake.c\<close> of both sides): greeting, capabilities, TLS request and login.  The server's
    negotiation is a step relation; login is reached only over TLS, failure latches, and the two sides complete a handshake.

  \<^item> \<open>Mysql_Auth\<close> (\<open>src/mysql/auth/auth.c\<close>, \<open>src/tidessql/server/mysql/password.c\<close>): the client's response answers the challenge, and
    the server's verifier accepts the password a record was made for.  \<open>Server_Authenticate\<close> (\<open>authenticate.c\<close> of the server): the
    policy of accounts and databases, and the owner of one login with all its operations.  A run is an inductive relation on the
    events of a caller and the answers of the engine, in any order; a session is handed over at most once and only to a
    login that was verified and granted, and a login that is granted gets one.

  \<^item> \<open>Mysql_Parameters\<close>, \<open>Mysql_Lowering\<close> (\<open>src/mysql/parameters.c\<close>): the state machine that rewrites placeholders, its refinement of a
    reference lexer, idempotence and bounds.  \<open>Mysql_Transaction\<close>: the guard against transaction control, and the savepoint
    statements of \<open>src/mysql/transaction_control.c\<close>, built for identifiers only.

  \<^item> \<open>Sql_Budget\<close> (\<open>src/tidessql/src/budget.c\<close>): the ledger of a statement and of its transaction, an invariant over
    all sequences of calls, and a refinement of a ledger over natural numbers.  \<open>Sql_Work\<close> (\<open>src/tidessql/src/work.c\<close>): storage and sorting
    paid from the ledger.

  \<^item> \<open>Sql_Predicate\<close>, \<open>Sql_Like\<close>, \<open>Sql_Arithmetic\<close> (\<open>src/tidessql/src/value.c\<close>): predicates refine Kleene's three-valued logic over exact
    comparisons, of reals only where a value is a double; \<open>LIKE\<close> decides the language of its pattern within \<open>(n + 1) * (m + 1)\<close> steps of the matcher; integer arithmetic is exact or
    reports the range.  \<open>Sql_Index_Key\<close> (\<open>index_key.c\<close>, \<open>wire.h\<close> there): keys sort as rows do, decode to what was encoded,
    and have one form.  The locale \<open>ordered_field\<close> is what the key codec asks of a field, and the signed, unsigned and
    double fields are its interpretations.

  \<^bold>\<open>Parameters and hypotheses.\<close>  Code outside the sources is a parameter: the UTF-8 check of the string library, the vector and the stable
    sort of the container library, the decimal point of the locale, the power of ten of the C library (no theorem
    depends on the last two beyond what it states), and the digests, key derivation, salts and comparison of the cryptographic
    library (assumed, where stated, are only that digests do not fail and have their lengths, and that the comparison decides equality).  The calls of the
    engine that the owner of a login makes are parameters too, with nothing assumed.  Hypotheses of the properties are the caller's contracts that the headers state:
    a view has the size it says, sizes fit \<open>size_t\<close>, a ledger is reachable, a charge is granted.  Each property with a hypothesis is
    followed by a theorem that applies it to a concrete input.

  \<^bold>\<open>Not modelled.\<close>

  \<^item> \<open>src/tidesdb\<close> is a vendored storage engine and \<open>src/tools/lemon\<close> a vendored parser generator; both are used through their interfaces only.
    The grammar of \<open>src/sqlparser\<close> is an input of that generator, whose output is not among the sources, and its lexer
    one of re2c.

  \<^item> Sockets, threads, TLS, files and processes: \<open>src/mysql/session.c\<close>, \<open>src/tidessql/server/mysql/server.c\<close>, \<open>frontend.c\<close> and \<open>dispatch.c\<close>, the
    daemon, \<open>src/redis\<close>, \<open>src/dbtools\<close>, and the desktop program in C++ under \<open>src/app\<close>.  The protocol they drive is modelled above.

  \<^item> \<open>registry.c\<close> of the server keeps handles of prepared statements of the engine below.  Secrets are wiped by the code; that leaves no trace in
    the results and is not modelled.

  \<^item> The relational part of the engine (catalog, binding, planning, joins, aggregates, windows, subqueries, stores, connections) works on the
    parser's syntax tree and on transactions of the storage engine.  Of \<open>value.c\<close> the literals, assignment conversions and casts
    are left out: they convert decimal text with
    \<open>long double\<close> and \<open>powl\<close>, whose precision depends on the platform.

  \<^item> \<open>src/orm\<close> and \<open>src/drivers\<close> dispatch to drivers through tables of functions loaded at run time.

  \<^item> Formatted text of diagnostics, and memory exhaustion other than in the work storage, where it is a status of the vector.
\<close>

end
